(* ===== verification/Prelude.thy ===== *)
theory Prelude
  imports Main
begin
text \<open>
  Shared vocabulary of the development.
  \<^item> \<open>py_error\<close>: the Python and Django exceptions the modelled code raises or catches.
  \<^item> \<open>('s, 'a) exc\<close>: a computation over a database state \<open>'s\<close> that returns a
    value or raises. The state reached before an exception is kept, as it is in the
    code: none of the modelled managers runs inside a transaction, so rows written
    before an exception stay written.
  \<^item> \<open>objects_get\<close>: Django's \<open>QuerySet.get\<close> (exactly one match, else
    \<open>DoesNotExist\<close> or \<open>MultipleObjectsReturned\<close>).
  \<^item> \<open>save_row\<close>: Django's \<open>Model.save\<close> on a row with a primary key (an
    \<open>UPDATE\<close> of the row with that key, an \<open>INSERT\<close> when there is none).
  \<^item> \<open>py_nth\<close>: Python list indexing, negative indices counting from the end.
  The collection \<open>exc_simps\<close> holds the rewrite rules of the monad; component
  proofs use it with \<open>simp add: exc_simps\<close>.
\<close>

named_theorems exc_simps "rewrite rules that run a computation of the exception monad"

datatype py_error =
    DoesNotExist
  | MultipleObjectsReturned
  | AttributeError
  | TypeError
  | IndexError
  | ValueError
  | KeyError
  | UnboundLocalError
  | ImproperlyConfigured
  | PermissionDenied
  | Http404
  | UnicodeEncodeError
  | TransportError
  | PageNotAnInteger
  | EmptyPage
  | ZeroDivisionError
  | AssertionError
  | VariableDoesNotExist
  | OverflowError
  | IntegrityError
  | DatabaseError
  | DataError
  | FieldError
  | NoReverseMatch

subsection \<open>State and exceptions\<close>

type_synonym ('s, 'a) exc = "'s \<Rightarrow> (py_error + 'a) \<times> 's"

definition ret :: "'a \<Rightarrow> ('s, 'a) exc" where
  "ret a = (\<lambda>s. (Inr a, s))"

definition raise :: "py_error \<Rightarrow> ('s, 'a) exc" where
  "raise e = (\<lambda>s. (Inl e, s))"

definition ebind :: "('s, 'a) exc \<Rightarrow> ('a \<Rightarrow> ('s, 'b) exc) \<Rightarrow> ('s, 'b) exc" where
  "ebind m f = (\<lambda>s. case m s of (Inl e, s') \<Rightarrow> (Inl e, s') | (Inr a, s') \<Rightarrow> f a s')"

definition lift :: "py_error + 'a \<Rightarrow> ('s, 'a) exc" where
  "lift r = (\<lambda>s. (r, s))"

definition gets :: "('s \<Rightarrow> 'a) \<Rightarrow> ('s, 'a) exc" where
  "gets f = (\<lambda>s. (Inr (f s), s))"

definition modify :: "('s \<Rightarrow> 's) \<Rightarrow> ('s, unit) exc" where
  "modify f = (\<lambda>s. (Inr (), f s))"

subsection \<open>Django's \<open>QuerySet.get\<close> and \<open>Model.save\<close>\<close>

definition objects_get :: "('a \<Rightarrow> bool) \<Rightarrow> 'a list \<Rightarrow> py_error + 'a" where
  "objects_get P xs =
     (case filter P xs of
        [] \<Rightarrow> Inl DoesNotExist
      | [x] \<Rightarrow> Inr x
      | _ \<Rightarrow> Inl MultipleObjectsReturned)"

text \<open>
  \<open>save_row key r xs\<close> is \<open>r.save()\<close> on the table \<open>xs\<close> whose primary key
  is \<open>key\<close>: every row with the key of \<open>r\<close> is overwritten by \<open>r\<close> (all its
  fields, as Django writes them from the instance), and \<open>r\<close> is appended when no row
  has its key.
\<close>

definition save_row :: "('a \<Rightarrow> 'k) \<Rightarrow> 'a \<Rightarrow> 'a list \<Rightarrow> 'a list" where
  "save_row key r xs =
     (if key r \<in> key ` set xs then map (\<lambda>x. if key x = key r then r else x) xs
      else xs @ [r])"

subsection \<open>Python list indexing\<close>

definition py_nth :: "'a list \<Rightarrow> int \<Rightarrow> py_error + 'a" where
  "py_nth xs i =
     (let len = int (length xs); k = (if i < 0 then i + len else i)
      in if k < 0 \<or> len \<le> k then Inl IndexError else Inr (xs ! nat k))"

subsection \<open>Python's \<open>str.split\<close> on a one-character separator\<close>

fun py_split :: "char \<Rightarrow> string \<Rightarrow> string list" where
  "py_split c [] = [[]]"
| "py_split c (x # xs) =
     (if x = c then [] # py_split c xs
      else (case py_split c xs of w # ws \<Rightarrow> (x # w) # ws | [] \<Rightarrow> [[x]]))"

text \<open>Python's \<open>sep.join(parts)\<close> for a one-character separator.\<close>

fun py_join :: "char \<Rightarrow> string list \<Rightarrow> string" where
  "py_join c [] = []"
| "py_join c [w] = w"
| "py_join c (w # ws) = w @ c # py_join c ws"

subsection \<open>Python's \<open>int(s)\<close> on a string\<close>

text \<open>
  \<open>int(s)\<close>: surrounding whitespace is ignored, a sign is optional, and at least one
  decimal digit must follow; anything else raises \<open>ValueError\<close> (\<open>None\<close> here).
\<close>

definition is_digit :: "char \<Rightarrow> bool" where
  "is_digit c \<longleftrightarrow> 48 \<le> (of_char c :: nat) \<and> (of_char c :: nat) \<le> 57"

definition is_py_space :: "char \<Rightarrow> bool" where
  "is_py_space c \<longleftrightarrow> c \<in> {CHR '' '', CHR ''\<newline>'', CHR 0x09, CHR 0x0D, CHR 0x0B, CHR 0x0C}"

text \<open>\<open>str.lower()\<close> on one ASCII character.\<close>

definition ascii_lower :: "char \<Rightarrow> char" where
  "ascii_lower c =
     (if 65 \<le> (of_char c :: nat) \<and> (of_char c :: nat) \<le> 90 then char_of (of_char c + (32 :: nat)) else c)"

definition py_strip :: "string \<Rightarrow> string" where
  "py_strip s = rev (dropWhile is_py_space (rev (dropWhile is_py_space s)))"

definition digits_value :: "string \<Rightarrow> int" where
  "digits_value ds = foldl (\<lambda>acc c. 10 * acc + (int (of_char c) - 48)) 0 ds"

definition unsigned_int :: "string \<Rightarrow> int option" where
  "unsigned_int ds = (if ds \<noteq> [] \<and> list_all is_digit ds then Some (digits_value ds) else None)"

definition py_int :: "string \<Rightarrow> int option" where
  "py_int s =
     (case py_strip s of
        [] \<Rightarrow> None
      | c # ds \<Rightarrow>
          if c = CHR ''-'' then map_option uminus (unsigned_int ds)
          else if c = CHR ''+'' then unsigned_int ds
          else unsigned_int (c # ds))"

text \<open>\<open>str()\<close> of an integer: its decimal numeral, with a minus sign when negative.\<close>

fun nat_digits :: "nat \<Rightarrow> string" where
  "nat_digits n = (if n < 10 then [char_of (48 + n)] else nat_digits (n div 10) @ [char_of (48 + n mod 10)])"

definition py_str_int :: "int \<Rightarrow> string" where
  "py_str_int i = (if i < 0 then CHR ''-'' # nat_digits (nat (- i)) else nat_digits (nat i))"

lemma ebind_ret [exc_simps]: "ebind (ret a) f = f a"
  by (simp add: ebind_def ret_def)

lemma ebind_raise [exc_simps]: "ebind (raise e) f = raise e"
  by (simp add: ebind_def raise_def)

lemma ebind_gets [exc_simps]: "ebind (gets g) f = (\<lambda>s. f (g s) s)"
  by (simp add: ebind_def gets_def)

lemma ebind_modify [exc_simps]: "ebind (modify g) f = (\<lambda>s. f () (g s))"
  by (simp add: ebind_def modify_def)

lemma ebind_lift [exc_simps]:
  "ebind (lift r) f = (case r of Inl e \<Rightarrow> raise e | Inr a \<Rightarrow> f a)"
  by (simp add: ebind_def lift_def raise_def fun_eq_iff split: sum.splits)

lemma ebind_assoc [exc_simps]: "ebind (ebind m f) g = ebind m (\<lambda>a. ebind (f a) g)"
  by (simp add: ebind_def fun_eq_iff split: prod.splits sum.splits)

lemma ebind_if [exc_simps]:
  "ebind (if b then m else n) f = (if b then ebind m f else ebind n f)"
  by simp

lemma run_simps [exc_simps]:
  "ret a s = (Inr a, s)" "raise e s = (Inl e, s)" "gets g s = (Inr (g s), s)"
  "modify h s = (Inr (), h s)" "lift r s = (r, s)"
  by (simp_all add: ret_def raise_def gets_def modify_def lift_def)

lemma objects_get_Inr_iff: "objects_get P xs = Inr x \<longleftrightarrow> filter P xs = [x]"
  by (simp add: objects_get_def split: list.splits)

lemma objects_get_Inr_mem:
  "objects_get P xs = Inr x \<Longrightarrow> x \<in> set xs \<and> P x"
proof -
  assume "objects_get P xs = Inr x"
  then have "x \<in> set (filter P xs)" by (simp add: objects_get_Inr_iff)
  then show ?thesis by simp
qed

lemma objects_get_Inr_unique:
  "objects_get P xs = Inr x \<Longrightarrow> y \<in> set xs \<Longrightarrow> P y \<Longrightarrow> y = x"
proof -
  assume a: "objects_get P xs = Inr x" "y \<in> set xs" "P y"
  from a(2,3) have "y \<in> set (filter P xs)" by simp
  also from a(1) have "filter P xs = [x]" by (simp add: objects_get_Inr_iff)
  finally show ?thesis by simp
qed

lemma objects_get_multiple:
  "a \<in> set xs \<Longrightarrow> b \<in> set xs \<Longrightarrow> a \<noteq> b \<Longrightarrow> P a \<Longrightarrow> P b \<Longrightarrow> objects_get P xs = Inl MultipleObjectsReturned"
proof -
  assume h: "a \<in> set xs" "b \<in> set xs" "a \<noteq> b" "P a" "P b"
  obtain ys where ys: "filter P xs = ys" by simp
  with h have fa: "a \<in> set ys" "b \<in> set ys" by auto
  have "ys \<noteq> []" "\<forall>x. ys \<noteq> [x]" using fa h(3) by auto
  with ys show ?thesis by (auto simp: objects_get_def split: list.splits)
qed

lemma objects_get_none: "\<not> (\<exists>x\<in>set xs. P x) \<Longrightarrow> objects_get P xs = Inl DoesNotExist"
  by (simp add: objects_get_def filter_empty_conv)

lemma save_row_split:
  assumes "distinct (map key xs)" and "x \<in> set xs" and "key r = key x"
  shows "\<exists>ys zs. xs = ys @ x # zs \<and> save_row key r xs = ys @ r # zs
           \<and> key x \<notin> key ` set ys \<and> key x \<notin> key ` set zs"
proof -
  obtain ys zs where xs: "xs = ys @ x # zs"
    using assms(2) by (metis split_list)
  with assms(1) have ny: "key x \<notin> key ` set ys" and nz: "key x \<notin> key ` set zs"
    by auto
  from ny have "map (\<lambda>y. if key y = key r then r else y) ys = ys"
    using assms(3) by (intro map_idI) (metis image_eqI)
  moreover from nz have "map (\<lambda>y. if key y = key r then r else y) zs = zs"
    using assms(3) by (intro map_idI) (metis image_eqI)
  ultimately have "save_row key r xs = ys @ r # zs"
    using assms(2,3) xs by (auto simp: save_row_def)
  with xs ny nz show ?thesis by blast
qed

lemma set_save_row:
  assumes "distinct (map key xs)" and "x \<in> set xs" and "key r = key x"
  shows "set (save_row key r xs) = insert r (set xs - {x})"
proof -
  from save_row_split [OF assms] obtain ys zs where
    xs: "xs = ys @ x # zs" and sv: "save_row key r xs = ys @ r # zs"
    and ny: "key x \<notin> key ` set ys" and nz: "key x \<notin> key ` set zs"
    by blast
  from ny nz have "x \<notin> set ys" "x \<notin> set zs" by auto
  with xs sv show ?thesis by auto
qed

lemma map_key_save_row:
  "key r \<in> key ` set xs \<Longrightarrow> map key (save_row key r xs) = map key xs"
  by (simp add: save_row_def)

lemma distinct_save_row:
  "distinct (map key xs) \<Longrightarrow> key r \<in> key ` set xs \<Longrightarrow> distinct (map key (save_row key r xs))"
  by (simp add: map_key_save_row)

lemma distinct_save_row_any:
  assumes "distinct (map key xs)"
  shows "distinct (map key (save_row key r xs))"
proof (cases "key r \<in> key ` set xs")
  case True
  with assms show ?thesis by (simp add: map_key_save_row)
next
  case False
  with assms show ?thesis by (simp add: save_row_def)
qed

lemma distinct_map_eq:
  "distinct (map f xs) \<Longrightarrow> a \<in> set xs \<Longrightarrow> b \<in> set xs \<Longrightarrow> f a = f b \<Longrightarrow> a = b"
  by (auto dest: inj_onD simp: distinct_map)

lemma objects_get_map:
  assumes "\<And>x. P (f x) = P x"
  shows "objects_get P (map f xs) = (case objects_get P xs of Inl e \<Rightarrow> Inl e | Inr x \<Rightarrow> Inr (f x))"
proof -
  have "filter P (map f xs) = map f (filter P xs)"
    using assms by (induction xs) simp_all
  then show ?thesis
    by (simp add: objects_get_def split: list.splits)
qed

lemma find_save_row:
  "find (\<lambda>x. key x = key r) (save_row key r xs) = Some r"
proof (cases "key r \<in> key ` set xs")
  case True
  have "find (\<lambda>x. key x = key r) (map (\<lambda>x. if key x = key r then r else x) xs) = Some r"
    if "key r \<in> key ` set xs" for xs
    using that by (induction xs) auto
  with True show ?thesis by (simp add: save_row_def)
next
  case False
  then have none: "\<forall>x\<in>set xs. key x \<noteq> key r" by (auto simp: image_iff)
  have "find (\<lambda>x. key x = key r) (xs @ [r]) = Some r" if "\<forall>x\<in>set xs. key x \<noteq> key r" for xs
    using that by (induction xs) auto
  with none False show ?thesis by (simp add: save_row_def)
qed

lemma keys_save_row: "key ` set xs \<subseteq> key ` set (save_row key r xs)"
  by (auto simp: save_row_def image_iff)

lemma save_row_key_rows: "c \<in> set (save_row key r xs) \<Longrightarrow> key c = key r \<Longrightarrow> c = r"
  by (auto simp: save_row_def image_iff split: if_splits)

lemma distinct_const_list:
  assumes "distinct xs" and "\<forall>x\<in>set xs. x = r" and "r \<in> set xs"
  shows "xs = [r]"
proof (cases xs)
  case (Cons a as)
  with assms have a: "a = r" and nr: "r \<notin> set as" and all: "\<forall>x\<in>set as. x = r" by auto
  have "as = []"
  proof (cases as)
    case (Cons b bs)
    with all nr show ?thesis by simp
  qed simp
  with Cons a show ?thesis by simp
qed (use assms in simp)

lemma filter_key_save_row:
  assumes "distinct (map key xs)"
  shows "filter (\<lambda>x. key x = key r) (save_row key r xs) = [r]"
proof (rule distinct_const_list)
  let ?ys = "save_row key r xs"
  have "distinct (map key ?ys)" by (rule distinct_save_row_any [OF assms])
  then show "distinct (filter (\<lambda>x. key x = key r) ?ys)" by (simp add: distinct_map)
  show "\<forall>x\<in>set (filter (\<lambda>x. key x = key r) ?ys). x = r"
    using save_row_key_rows [of _ key r xs] by simp
  obtain i where "i < length ?ys" "?ys ! i = r"
    using find_save_row [of key r xs] by (auto simp: find_Some_iff)
  then have "r \<in> set ?ys" by (metis nth_mem)
  then show "r \<in> set (filter (\<lambda>x. key x = key r) ?ys)" by simp
qed

lemma save_row_map:
  "key r \<in> key ` set xs \<Longrightarrow> save_row key r xs = map (\<lambda>x. if key x = key r then r else x) xs"
  by (simp add: save_row_def)

lemma py_nth_nonneg:
  "0 \<le> i \<Longrightarrow> py_nth xs i = (if nat i < length xs then Inr (xs ! nat i) else Inl IndexError)"
  by (auto simp: py_nth_def Let_def)

lemma py_nth_neg:
  "i < 0 \<Longrightarrow> py_nth xs i =
     (if nat (- i) \<le> length xs then Inr (xs ! (length xs - nat (- i))) else Inl IndexError)"
proof -
  assume neg: "i < 0"
  have "nat (i + int (length xs)) = length xs - nat (- i)" if "0 \<le> i + int (length xs)"
    using neg that by linarith
  with neg show ?thesis by (auto simp: py_nth_def Let_def)
qed

lemma py_split_nonempty [simp]: "py_split c s \<noteq> []"
  by (induction s) (auto split: list.splits)

lemma length_py_split: "length (py_split c s) = count_list s c + 1"
  by (induction s) (auto split: list.splits)

lemma py_join_cons: "ws \<noteq> [] \<Longrightarrow> py_join c (w # ws) = w @ c # py_join c ws"
  by (cases ws) simp_all

lemma py_join_split: "py_join c (py_split c s) = s"
proof (induction s)
  case (Cons x xs)
  show ?case
  proof (cases "x = c")
    case True
    with Cons show ?thesis by (simp add: py_join_cons)
  next
    case False
    then obtain w ws where sp: "py_split c xs = w # ws"
      by (cases "py_split c xs") simp_all
    with Cons have "py_join c (w # ws) = xs" by simp
    with False sp show ?thesis by (cases ws) simp_all
  qed
qed simp

lemma py_split_append_sep:
  "c \<notin> set w \<Longrightarrow> py_split c (w @ c # s) = w # py_split c s"
  by (induction w) auto

lemma py_split_no_sep: "c \<notin> set w \<Longrightarrow> py_split c w = [w]"
  by (induction w) auto

lemma py_split_join:
  "ws \<noteq> [] \<Longrightarrow> \<forall>w\<in>set ws. c \<notin> set w \<Longrightarrow> py_split c (py_join c ws) = ws"
proof (induction ws rule: py_join.induct)
  case (3 w v vs)
  then show ?case by (simp add: py_split_append_sep)
qed (simp_all add: py_split_no_sep)

subsection \<open>\<open>int\<close> reads back \<open>str\<close>\<close>

declare nat_digits.simps [simp del]

lemma of_char_digit: "k < 10 \<Longrightarrow> (of_char (char_of (48 + k) :: char) :: nat) = 48 + k"
  by (simp add: of_char_of)

lemma is_digit_char_of: "k < 10 \<Longrightarrow> is_digit (char_of (48 + k :: nat))"
  by (simp add: is_digit_def of_char_digit)

lemma digits_value_snoc: "digits_value (xs @ [c]) = 10 * digits_value xs + (int (of_char c) - 48)"
  by (simp add: digits_value_def)

lemma nat_digits_props:
  "nat_digits n \<noteq> [] \<and> list_all is_digit (nat_digits n) \<and> digits_value (nat_digits n) = int n"
proof (induction n rule: nat_digits.induct)
  case (1 n)
  show ?case
  proof (cases "n < 10")
    case True
    then show ?thesis
      by (simp add: nat_digits.simps is_digit_char_of digits_value_def of_char_digit)
  next
    case False
    have "10 * int (n div 10) + int (n mod 10) = int n"
      by (metis div_mult_mod_eq mult.commute of_nat_add of_nat_mult of_nat_numeral)
    with False 1 show ?thesis
      by (simp add: nat_digits.simps [of n] is_digit_char_of digits_value_snoc of_char_digit)
  qed
qed

lemma is_digit_not_sign: "is_digit c \<Longrightarrow> \<not> is_py_space c \<and> c \<noteq> CHR ''-'' \<and> c \<noteq> CHR ''+''"
  by (auto simp: is_digit_def is_py_space_def)

lemma py_strip_no_space: "list_all (\<lambda>c. \<not> is_py_space c) s \<Longrightarrow> py_strip s = s"
proof -
  assume a: "list_all (\<lambda>c. \<not> is_py_space c) s"
  then have "dropWhile is_py_space s = s" "dropWhile is_py_space (rev s) = rev s"
    by (simp_all add: dropWhile_eq_self_iff list_all_iff; cases s rule: rev_cases; auto)+
  then show ?thesis by (simp add: py_strip_def)
qed

lemma py_int_str: "py_int (py_str_int i) = Some i"
proof -
  let ?ds = "nat_digits (nat \<bar>i\<bar>)"
  have p: "?ds \<noteq> []" "list_all is_digit ?ds" "digits_value ?ds = int (nat \<bar>i\<bar>)"
    using nat_digits_props by blast+
  have ns: "list_all (\<lambda>c. \<not> is_py_space c) ?ds" "\<not> is_py_space CHR ''-''"
    using p(2) is_digit_not_sign by (auto simp: list_all_iff is_py_space_def)
  obtain c cs where c: "?ds = c # cs" using p(1) by (cases ?ds) auto
  have cd: "is_digit c" using p(2) c by simp
  show ?thesis
  proof (cases "i < 0")
    case True
    then have "py_strip (py_str_int i) = CHR ''-'' # ?ds"
      using ns by (simp add: py_str_int_def py_strip_no_space)
    with True p show ?thesis by (simp add: py_int_def unsigned_int_def)
  next
    case False
    then have "py_strip (py_str_int i) = ?ds"
      using ns by (simp add: py_str_int_def py_strip_no_space)
    with False p c cd is_digit_not_sign [OF cd] show ?thesis
      by (simp add: py_int_def unsigned_int_def)
  qed
qed

end
