(* ===== verification/Models.thy ===== *)
theory Models
  imports Prelude
begin

text \<open>
  The data layer of \<open>tunobase.core\<close> (\<open>src/tunobase/core/models.py\<close>): the
  publication state of \<open>StateModel\<close>, content rows, \<open>VersionSeries\<close> and
  \<open>Version\<close> rows, and the database as one record of tables. A content row
  stands for a row of any concrete \<open>StateModel\<close> subclass (\<open>ContentModel\<close>,
  \<open>ContentBlock\<close>, \<open>Gallery\<close>, the banners); it is identified, as the generic
  foreign key of \<open>Version\<close> identifies it, by its content type and primary key.
  Timestamps are \<open>nat\<close> seconds; \<open>publish_at\<close> is \<open>None\<close> for SQL
  \<open>NULL\<close>.  The section ends with the two database invariants: well-formedness
  (unique keys, foreign keys that resolve, fresh auto-increment counters) and the series
  invariant of the spec (at most one \<open>PUBLISHED\<close> and one \<open>STAGED\<close> version
  per series).
\<close>

text \<open>\<open>constants.STATE_CHOICES\<close> (the module is not part of the sources).\<close>

datatype state = STATE_PUBLISHED | STATE_UNPUBLISHED | STATE_STAGED | STATE_DELETED

record content =
  c_ctype :: nat
  c_pk :: nat
  c_state :: state
  publish_at :: "nat option"
  retract_at :: "nat option"
  c_sites :: "nat list"
  c_site_id :: "nat option"
  c_slug :: string

record vseries =
  vs_id :: nat
  vs_slug :: string

record version =
  v_id :: nat
  v_ctype :: nat
  object_id :: nat
  v_series :: nat
  number :: nat
  v_state :: state

record db =
  contents :: "content list"
  series_tbl :: "vseries list"
  versions :: "version list"
  next_series_id :: nat
  next_version_id :: nat

definition content_key :: "'a content_scheme \<Rightarrow> nat \<times> nat" where
  "content_key c = (c_ctype c, c_pk c)"

subsection \<open>\<open>StateModel.save\<close> and \<open>mark_deleted\<close>\<close>

text \<open>
  \<open>StateModel.save\<close> stamps \<open>publish_at\<close> with the current time when a published
  row has none, then writes the row.  The other mixins' \<open>save\<close> methods (slug,
  default image, leaf content type) write fields this model does not hold.
\<close>

definition state_save :: "nat \<Rightarrow> 'a content_scheme \<Rightarrow> 'a content_scheme" where
  "state_save now c =
     (if publish_at c = None \<and> c_state c = STATE_PUBLISHED then c\<lparr>publish_at := Some now\<rparr> else c)"

definition content_save :: "nat \<Rightarrow> content \<Rightarrow> (db, unit) exc" where
  "content_save now c =
     modify (\<lambda>d. d\<lparr>contents := save_row content_key (state_save now c) (contents d)\<rparr>)"

definition mark_deleted :: "nat \<Rightarrow> content \<Rightarrow> (db, unit) exc" where
  "mark_deleted now c = content_save now (c\<lparr>c_state := STATE_DELETED\<rparr>)"

definition version_save :: "version \<Rightarrow> (db, unit) exc" where
  "version_save v = modify (\<lambda>d. d\<lparr>versions := save_row v_id v (versions d)\<rparr>)"

text \<open>
  \<open>Version.content_object\<close>, a \<open>GenericForeignKey\<close>: the row of the version's
  content type with the version's \<open>object_id\<close>, or \<open>None\<close> when it does not
  exist (Django returns \<open>None\<close> then, and the next attribute access raises
  \<open>AttributeError\<close>).
\<close>

definition content_object :: "version \<Rightarrow> db \<Rightarrow> content option" where
  "content_object v d = find (\<lambda>c. content_key c = (v_ctype v, object_id v)) (contents d)"

definition get_content_object :: "version \<Rightarrow> (db, content) exc" where
  "get_content_object v =
     (\<lambda>d. case content_object v d of None \<Rightarrow> (Inl AttributeError, d) | Some c \<Rightarrow> (Inr c, d))"

subsection \<open>Invariants of the version tables\<close>

definition wf_db :: "db \<Rightarrow> bool" where
  "wf_db d \<longleftrightarrow>
     distinct (map v_id (versions d)) \<and> distinct (map vs_id (series_tbl d))
     \<and> distinct (map content_key (contents d))
     \<and> (\<forall>v\<in>set (versions d). v_series v \<in> set (map vs_id (series_tbl d)))
     \<and> (\<forall>v\<in>set (versions d). v_id v < next_version_id d)
     \<and> (\<forall>s\<in>set (series_tbl d). vs_id s < next_series_id d)"

text \<open>
  \<open>at_most_one st vs\<close>: no two distinct version rows of one series hold state
  \<open>st\<close>.  \<open>series_inv\<close> is the invariant of spec section 3.
\<close>

definition at_most_one :: "state \<Rightarrow> version list \<Rightarrow> bool" where
  "at_most_one st vs \<longleftrightarrow>
     (\<forall>a\<in>set vs. \<forall>b\<in>set vs.
        v_series a = v_series b \<and> v_state a = st \<and> v_state b = st \<longrightarrow> v_id a = v_id b)"

definition series_inv :: "db \<Rightarrow> bool" where
  "series_inv d \<longleftrightarrow>
     at_most_one STATE_PUBLISHED (versions d) \<and> at_most_one STATE_STAGED (versions d)"

definition count_in :: "state \<Rightarrow> nat \<Rightarrow> version list \<Rightarrow> nat" where
  "count_in st s vs = length (filter (\<lambda>v. v_series v = s \<and> v_state v = st) vs)"

subsection \<open>A sample database\<close>

text \<open>
  \<open>example_db st1\<close>: one series whose first version (object 10) is in state
  \<open>st1\<close> and whose second version (object 11) is unpublished, both content rows
  present (content type 7, site 1, \<open>publish_at\<close> 5, so both are due at time 9).
  The witnesses of the later theories run on it.
\<close>

definition example_content :: "nat \<Rightarrow> state \<Rightarrow> content" where
  "example_content pk st = \<lparr>c_ctype = 7, c_pk = pk, c_state = st, publish_at = Some 5,
                            retract_at = None, c_sites = [1], c_site_id = None,
                            c_slug = ''about''\<rparr>"

definition example_version :: "nat \<Rightarrow> nat \<Rightarrow> state \<Rightarrow> version" where
  "example_version i pk st = \<lparr>v_id = i, v_ctype = 7, object_id = pk, v_series = 1, number = i, v_state = st\<rparr>"

definition example_db :: "state \<Rightarrow> db" where
  "example_db st1 =
     \<lparr>contents = [example_content 10 st1, example_content 11 STATE_UNPUBLISHED],
      series_tbl = [\<lparr>vs_id = 1, vs_slug = ''a''\<rparr>],
      versions = [example_version 1 10 st1, example_version 2 11 STATE_UNPUBLISHED],
      next_series_id = 2, next_version_id = 3\<rparr>"

subsection \<open>Lemmas on saving rows\<close>

lemma state_save_key [simp]: "content_key (state_save now c) = content_key c"
  by (simp add: state_save_def content_key_def)

lemma state_save_state [simp]: "c_state (state_save now c) = c_state c"
  by (simp add: state_save_def)

lemma state_save_publish_at:
  "publish_at (state_save now c) =
     (if publish_at c = None \<and> c_state c = STATE_PUBLISHED then Some now else publish_at c)"
  by (simp add: state_save_def)

lemma content_save_versions [simp]:
  "versions (snd (content_save now c d)) = versions d"
  "series_tbl (snd (content_save now c d)) = series_tbl d"
  "fst (content_save now c d) = Inr ()"
  by (simp_all add: content_save_def exc_simps)

lemma version_save_run [simp]:
  "version_save v d = (Inr (), d\<lparr>versions := save_row v_id v (versions d)\<rparr>)"
  by (simp add: version_save_def exc_simps)

lemma get_content_object_run [simp]:
  "get_content_object v d =
     (case content_object v d of None \<Rightarrow> (Inl AttributeError, d) | Some c \<Rightarrow> (Inr c, d))"
  by (simp add: get_content_object_def)

lemma content_object_Some:
  "content_object v d = Some c \<Longrightarrow> c \<in> set (contents d) \<and> content_key c = (v_ctype v, object_id v)"
  by (auto simp: content_object_def find_Some_iff)

text \<open>
  With unique version ids, \<open>at_most_one\<close> is the spec's count: no series holds the
  state more than once.
\<close>

lemma at_most_one_count:
  assumes "distinct (map v_id vs)"
  shows "at_most_one st vs \<longleftrightarrow> (\<forall>s. count_in st s vs \<le> 1)"
proof -
  from assms have dvs: "distinct vs" by (simp add: distinct_map)
  have "count_in st s vs = card {v \<in> set vs. v_series v = s \<and> v_state v = st}" for s
    using dvs by (simp add: count_in_def distinct_card [symmetric] distinct_filter)
  then have cnt: "count_in st s vs \<le> 1 \<longleftrightarrow>
      (\<forall>a\<in>set vs. \<forall>b\<in>set vs. v_series a = s \<and> v_state a = st \<and> v_series b = s \<and> v_state b = st \<longrightarrow> a = b)"
    for s by (auto simp: card_le_Suc0_iff_eq)
  have "a = b \<longleftrightarrow> v_id a = v_id b" if "a \<in> set vs" "b \<in> set vs" for a b
    using distinct_map_eq [OF assms that] by blast
  then show ?thesis
    unfolding at_most_one_def cnt by (metis (no_types, lifting))
qed

text \<open>
  Saving a version row with a new state keeps \<open>at_most_one st\<close> when the new state
  is not \<open>st\<close>, or when no other row of the row's series holds \<open>st\<close>.
\<close>

lemma at_most_one_save_row:
  assumes ids: "distinct (map v_id vs)" and x: "x \<in> set vs" and key: "v_id r = v_id x"
    and inv: "at_most_one st vs"
    and new: "v_state r = st \<Longrightarrow> \<forall>w\<in>set vs. w \<noteq> x \<longrightarrow> v_series w = v_series r \<longrightarrow> v_state w \<noteq> st"
  shows "at_most_one st (save_row v_id r vs)"
proof -
  have set_eq: "set (save_row v_id r vs) = insert r (set vs - {x})"
    using set_save_row [OF ids x key] .
  show ?thesis
    unfolding at_most_one_def set_eq
  proof (intro ballI impI)
    fix a b
    assume a: "a \<in> insert r (set vs - {x})" and b: "b \<in> insert r (set vs - {x})"
      and h: "v_series a = v_series b \<and> v_state a = st \<and> v_state b = st"
    have other: "v_state w \<noteq> st" if "w \<in> set vs - {x}" "v_series w = v_series r" "v_state r = st" for w
      using new that by blast
    show "v_id a = v_id b"
    proof (cases "a = r")
      case True
      show ?thesis
      proof (cases "b = r")
        case False
        with b have "b \<in> set vs - {x}" by blast
        with other h True show ?thesis by auto
      qed (simp add: True)
    next
      case False
      with a have a': "a \<in> set vs - {x}" by blast
      show ?thesis
      proof (cases "b = r")
        case True
        with other a' h show ?thesis by auto
      next
        case False
        with b have "b \<in> set vs" by blast
        with a' h inv show ?thesis unfolding at_most_one_def by blast
      qed
    qed
  qed
qed

lemma wf_db_save_version:
  "wf_db d \<Longrightarrow> x \<in> set (versions d) \<Longrightarrow> v_id r = v_id x \<Longrightarrow> v_series r = v_series x \<Longrightarrow>
   wf_db (d\<lparr>versions := save_row v_id r (versions d)\<rparr>)"
proof -
  assume w: "wf_db d" and x: "x \<in> set (versions d)" and k: "v_id r = v_id x"
    and s: "v_series r = v_series x"
  let ?vs = "save_row v_id r (versions d)"
  have ids: "distinct (map v_id (versions d))" using w by (simp add: wf_db_def)
  have kin: "v_id r \<in> v_id ` set (versions d)" using x k by auto
  have m: "map v_id ?vs = map v_id (versions d)" by (rule map_key_save_row [OF kin])
  have st: "set ?vs = insert r (set (versions d) - {x})" by (rule set_save_row [OF ids x k])
  show ?thesis
    using w x k s by (simp add: wf_db_def m st)
qed

end
