(* ===== verification/Query.thy ===== *)
theory Query
  imports Models
begin

text \<open>
  The query layer (\<open>src/tunobase/core/query.py\<close>): which content rows a visitor
  sees.  \<open>model_objects ct\<close> is the manager's base queryset (\<open>self\<close>), the rows of
  the model whose content type is \<open>ct\<close>.  \<open>permitted\<close> keeps the rows whose version
  is in the deployment's site state; \<open>get_list\<close> resolves each series to one version
  in three tiers (published, else staged, else the first unpublished row of the series
  in table order).  Querysets are lists in table order; the \<open>Meta.ordering\<close> sort the
  ORM applies on top is not modelled, and the theorems speak of membership only.
\<close>

definition model_objects :: "nat \<Rightarrow> db \<Rightarrow> content list" where
  "model_objects ct d = filter (\<lambda>c. c_ctype c = ct) (contents d)"

text \<open>
  \<open>CoreQuerySet.for_current_site\<close>: the filter is \<open>sites__id__exact\<close> when the
  model has a \<open>sites\<close> many-to-many field, else \<open>site_id\<close>.
\<close>

definition for_current_site :: "bool \<Rightarrow> nat \<Rightarrow> content list \<Rightarrow> content list" where
  "for_current_site has_sites site cs =
     filter (\<lambda>c. if has_sites then site \<in> set (c_sites c) else c_site_id c = Some site) cs"

text \<open>\<open>CoreStateQuerySet.SITE_STATE\<close>, fixed by \<open>settings.STAGING\<close>.\<close>

definition site_state :: "bool \<Rightarrow> state" where
  "site_state staging = (if staging then STATE_STAGED else STATE_PUBLISHED)"

definition permitted :: "bool \<Rightarrow> nat \<Rightarrow> db \<Rightarrow> content list" where
  "permitted staging ct d =
     (let model_pks = map object_id
            (filter (\<lambda>v. v_ctype v = ct \<and> v_state v = site_state staging) (versions d))
      in filter (\<lambda>c. c_pk c \<in> set model_pks \<and> c_state c \<noteq> STATE_DELETED) (model_objects ct d))"

definition get_console_queryset :: "nat \<Rightarrow> db \<Rightarrow> content list" where
  "get_console_queryset ct d =
     (let model_pks = map object_id (filter (\<lambda>v. v_ctype v = ct) (versions d))
      in filter (\<lambda>c. c_pk c \<in> set model_pks \<and> c_state c \<noteq> STATE_DELETED) (model_objects ct d))"

text \<open>
  The loop of \<open>get_list\<close> over the bottom tier: \<open>series_ids\<close> records the series
  already taken; the first row of each new series is taken.  The model collects the
  version rows; the code collects their \<open>object_id\<close>, which \<open>get_list\<close> reads off.
\<close>

fun bottom_loop :: "nat list \<Rightarrow> version list \<Rightarrow> version list \<Rightarrow> version list" where
  "bottom_loop series_ids acc [] = acc"
| "bottom_loop series_ids acc (v # vs) =
     (if v_series v \<notin> set series_ids
      then bottom_loop (series_ids @ [v_series v]) (acc @ [v]) vs
      else bottom_loop series_ids acc vs)"

text \<open>The three tiers of \<open>get_list\<close>: \<open>STATE\<close>, \<open>NEXT_STATE\<close>, \<open>BOTTOM_STATE\<close>.\<close>

definition get_list_tiers :: "nat \<Rightarrow> version list \<Rightarrow> version list \<times> version list \<times> version list" where
  "get_list_tiers ct vs =
     (let model_qs = filter (\<lambda>v. v_ctype v = ct \<and> v_state v = STATE_PUBLISHED) vs;
          model_series = map v_series model_qs;
          next_model_qs = filter (\<lambda>v. v_ctype v = ct \<and> v_state v = STATE_STAGED
                                     \<and> v_series v \<notin> set model_series) vs;
          next_model_series = map v_series next_model_qs;
          bottom_model_qs = filter (\<lambda>v. v_ctype v = ct \<and> v_state v = STATE_UNPUBLISHED
                                     \<and> v_series v \<notin> set (model_series @ next_model_series)) vs
      in (model_qs, next_model_qs, bottom_loop [] [] bottom_model_qs))"

definition get_list_versions :: "nat \<Rightarrow> version list \<Rightarrow> version list" where
  "get_list_versions ct vs = (case get_list_tiers ct vs of (m, n, b) \<Rightarrow> m @ n @ b)"

definition get_list :: "nat \<Rightarrow> db \<Rightarrow> content list" where
  "get_list ct d =
     (let pks = map object_id (get_list_versions ct (versions d))
      in filter (\<lambda>c. c_pk c \<in> set pks \<and> c_state c \<noteq> STATE_DELETED) (model_objects ct d))"

subsection \<open>The bottom-tier loop\<close>

lemma bottom_loop_subset: "set (bottom_loop ids acc vs) \<subseteq> set acc \<union> set vs"
  by (induction ids acc vs rule: bottom_loop.induct) auto

lemma bottom_loop_acc: "set acc \<subseteq> set (bottom_loop ids acc vs)"
  by (induction ids acc vs rule: bottom_loop.induct) auto

lemma bottom_loop_distinct:
  "distinct (map v_series acc) \<Longrightarrow> v_series ` set acc \<subseteq> set ids \<Longrightarrow>
   distinct (map v_series (bottom_loop ids acc vs))"
proof (induction ids acc vs rule: bottom_loop.induct)
  case (1 ids acc)
  then show ?case by simp
next
  case (2 ids acc v vs)
  show ?case
  proof (cases "v_series v \<in> set ids")
    case True
    with "2.IH"(2) "2.prems" show ?thesis by simp
  next
    case False
    with "2.prems" have "distinct (map v_series (acc @ [v]))" "v_series ` set (acc @ [v]) \<subseteq> set (ids @ [v_series v])"
      by auto
    with "2.IH"(1) False show ?thesis by simp
  qed
qed

lemma bottom_loop_covers:
  "v \<in> set vs \<Longrightarrow> v_series v \<in> set ids \<or> (\<exists>w\<in>set (bottom_loop ids acc vs). v_series w = v_series v)"
proof (induction ids acc vs rule: bottom_loop.induct)
  case (1 ids acc)
  then show ?case by simp
next
  case (2 ids acc u vs)
  show ?case
  proof (cases "v_series u \<in> set ids")
    case True
    with "2.IH"(2) "2.prems" show ?thesis by auto
  next
    case False
    have u_in: "u \<in> set (bottom_loop (ids @ [v_series u]) (acc @ [u]) vs)"
      using bottom_loop_acc by force
    show ?thesis
    proof (cases "v = u")
      case True
      with u_in False show ?thesis by auto
    next
      case False
      with "2.prems" have "v \<in> set vs" by simp
      with "2.IH"(1) \<open>v_series u \<notin> set ids\<close> u_in show ?thesis by auto
    qed
  qed
qed

subsection \<open>The tiers of \<open>get_list\<close>\<close>

lemma distinct_series_filter:
  assumes "distinct (map v_id vs)" and "at_most_one st vs" and "\<And>v. Q v \<Longrightarrow> v_state v = st"
  shows "distinct (map v_series (filter Q vs))"
proof -
  have dvs: "distinct vs" using assms(1) by (simp add: distinct_map)
  have "inj_on v_series (set (filter Q vs))"
    using assms unfolding at_most_one_def by (auto intro!: inj_onI dest: distinct_map_eq)
  with dvs show ?thesis by (simp add: distinct_map)
qed

lemma mem_get_list_versions:
  "w \<in> set (get_list_versions ct vs) \<longleftrightarrow>
     (w \<in> set vs \<and> v_ctype w = ct \<and> v_state w = STATE_PUBLISHED)
   \<or> (w \<in> set vs \<and> v_ctype w = ct \<and> v_state w = STATE_STAGED
        \<and> (\<forall>u\<in>set vs. v_ctype u = ct \<and> v_state u = STATE_PUBLISHED \<longrightarrow> v_series u \<noteq> v_series w))
   \<or> w \<in> set (bottom_loop [] []
          (filter (\<lambda>v. v_ctype v = ct \<and> v_state v = STATE_UNPUBLISHED
             \<and> (\<forall>u\<in>set vs. v_ctype u = ct \<and> (v_state u = STATE_PUBLISHED \<or> v_state u = STATE_STAGED)
                  \<longrightarrow> v_series u \<noteq> v_series v)) vs))"
proof -
  have eq: "(\<lambda>v. v_ctype v = ct \<and> v_state v = STATE_UNPUBLISHED
          \<and> v_series v \<notin> set (map v_series (filter (\<lambda>v. v_ctype v = ct \<and> v_state v = STATE_PUBLISHED) vs)
             @ map v_series (filter (\<lambda>v. v_ctype v = ct \<and> v_state v = STATE_STAGED \<and>
                 v_series v \<notin> set (map v_series (filter (\<lambda>v. v_ctype v = ct \<and> v_state v = STATE_PUBLISHED) vs))) vs)))
      = (\<lambda>v. v_ctype v = ct \<and> v_state v = STATE_UNPUBLISHED
             \<and> (\<forall>u\<in>set vs. v_ctype u = ct \<and> (v_state u = STATE_PUBLISHED \<or> v_state u = STATE_STAGED)
                  \<longrightarrow> v_series u \<noteq> v_series v))"
    by (rule ext) (fastforce simp: image_iff)
  show ?thesis
    unfolding get_list_versions_def get_list_tiers_def Let_def eq
    by (auto simp: image_iff)
qed

lemma get_list_versions_subset:
  "w \<in> set (get_list_versions ct vs) \<Longrightarrow>
     w \<in> set vs \<and> v_ctype w = ct \<and> v_state w \<noteq> STATE_DELETED"
  unfolding mem_get_list_versions using bottom_loop_subset by fastforce

lemma mem_get_list:
  "c \<in> set (get_list ct d) \<longleftrightarrow>
     c \<in> set (contents d) \<and> c_ctype c = ct \<and> c_state c \<noteq> STATE_DELETED
     \<and> (\<exists>w\<in>set (get_list_versions ct (versions d)). object_id w = c_pk c)"
  by (auto simp: get_list_def model_objects_def intro: rev_image_eqI)

subsection \<open>What \<open>get_list\<close> returns\<close>

text \<open>
  C6. With unique version ids and the series invariant, \<open>get_list\<close> takes at most one
  version per series: the three tiers are each one per series and exclude each other's
  series.
\<close>

theorem get_list_one_per_series:
  assumes "distinct (map v_id (versions d))" and "series_inv d"
  shows "distinct (map v_series (get_list_versions ct (versions d)))"
proof -
  let ?vs = "versions d"
  let ?m = "filter (\<lambda>v. v_ctype v = ct \<and> v_state v = STATE_PUBLISHED) ?vs"
  let ?n = "filter (\<lambda>v. v_ctype v = ct \<and> v_state v = STATE_STAGED \<and> v_series v \<notin> set (map v_series ?m)) ?vs"
  let ?q = "filter (\<lambda>v. v_ctype v = ct \<and> v_state v = STATE_UNPUBLISHED
              \<and> v_series v \<notin> set (map v_series ?m @ map v_series ?n)) ?vs"
  have m: "distinct (map v_series ?m)" and n: "distinct (map v_series ?n)"
    using assms by (auto simp: series_inv_def intro: distinct_series_filter)
  have b: "distinct (map v_series (bottom_loop [] [] ?q))"
    by (rule bottom_loop_distinct) simp_all
  have bq: "set (bottom_loop [] [] ?q) \<subseteq> set ?q"
    using bottom_loop_subset by fastforce
  have "set (map v_series ?m) \<inter> set (map v_series ?n) = {}" by (auto simp: image_iff)
  moreover have "set (map v_series (?m @ ?n)) \<inter> set (map v_series (bottom_loop [] [] ?q)) = {}"
    using bq by fastforce
  moreover have "get_list_versions ct ?vs = ?m @ ?n @ bottom_loop [] [] ?q"
    by (simp add: get_list_versions_def get_list_tiers_def Let_def)
  ultimately show ?thesis
    using m n b by (simp only: map_append distinct_append set_append Int_Un_distrib2) blast
qed

theorem get_list_one_per_series_witness:
  "distinct (map v_id (versions (example_db STATE_STAGED)))
   \<and> series_inv (example_db STATE_STAGED)
   \<and> distinct (map v_series (get_list_versions 7 (versions (example_db STATE_STAGED))))"
proof -
  have h1: "distinct (map v_id (versions (example_db STATE_STAGED)))"
    by (simp add: example_db_def example_content_def example_version_def)
  have h2: "series_inv (example_db STATE_STAGED)"
    by (simp add: example_db_def example_content_def example_version_def series_inv_def at_most_one_def)
  from get_list_one_per_series [OF h1 h2, of 7] h1 h2 show ?thesis by simp
qed

text \<open>
  C7. Every row \<open>get_list\<close> returns is a content row of the model that is not
  \<open>DELETED\<close> and that has a version which is not \<open>DELETED\<close>.
\<close>

theorem get_list_excludes_deleted:
  assumes "c \<in> set (get_list ct d)"
  shows "c_state c \<noteq> STATE_DELETED
         \<and> (\<exists>w\<in>set (versions d). v_ctype w = ct \<and> object_id w = c_pk c \<and> v_state w \<noteq> STATE_DELETED)"
  using assms get_list_versions_subset unfolding mem_get_list by blast

theorem get_list_excludes_deleted_witness:
  "example_content 10 STATE_STAGED \<in> set (get_list 7 (example_db STATE_STAGED))
   \<and> c_state (example_content 10 STATE_STAGED) \<noteq> STATE_DELETED
   \<and> (\<exists>w\<in>set (versions (example_db STATE_STAGED)). v_ctype w = 7
        \<and> object_id w = c_pk (example_content 10 STATE_STAGED) \<and> v_state w \<noteq> STATE_DELETED)"
proof -
  have h: "example_content 10 STATE_STAGED \<in> set (get_list 7 (example_db STATE_STAGED))"
    by (simp add: get_list_def get_list_versions_def get_list_tiers_def model_objects_def example_db_def example_content_def example_version_def)
  from get_list_excludes_deleted [OF h] h show ?thesis by simp
qed

text \<open>An unpublished version whose series has no published or staged version of
  the model is represented through the unpublished tier.\<close>

lemma get_list_covers_unpublished:
  assumes v: "v \<in> set vs" "v_ctype v = ct" and unp: "v_state v = STATE_UNPUBLISHED"
    and none: "\<forall>u\<in>set vs. v_ctype u = ct \<and> (v_state u = STATE_PUBLISHED \<or> v_state u = STATE_STAGED)
                  \<longrightarrow> v_series u \<noteq> v_series v"
  shows "\<exists>w\<in>set (get_list_versions ct vs). v_series w = v_series v"
proof -
  let ?q = "filter (\<lambda>x. v_ctype x = ct \<and> v_state x = STATE_UNPUBLISHED
         \<and> (\<forall>u\<in>set vs. v_ctype u = ct \<and> (v_state u = STATE_PUBLISHED \<or> v_state u = STATE_STAGED)
              \<longrightarrow> v_series u \<noteq> v_series x)) vs"
  from v unp none have "v \<in> set ?q" by simp
  then obtain w where w: "w \<in> set (bottom_loop [] [] ?q)" "v_series w = v_series v"
    using bottom_loop_covers [of v ?q "[]" "[]"] by auto
  from w(1) have "w \<in> set (get_list_versions ct vs)"
    by (simp add: mem_get_list_versions)
  with w(2) show ?thesis by blast
qed

text \<open>Every series with a live version of the model is represented in \<open>get_list_versions\<close>.\<close>

lemma get_list_versions_covers_series:
  assumes v: "v \<in> set (versions d)" "v_ctype v = ct" "v_state v \<noteq> STATE_DELETED"
  shows "\<exists>w\<in>set (get_list_versions ct (versions d)). v_series w = v_series v"
proof -
  let ?vs = "versions d"
  let ?P = "\<lambda>u. u \<in> set ?vs \<and> v_ctype u = ct \<and> v_series u = v_series v"
  show ?thesis
  proof (cases "\<exists>u. ?P u \<and> v_state u = STATE_PUBLISHED")
    case True
    then obtain u where "?P u" "v_state u = STATE_PUBLISHED" by blast
    then have "u \<in> set (get_list_versions ct ?vs)"
      by (simp add: mem_get_list_versions)
    with \<open>?P u\<close> show ?thesis by blast
  next
    case nopub: False
    show ?thesis
    proof (cases "\<exists>u. ?P u \<and> v_state u = STATE_STAGED")
      case True
      then obtain u where u: "?P u" "v_state u = STATE_STAGED" by blast
      have "\<forall>x\<in>set ?vs. v_ctype x = ct \<and> v_state x = STATE_PUBLISHED \<longrightarrow> v_series x \<noteq> v_series u"
        using nopub u(1) by auto
      with u have "u \<in> set (get_list_versions ct ?vs)"
        by (simp add: mem_get_list_versions)
      with u(1) show ?thesis by blast
    next
      case nostg: False
      have unp: "v_state v = STATE_UNPUBLISHED"
      proof (cases "v_state v")
        case STATE_PUBLISHED with nopub v show ?thesis by blast
      next
        case STATE_STAGED with nostg v show ?thesis by blast
      next
        case STATE_DELETED with v show ?thesis by blast
      qed simp
      have "\<forall>u\<in>set ?vs. v_ctype u = ct \<and> (v_state u = STATE_PUBLISHED \<or> v_state u = STATE_STAGED)
                  \<longrightarrow> v_series u \<noteq> v_series v"
        using nopub nostg by auto
      with v(1,2) unp show ?thesis by (rule get_list_covers_unpublished)
    qed
  qed
qed

text \<open>
  C8. Every series that has a version of the model in a state other than
  \<open>DELETED\<close> is represented in the result of \<open>get_list\<close> by the content row of one
  of its versions, provided every live version of the series has a content row that is
  not \<open>DELETED\<close>.  The proviso is needed: \<open>mark_deleted\<close> sets the row's state
  without touching its version, and a published version whose row is deleted hides its
  whole series, the unpublished siblings included.
\<close>

theorem get_list_covers_series:
  assumes v: "v \<in> set (versions d)" "v_ctype v = ct" "v_state v \<noteq> STATE_DELETED"
    and live: "\<forall>w\<in>set (versions d). v_ctype w = ct \<and> v_series w = v_series v \<and> v_state w \<noteq> STATE_DELETED \<longrightarrow>
                 (\<exists>c\<in>set (contents d). content_key c = (ct, object_id w) \<and> c_state c \<noteq> STATE_DELETED)"
  shows "\<exists>c\<in>set (get_list ct d). \<exists>w\<in>set (versions d). v_series w = v_series v \<and> content_key c = (ct, object_id w)"
proof -
  obtain w where w: "w \<in> set (get_list_versions ct (versions d))" "v_series w = v_series v"
    using get_list_versions_covers_series [OF v] by blast
  note ws = get_list_versions_subset [OF w(1)]
  obtain c where c: "c \<in> set (contents d)" "content_key c = (ct, object_id w)" "c_state c \<noteq> STATE_DELETED"
    using live ws w(2) by blast
  have "c \<in> set (get_list ct d)"
    using c w(1) unfolding mem_get_list by (auto simp: content_key_def)
  then show ?thesis using ws w(2) c(2) by blast
qed

theorem get_list_covers_series_witness:
  "example_version 2 11 STATE_UNPUBLISHED \<in> set (versions (example_db STATE_STAGED))
   \<and> (\<exists>c\<in>set (get_list 7 (example_db STATE_STAGED)). \<exists>w\<in>set (versions (example_db STATE_STAGED)).
        v_series w = v_series (example_version 2 11 STATE_UNPUBLISHED) \<and> content_key c = (7, object_id w))"
proof -
  have h: "example_version 2 11 STATE_UNPUBLISHED \<in> set (versions (example_db STATE_STAGED))"
    by (simp add: example_db_def)
  have "v_ctype (example_version 2 11 STATE_UNPUBLISHED) = 7"
    "v_state (example_version 2 11 STATE_UNPUBLISHED) \<noteq> STATE_DELETED"
    by (simp_all add: example_version_def)
  moreover have "\<forall>w\<in>set (versions (example_db STATE_STAGED)).
      v_ctype w = 7 \<and> v_series w = v_series (example_version 2 11 STATE_UNPUBLISHED) \<and> v_state w \<noteq> STATE_DELETED \<longrightarrow>
      (\<exists>c\<in>set (contents (example_db STATE_STAGED)). content_key c = (7, object_id w) \<and> c_state c \<noteq> STATE_DELETED)"
    by (simp add: example_db_def example_version_def example_content_def content_key_def)
  ultimately show ?thesis using get_list_covers_series [OF h] h by blast
qed

text \<open>
  The proviso of C9 at work: in \<open>example_db\<close> with a published first version whose
  content row was marked deleted, the series has a live unpublished sibling, yet
  \<open>get_list\<close> returns nothing.
\<close>

lemma get_list_mark_deleted_hides_series:
  "get_list 7 ((example_db STATE_PUBLISHED)\<lparr>contents := [example_content 10 STATE_DELETED,
                                               example_content 11 STATE_UNPUBLISHED]\<rparr>) = []"
  by (simp add: get_list_def get_list_versions_def get_list_tiers_def model_objects_def
      example_db_def example_content_def example_version_def)

text \<open>
  C9. Priority of the tiers: where a series has a published version of the model,
  the version \<open>get_list\<close> takes for it is a published one; where it has a staged
  one, the version taken is not an unpublished one.
\<close>

theorem get_list_priority:
  assumes w: "w \<in> set (get_list_versions ct (versions d))"
    and u: "u \<in> set (versions d)" "v_ctype u = ct" "v_series u = v_series w"
  shows "(v_state u = STATE_PUBLISHED \<longrightarrow> v_state w = STATE_PUBLISHED)
       \<and> (v_state u = STATE_STAGED \<longrightarrow> v_state w \<noteq> STATE_UNPUBLISHED)"
proof -
  let ?vs = "versions d"
  let ?q = "filter (\<lambda>x. v_ctype x = ct \<and> v_state x = STATE_UNPUBLISHED
             \<and> (\<forall>u\<in>set ?vs. v_ctype u = ct \<and> (v_state u = STATE_PUBLISHED \<or> v_state u = STATE_STAGED)
                  \<longrightarrow> v_series u \<noteq> v_series x)) ?vs"
  have "w \<notin> set (bottom_loop [] [] ?q)" if "v_state u = STATE_PUBLISHED \<or> v_state u = STATE_STAGED"
  proof
    assume "w \<in> set (bottom_loop [] [] ?q)"
    then have "w \<in> set ?q" using bottom_loop_subset by fastforce
    with u that show False by auto
  qed
  with w u show ?thesis unfolding mem_get_list_versions by auto
qed

theorem get_list_priority_witness:
  "example_version 1 10 STATE_STAGED \<in> set (get_list_versions 7 (versions (example_db STATE_STAGED)))
   \<and> v_state (example_version 1 10 STATE_STAGED) \<noteq> STATE_UNPUBLISHED"
proof -
  have w: "example_version 1 10 STATE_STAGED \<in> set (get_list_versions 7 (versions (example_db STATE_STAGED)))"
    by (simp add: get_list_versions_def get_list_tiers_def example_db_def example_content_def example_version_def)
  have u: "example_version 1 10 STATE_STAGED \<in> set (versions (example_db STATE_STAGED))"
    "v_ctype (example_version 1 10 STATE_STAGED) = 7"
    by (simp_all add: example_db_def example_version_def)
  from get_list_priority [OF w u refl] w show ?thesis by (simp add: example_version_def)
qed

subsection \<open>What \<open>permitted\<close> returns\<close>

text \<open>
  C10. \<open>permitted\<close> returns exactly the model's rows that are not \<open>DELETED\<close> and
  have a version in the site state: \<open>STAGED\<close> in a staging deployment, else
  \<open>PUBLISHED\<close>.
\<close>

theorem permitted_iff:
  "c \<in> set (permitted staging ct d) \<longleftrightarrow>
     c \<in> set (contents d) \<and> c_ctype c = ct \<and> c_state c \<noteq> STATE_DELETED
     \<and> (\<exists>v\<in>set (versions d). v_ctype v = ct \<and> object_id v = c_pk c
          \<and> v_state v = (if staging then STATE_STAGED else STATE_PUBLISHED))"
  by (auto simp: permitted_def model_objects_def site_state_def intro: rev_image_eqI)

lemma mem_for_current_site:
  "c \<in> set (for_current_site has_sites site cs) \<longleftrightarrow>
     c \<in> set cs \<and> (if has_sites then site \<in> set (c_sites c) else c_site_id c = Some site)"
  by (simp add: for_current_site_def)

end
