(* ===== verification/Managers.thy ===== *)
theory Managers
  imports Query
begin
text \<open>
  The version state machine (\<open>src/tunobase/core/managers.py\<close>): the operations of
  \<open>CoreStateManager\<close> that create versions and move them between states, and the
  scheduled \<open>VersionManager.publish_objects\<close>.  Each operation is a computation of
  the exception monad over the database: a Django \<open>get\<close> that finds no row or
  several raises, an attribute access on a missing content object raises
  \<open>AttributeError\<close>, and every row saved before the exception stays saved.
  \<open>ct\<close> is the content type of the manager's model (\<open>ContentType.objects.get_for_model\<close>),
  \<open>now\<close> the value of \<open>timezone.now()\<close>.
\<close>

definition model_version :: "nat \<Rightarrow> nat \<Rightarrow> version \<Rightarrow> bool" where
  "model_version ct oid v \<longleftrightarrow> v_ctype v = ct \<and> object_id v = oid"

definition in_series_state :: "nat \<Rightarrow> state \<Rightarrow> version \<Rightarrow> bool" where
  "in_series_state s st v \<longleftrightarrow> v_series v = s \<and> v_state v = st"

text \<open>\<open>Version.objects.get(...)\<close> and \<open>Version.objects.filter(...).exists()\<close>.\<close>

definition version_get :: "(version \<Rightarrow> bool) \<Rightarrow> (db, version) exc" where
  "version_get P = (\<lambda>d. (objects_get P (versions d), d))"

definition version_exists :: "(version \<Rightarrow> bool) \<Rightarrow> (db, bool) exc" where
  "version_exists P = gets (\<lambda>d. list_ex P (versions d))"

text \<open>
  \<open>get_series\<close>: the series of the one version of the object; any exception (no
  version, several, a dangling series key) is swallowed by the bare \<open>except\<close>.
\<close>

definition get_series :: "nat \<Rightarrow> nat \<Rightarrow> db \<Rightarrow> nat option" where
  "get_series ct oid d =
     (case objects_get (model_version ct oid) (versions d) of
        Inl _ \<Rightarrow> None
      | Inr v \<Rightarrow> if v_series v \<in> set (map vs_id (series_tbl d)) then Some (v_series v) else None)"

text \<open>
  The four statements that move one version and its content object to a state:
  \<open>version.state = st; version.save(); version.content_object.state = st;
  version.content_object.save()\<close>.  The content object is fetched once (the generic
  foreign key caches it); when it is missing the version row is already saved.
\<close>

definition set_version_state :: "state \<Rightarrow> nat \<Rightarrow> version \<Rightarrow> (db, unit) exc" where
  "set_version_state st now v =
     ebind (version_save (v\<lparr>v_state := st\<rparr>)) (\<lambda>_.
     ebind (get_content_object v) (\<lambda>c.
     content_save now (c\<lparr>c_state := st\<rparr>)))"

text \<open>
  The guarded block at the start of \<open>stage_version\<close> and \<open>publish_version\<close>: if
  a version of the series holds the state, fetch it with \<open>get\<close> and demote it.
\<close>

definition demote_holder :: "state \<Rightarrow> nat \<Rightarrow> nat \<Rightarrow> (db, unit) exc" where
  "demote_holder st s now =
     ebind (version_exists (in_series_state s st)) (\<lambda>ex.
       if ex then ebind (version_get (in_series_state s st)) (set_version_state STATE_UNPUBLISHED now)
       else ret ())"

text \<open>
  \<open>stage_version\<close> and \<open>publish_version\<close> have the same body, with
  \<open>STATE_STAGED\<close> and \<open>STATE_PUBLISHED\<close> respectively.
\<close>

definition promote_version :: "state \<Rightarrow> nat \<Rightarrow> nat \<Rightarrow> nat \<Rightarrow> (db, unit) exc" where
  "promote_version st ct now oid =
     ebind (gets (get_series ct oid)) (\<lambda>series.
     ebind (case series of None \<Rightarrow> ret () | Some s \<Rightarrow> demote_holder st s now) (\<lambda>_.
     ebind (version_get (model_version ct oid)) (set_version_state st now)))"

definition stage_version :: "nat \<Rightarrow> nat \<Rightarrow> nat \<Rightarrow> (db, unit) exc" where
  "stage_version ct now oid = promote_version STATE_STAGED ct now oid"

definition publish_version :: "nat \<Rightarrow> nat \<Rightarrow> nat \<Rightarrow> (db, unit) exc" where
  "publish_version ct now oid = promote_version STATE_PUBLISHED ct now oid"

text \<open>
  \<open>unpublish_version\<close> also assigns \<open>content_object.publish_date_time\<close>, an
  attribute that is not a field of any model: \<open>save()\<close> does not write it, so the
  assignment has no effect on the database and the model omits it.
\<close>

definition unpublish_version :: "nat \<Rightarrow> nat \<Rightarrow> nat \<Rightarrow> (db, unit) exc" where
  "unpublish_version ct now oid =
     ebind (version_get (model_version ct oid)) (set_version_state STATE_UNPUBLISHED now)"

definition delete_version :: "nat \<Rightarrow> nat \<Rightarrow> nat \<Rightarrow> (db, unit) exc" where
  "delete_version ct now oid =
     ebind (version_get (model_version ct oid)) (set_version_state STATE_DELETED now)"

subsection \<open>Creating series and versions\<close>

definition add_series :: "string \<Rightarrow> (db, nat) exc" where
  "add_series slug =
     (\<lambda>d. let i = next_series_id d in
        (Inr i, d\<lparr>series_tbl := series_tbl d @ [\<lparr>vs_id = i, vs_slug = slug\<rparr>],
                  next_series_id := Suc i\<rparr>))"

text \<open>\<open>Version.objects.create(...)\<close>: a new row with the next auto-increment id.\<close>

definition version_create :: "nat \<Rightarrow> nat \<Rightarrow> nat \<Rightarrow> nat \<Rightarrow> state \<Rightarrow> (db, unit) exc" where
  "version_create ct oid s n st =
     (\<lambda>d. let i = next_version_id d in
        (Inr (), d\<lparr>versions := versions d @
                     [\<lparr>v_id = i, v_ctype = ct, object_id = oid, v_series = s, number = n, v_state = st\<rparr>],
                   next_version_id := Suc i\<rparr>))"

text \<open>
  \<open>add_version\<close>: the slug of the new series is \<open>slugify(str(obj))\<close>, computed by
  Django from the object's text; the model takes it as the argument \<open>slug\<close>.
\<close>

definition add_version :: "nat \<Rightarrow> string \<Rightarrow> content \<Rightarrow> (db, unit) exc" where
  "add_version ct slug obj =
     ebind (add_series slug) (\<lambda>s. version_create ct (c_pk obj) s 1 (c_state obj))"

text \<open>
  The number computed by \<open>add_to_series\<close>: one more than the highest number of the
  series (\<open>order_by('-number')[0].number + 1\<close>), or 1 when the series is empty
  (the \<open>IndexError\<close> caught by the bare \<open>except\<close>).
\<close>

definition latest_version_number :: "nat \<Rightarrow> version list \<Rightarrow> nat" where
  "latest_version_number s vs =
     (case filter (\<lambda>v. v_series v = s) vs of
        [] \<Rightarrow> 1
      | ws \<Rightarrow> Max (set (map number ws)) + 1)"

definition add_to_series :: "nat \<Rightarrow> nat \<Rightarrow> content \<Rightarrow> (db, unit) exc" where
  "add_to_series ct s obj =
     ebind (gets (\<lambda>d. latest_version_number s (versions d))) (\<lambda>n.
       version_create ct (c_pk obj) s n STATE_UNPUBLISHED)"

text \<open>
  \<open>version_list\<close>: the versions of the object's series in a given state, or the
  empty list when the object has no series.  Building each row's \<open>change_url\<close> reads
  \<open>content_object._meta\<close>, which raises \<open>AttributeError\<close> for a missing object.
\<close>

definition version_list :: "nat \<Rightarrow> nat \<Rightarrow> state \<Rightarrow> db \<Rightarrow> py_error + version list" where
  "version_list ct oid st d =
     (case get_series ct oid d of
        None \<Rightarrow> Inr []
      | Some s \<Rightarrow>
          (let qs = filter (in_series_state s st) (versions d)
           in if list_all (\<lambda>v. content_object v d \<noteq> None) qs then Inr qs else Inl AttributeError))"

subsection \<open>Scheduled publication\<close>

text \<open>
  \<open>VersionManager.publish_objects\<close>, run by the periodic task \<open>tasks.publish_objects\<close>.
  The queryset of unpublished-or-other versions is read once when the loop starts; the
  check for a published sibling queries the table again at each iteration, but the
  version rows are only updated after the loop, by one \<open>UPDATE\<close>.  Comparing a
  \<open>NULL\<close> \<open>publish_at\<close> with a datetime raises \<open>TypeError\<close> in Python 2.
\<close>

fun po_loop :: "nat \<Rightarrow> version list \<Rightarrow> nat list \<Rightarrow> (db, nat list) exc" where
  "po_loop now [] acc = ret acc"
| "po_loop now (obj # qs) acc =
     ebind (version_exists (in_series_state (v_series obj) STATE_PUBLISHED)) (\<lambda>published_obj.
       if published_obj then po_loop now qs acc
       else ebind (get_content_object obj) (\<lambda>c.
         case publish_at c of
           None \<Rightarrow> raise TypeError
         | Some t \<Rightarrow>
             if t \<le> now
             then ebind (content_save now (c\<lparr>c_state := STATE_PUBLISHED\<rparr>)) (\<lambda>_.
                    po_loop now qs (acc @ [v_id obj]))
             else po_loop now qs acc))"

definition update_versions_state :: "nat list \<Rightarrow> state \<Rightarrow> (db, unit) exc" where
  "update_versions_state ids st =
     modify (\<lambda>d. d\<lparr>versions := map (\<lambda>v. if v_id v \<in> set ids then v\<lparr>v_state := st\<rparr> else v) (versions d)\<rparr>)"

definition publish_objects :: "nat \<Rightarrow> (db, unit) exc" where
  "publish_objects now =
     ebind (gets (\<lambda>d. filter (\<lambda>v. v_state v \<noteq> STATE_PUBLISHED) (versions d))) (\<lambda>queryset.
     ebind (po_loop now queryset []) (\<lambda>to_publish_ids.
     update_versions_state to_publish_ids STATE_PUBLISHED))"

text \<open>
  \<open>CoreStateManager.publish_objects\<close>: one \<open>UPDATE\<close> of the permitted rows whose
  \<open>publish_at\<close> has passed (SQL \<open>NULL\<close> never satisfies \<open>\<le>\<close>) and which are not
  published; \<open>update()\<close> bypasses \<open>save()\<close>, and version rows are not touched.
\<close>

definition core_publish_objects :: "bool \<Rightarrow> nat \<Rightarrow> nat \<Rightarrow> (db, unit) exc" where
  "core_publish_objects staging ct now =
     modify (\<lambda>d.
       let qs = filter (\<lambda>c. (case publish_at c of None \<Rightarrow> False | Some t \<Rightarrow> t \<le> now)
                            \<and> c_state c \<noteq> STATE_PUBLISHED) (permitted staging ct d)
       in d\<lparr>contents := map (\<lambda>c. if content_key c \<in> set (map content_key qs)
                                  then c\<lparr>c_state := STATE_PUBLISHED\<rparr> else c) (contents d)\<rparr>)"

text \<open>The two invariants of \<open>Models\<close> together.\<close>

definition db_inv :: "db \<Rightarrow> bool" where
  "db_inv d \<longleftrightarrow> wf_db d \<and> series_inv d"

subsection \<open>The version state machine\<close>

text \<open>
  The initial database holds no rows; the auto-increment counters start at 1.  One step
  is one call of a manager operation that the admin or the views make, with any
  arguments and whatever it returns or raises; \<open>add_to_series\<close> is given an existing
  series (its argument is a \<open>VersionSeries\<close> instance).  Saving any content row
  (an edit, \<open>mark_deleted\<close>) is a step too.  The scheduled
  \<open>VersionManager.publish_objects\<close> is not a step of this machine: it breaks the
  invariant (theorem \<open>publish_objects_breaks_series_inv\<close> of \<open>Scheduler\<close>).
\<close>

definition empty_db :: db where
  "empty_db = \<lparr>contents = [], series_tbl = [], versions = [], next_series_id = 1, next_version_id = 1\<rparr>"

inductive mgr_step :: "db \<Rightarrow> db \<Rightarrow> bool" where
  stage: "mgr_step d (snd (stage_version ct now oid d))"
| publish: "mgr_step d (snd (publish_version ct now oid d))"
| unpublish: "mgr_step d (snd (unpublish_version ct now oid d))"
| delete: "mgr_step d (snd (delete_version ct now oid d))"
| add_version: "mgr_step d (snd (add_version ct slug obj d))"
| add_to_series: "s \<in> set (map vs_id (series_tbl d)) \<Longrightarrow> mgr_step d (snd (add_to_series ct s obj d))"
| core_publish: "mgr_step d (snd (core_publish_objects staging ct now d))"
| save_content: "mgr_step d (snd (content_save now c d))"

inductive reachable :: "db \<Rightarrow> bool" where
  init: "reachable empty_db"
| step: "reachable d \<Longrightarrow> mgr_step d d' \<Longrightarrow> reachable d'"

text \<open>
  The transition of spec section 4.1 for \<open>stage_version\<close> and
  \<open>publish_version\<close>, on the version table: the target \<open>t\<close> takes the state
  \<open>st\<close>, and a version of its series that held \<open>st\<close> becomes \<open>UNPUBLISHED\<close>;
  nothing else changes.
\<close>

definition spec_promote :: "state \<Rightarrow> version \<Rightarrow> version list \<Rightarrow> version list" where
  "spec_promote st t vs =
     map (\<lambda>v. if v_id v = v_id t then v\<lparr>v_state := st\<rparr>
              else if v_series v = v_series t \<and> v_state v = st then v\<lparr>v_state := STATE_UNPUBLISHED\<rparr>
              else v) vs"

text \<open>
  A short run used by the witnesses: a content row of type 7 and its first version,
  then \<open>publish_version\<close> on it.
\<close>

definition example_obj :: content where
  "example_obj = \<lparr>c_ctype = 7, c_pk = 10, c_state = STATE_UNPUBLISHED, publish_at = None,
                  retract_at = None, c_sites = [1], c_site_id = None,
                  c_slug = ''about''\<rparr>"

definition example_run :: db where
  "example_run =
     snd (publish_version 7 5 10
       (snd (add_version 7 ''a'' example_obj (snd (content_save 3 example_obj empty_db)))))"

subsection \<open>How the primitives change the tables\<close>

lemma version_get_run [simp]: "version_get P d = (objects_get P (versions d), d)"
  by (simp add: version_get_def)

lemma version_exists_run [simp]: "version_exists P d = (Inr (list_ex P (versions d)), d)"
  by (simp add: version_exists_def exc_simps)

lemma set_version_state_tables:
  "versions (snd (set_version_state st now v d)) = save_row v_id (v\<lparr>v_state := st\<rparr>) (versions d)"
  "series_tbl (snd (set_version_state st now v d)) = series_tbl d"
  "next_series_id (snd (set_version_state st now v d)) = next_series_id d"
  "next_version_id (snd (set_version_state st now v d)) = next_version_id d"
  "distinct (map content_key (contents d)) \<Longrightarrow>
     distinct (map content_key (contents (snd (set_version_state st now v d))))"
  by (simp_all add: set_version_state_def version_save_def content_save_def ebind_def exc_simps
      distinct_save_row_any split: option.splits)

lemma wf_db_contents:
  "wf_db d \<Longrightarrow> distinct (map content_key (contents d))"
  by (simp add: wf_db_def)

text \<open>Demoting a version to a state that the series invariant does not count.\<close>

lemma set_version_state_demote_inv:
  assumes inv: "db_inv d" and x: "x \<in> set (versions d)"
    and st: "st \<noteq> STATE_PUBLISHED" "st \<noteq> STATE_STAGED"
  shows "db_inv (snd (set_version_state st now x d))"
proof -
  let ?r = "x\<lparr>v_state := st\<rparr>"
  have wf: "wf_db d" and ids: "distinct (map v_id (versions d))"
    and p: "at_most_one STATE_PUBLISHED (versions d)" and s: "at_most_one STATE_STAGED (versions d)"
    using inv by (simp_all add: db_inv_def wf_db_def series_inv_def)
  have "wf_db (d\<lparr>versions := save_row v_id ?r (versions d)\<rparr>)"
    using wf_db_save_version [OF wf x] by simp
  then have "wf_db (snd (set_version_state st now x d))"
    using wf_db_contents [OF wf] by (simp add: wf_db_def set_version_state_tables)
  moreover have "at_most_one STATE_PUBLISHED (save_row v_id ?r (versions d))"
    by (rule at_most_one_save_row [OF ids x]) (use p st in auto)
  moreover have "at_most_one STATE_STAGED (save_row v_id ?r (versions d))"
    by (rule at_most_one_save_row [OF ids x]) (use s st in auto)
  ultimately show ?thesis
    by (simp add: db_inv_def series_inv_def set_version_state_tables)
qed

text \<open>
  Promoting a version to \<open>st\<close> when no other version of its series holds \<open>st\<close>.
\<close>

lemma set_version_state_promote_inv:
  assumes inv: "db_inv d" and x: "x \<in> set (versions d)"
    and free: "\<forall>w\<in>set (versions d). w \<noteq> x \<longrightarrow> v_series w = v_series x \<longrightarrow> v_state w \<noteq> st"
  shows "db_inv (snd (set_version_state st now x d))"
proof -
  let ?r = "x\<lparr>v_state := st\<rparr>"
  have wf: "wf_db d" and ids: "distinct (map v_id (versions d))"
    and p: "at_most_one STATE_PUBLISHED (versions d)" and s: "at_most_one STATE_STAGED (versions d)"
    using inv by (simp_all add: db_inv_def wf_db_def series_inv_def)
  have "wf_db (d\<lparr>versions := save_row v_id ?r (versions d)\<rparr>)"
    using wf_db_save_version [OF wf x] by simp
  then have "wf_db (snd (set_version_state st now x d))"
    using wf_db_contents [OF wf] by (simp add: wf_db_def set_version_state_tables)
  moreover have "at_most_one STATE_PUBLISHED (save_row v_id ?r (versions d))"
    by (rule at_most_one_save_row [OF ids x]) (use p free in auto)
  moreover have "at_most_one STATE_STAGED (save_row v_id ?r (versions d))"
    by (rule at_most_one_save_row [OF ids x]) (use s free in auto)
  ultimately show ?thesis
    by (simp add: db_inv_def series_inv_def set_version_state_tables)
qed

lemma objects_get_holder:
  assumes ids: "distinct (map v_id vs)" and inv: "at_most_one st vs"
    and w: "w \<in> set vs" "in_series_state s st w"
  shows "objects_get (in_series_state s st) vs = Inr w"
proof -
  have "count_in st s vs \<le> 1" using at_most_one_count [OF ids] inv by blast
  then have le: "length (filter (in_series_state s st) vs) \<le> 1"
    by (simp add: count_in_def in_series_state_def [abs_def])
  have mem: "w \<in> set (filter (in_series_state s st) vs)" using w by simp
  from le mem have "filter (in_series_state s st) vs = [w]"
    by (cases "filter (in_series_state s st) vs") auto
  then show ?thesis by (simp add: objects_get_Inr_iff)
qed

lemma demote_holder_run:
  "demote_holder st s now d =
     (if list_ex (in_series_state s st) (versions d)
      then (case objects_get (in_series_state s st) (versions d) of
              Inl e \<Rightarrow> (Inl e, d)
            | Inr w \<Rightarrow> set_version_state STATE_UNPUBLISHED now w d)
      else (Inr (), d))"
  by (simp add: demote_holder_def ebind_def exc_simps split: sum.splits)

text \<open>
  After the demotion block no version of the series holds the state, the invariant
  still holds, and every row is a row of the old table or the demoted holder.
\<close>

lemma demoted_no_holder:
  assumes ids: "distinct (map v_id vs)" and amo: "at_most_one st vs"
    and w: "w \<in> set vs" "in_series_state s st w"
    and st: "st = STATE_PUBLISHED \<or> st = STATE_STAGED"
  shows "\<forall>x\<in>insert (w\<lparr>v_state := STATE_UNPUBLISHED\<rparr>) (set vs - {w}). \<not> in_series_state s st x"
proof
  fix x assume x: "x \<in> insert (w\<lparr>v_state := STATE_UNPUBLISHED\<rparr>) (set vs - {w})"
  show "\<not> in_series_state s st x"
  proof
    assume h: "in_series_state s st x"
    have "x \<noteq> w\<lparr>v_state := STATE_UNPUBLISHED\<rparr>"
      using h st by (auto simp: in_series_state_def)
    with x have xd: "x \<in> set vs" and xw: "x \<noteq> w" by auto
    have "v_id x = v_id w"
      using amo [unfolded at_most_one_def, rule_format, OF xd w(1)] h w(2)
      by (simp add: in_series_state_def)
    from distinct_map_eq [OF ids xd w(1) this] xw show False by simp
  qed
qed

lemma refetch_series:
  assumes t: "objects_get P vs = Inr t" "v_series t = s"
    and sub: "set vs1 \<subseteq> set vs \<union>
           {x\<lparr>v_state := STATE_UNPUBLISHED\<rparr> | x. x \<in> set vs \<and> in_series_state s st x}"
    and t1: "t1 \<in> set vs1" "P t1"
  shows "v_series t1 = s"
proof (cases "t1 \<in> set vs")
  case True
  with t1(2) objects_get_Inr_unique [OF t(1)] have "t1 = t" by blast
  with t(2) show ?thesis by simp
next
  case False
  with t1(1) sub obtain x where "t1 = x\<lparr>v_state := STATE_UNPUBLISHED\<rparr>" "in_series_state s st x"
    by blast
  then show ?thesis by (simp add: in_series_state_def)
qed

lemma demote_holder_inv:
  fixes s now :: nat
  assumes inv: "db_inv d" and st: "st = STATE_PUBLISHED \<or> st = STATE_STAGED"
  defines "d1 \<equiv> snd (demote_holder st s now d)"
  shows "db_inv d1"
    and "\<forall>w\<in>set (versions d1). \<not> in_series_state s st w"
    and "set (versions d1) \<subseteq> set (versions d) \<union>
           {x\<lparr>v_state := STATE_UNPUBLISHED\<rparr> | x. x \<in> set (versions d) \<and> in_series_state s st x}"
proof -
  have ids: "distinct (map v_id (versions d))"
    and amo: "at_most_one st (versions d)"
    using inv st by (auto simp: db_inv_def wf_db_def series_inv_def)
  have "db_inv d1 \<and> (\<forall>w\<in>set (versions d1). \<not> in_series_state s st w)
        \<and> set (versions d1) \<subseteq> set (versions d) \<union>
           {x\<lparr>v_state := STATE_UNPUBLISHED\<rparr> | x. x \<in> set (versions d) \<and> in_series_state s st x}"
  proof (cases "list_ex (in_series_state s st) (versions d)")
    case False
    then have "d1 = d" by (simp add: d1_def demote_holder_run)
    with False inv show ?thesis by (simp add: list_ex_iff)
  next
    case True
    then obtain w where w: "w \<in> set (versions d)" "in_series_state s st w"
      by (auto simp: list_ex_iff)
    have get: "objects_get (in_series_state s st) (versions d) = Inr w"
      by (rule objects_get_holder [OF ids amo w])
    then have d1: "d1 = snd (set_version_state STATE_UNPUBLISHED now w d)"
      using True by (simp add: d1_def demote_holder_run)
    have vs1: "set (versions d1) = insert (w\<lparr>v_state := STATE_UNPUBLISHED\<rparr>) (set (versions d) - {w})"
      unfolding d1 set_version_state_tables by (rule set_save_row [OF ids w(1)]) simp
    have "db_inv d1"
      unfolding d1 by (rule set_version_state_demote_inv [OF inv w(1)]) simp_all
    moreover have "\<forall>x\<in>set (versions d1). \<not> in_series_state s st x"
      unfolding vs1 by (rule demoted_no_holder [OF ids amo w st])
    moreover have "set (versions d1) \<subseteq> set (versions d) \<union>
           {x\<lparr>v_state := STATE_UNPUBLISHED\<rparr> | x. x \<in> set (versions d) \<and> in_series_state s st x}"
      using vs1 w by auto
    ultimately show ?thesis by (intro conjI)
  qed
  then show "db_inv d1" "\<forall>w\<in>set (versions d1). \<not> in_series_state s st w"
    "set (versions d1) \<subseteq> set (versions d) \<union>
       {x\<lparr>v_state := STATE_UNPUBLISHED\<rparr> | x. x \<in> set (versions d) \<and> in_series_state s st x}"
    by blast+
qed

lemma promote_version_run:
  "promote_version st ct now oid d =
     (case (case get_series ct oid d of None \<Rightarrow> (Inr (), d) | Some s \<Rightarrow> demote_holder st s now d) of
        (Inl e, d') \<Rightarrow> (Inl e, d')
      | (Inr _, d') \<Rightarrow>
          (case objects_get (model_version ct oid) (versions d') of
             Inl e \<Rightarrow> (Inl e, d')
           | Inr t \<Rightarrow> set_version_state st now t d'))"
  by (simp add: promote_version_def ebind_def exc_simps split: option.splits prod.splits sum.splits)

lemma get_series_Some:
  "get_series ct oid d = Some s \<Longrightarrow>
     \<exists>t. objects_get (model_version ct oid) (versions d) = Inr t \<and> v_series t = s"
  by (auto simp: get_series_def split: sum.splits if_splits)

lemma get_series_None:
  "wf_db d \<Longrightarrow> get_series ct oid d = None \<Longrightarrow>
     (\<forall>t. objects_get (model_version ct oid) (versions d) \<noteq> Inr t)"
  by (auto simp: get_series_def wf_db_def dest: objects_get_Inr_mem split: sum.splits if_splits)

text \<open>
  \<open>stage_version\<close> and \<open>publish_version\<close> keep both invariants, whether they
  return or raise.
\<close>

lemma promote_version_inv:
  assumes inv: "db_inv d" and st: "st = STATE_PUBLISHED \<or> st = STATE_STAGED"
  shows "db_inv (snd (promote_version st ct now oid d))"
proof (cases "get_series ct oid d")
  case None
  with inv get_series_None have "\<forall>t. objects_get (model_version ct oid) (versions d) \<noteq> Inr t"
    by (simp add: db_inv_def)
  then have "snd (promote_version st ct now oid d) = d"
    using None by (simp add: promote_version_run split: sum.splits)
  with inv show ?thesis by simp
next
  case (Some s)
  then obtain t where t: "objects_get (model_version ct oid) (versions d) = Inr t" "v_series t = s"
    using get_series_Some by blast
  obtain r1 d1 where r: "demote_holder st s now d = (r1, d1)"
    by (cases "demote_holder st s now d")
  have inv1: "db_inv d1" and free: "\<forall>w\<in>set (versions d1). \<not> in_series_state s st w"
    and sub: "set (versions d1) \<subseteq> set (versions d) \<union>
           {x\<lparr>v_state := STATE_UNPUBLISHED\<rparr> | x. x \<in> set (versions d) \<and> in_series_state s st x}"
    using demote_holder_inv [OF inv st, of s now] r by simp_all
  show ?thesis
  proof (cases r1)
    case (Inl e)
    with Some r inv1 show ?thesis by (simp add: promote_version_run)
  next
    case (Inr u)
    note r1 = this
    show ?thesis
    proof (cases "objects_get (model_version ct oid) (versions d1)")
      case (Inl e)
      with Some r r1 inv1 show ?thesis by (simp add: promote_version_run)
    next
      case (Inr t1)
      note get1 = this
      have t1: "t1 \<in> set (versions d1)" "model_version ct oid t1"
        using objects_get_Inr_mem [OF get1] by simp_all
      have "v_series t1 = s" by (rule refetch_series [OF t sub t1])
      with free have "\<forall>w\<in>set (versions d1). w \<noteq> t1 \<longrightarrow> v_series w = v_series t1 \<longrightarrow> v_state w \<noteq> st"
        by (auto simp: in_series_state_def)
      from set_version_state_promote_inv [OF inv1 t1(1) this] Some r r1 get1
      show ?thesis by (simp add: promote_version_run)
    qed
  qed
qed

lemma fetch_set_state_run:
  "ebind (version_get P) (set_version_state st now) d =
     (case objects_get P (versions d) of Inl e \<Rightarrow> (Inl e, d) | Inr x \<Rightarrow> set_version_state st now x d)"
  by (simp add: ebind_def split: sum.splits)

lemma fetch_demote_inv:
  assumes "db_inv d" and "st \<noteq> STATE_PUBLISHED" and "st \<noteq> STATE_STAGED"
  shows "db_inv (snd (ebind (version_get P) (set_version_state st now) d))"
proof (cases "objects_get P (versions d)")
  case (Inl e)
  with assms show ?thesis by (simp add: fetch_set_state_run)
next
  case (Inr x)
  then have "x \<in> set (versions d)" by (simp add: objects_get_Inr_mem)
  from set_version_state_demote_inv [OF assms(1) this assms(2,3)] Inr
  show ?thesis by (simp add: fetch_set_state_run)
qed

lemma at_most_one_append:
  assumes amo: "at_most_one st vs"
    and new: "v_state v = st \<Longrightarrow> \<forall>w\<in>set vs. v_series w = v_series v \<longrightarrow> v_state w \<noteq> st"
  shows "at_most_one st (vs @ [v])"
  unfolding at_most_one_def
proof (intro ballI impI)
  fix a b
  assume a: "a \<in> set (vs @ [v])" and b: "b \<in> set (vs @ [v])"
    and h: "v_series a = v_series b \<and> v_state a = st \<and> v_state b = st"
  show "v_id a = v_id b"
  proof (cases "a = v")
    case True
    show ?thesis
    proof (cases "b = v")
      case False
      with b have "b \<in> set vs" by simp
      with new h True show ?thesis by auto
    qed (simp add: True)
  next
    case False
    with a have a': "a \<in> set vs" by simp
    show ?thesis
    proof (cases "b = v")
      case True
      with new h a' show ?thesis by auto
    next
      case False
      with b have "b \<in> set vs" by simp
      with amo a' h show ?thesis unfolding at_most_one_def by blast
    qed
  qed
qed

lemma version_create_run:
  "version_create ct oid s n st d =
     (Inr (), d\<lparr>versions := versions d @
        [\<lparr>v_id = next_version_id d, v_ctype = ct, object_id = oid, v_series = s, number = n, v_state = st\<rparr>],
        next_version_id := Suc (next_version_id d)\<rparr>)"
  by (simp add: version_create_def Let_def)

text \<open>
  A version created in an existing series keeps well-formedness, and keeps the series
  invariant when no version of its series holds its state.
\<close>

lemma version_create_inv:
  assumes inv: "db_inv d" and s: "s \<in> set (map vs_id (series_tbl d))"
    and free: "\<forall>w\<in>set (versions d). v_series w = s \<longrightarrow> v_state w \<noteq> st \<or> (st \<noteq> STATE_PUBLISHED \<and> st \<noteq> STATE_STAGED)"
  shows "db_inv (snd (version_create ct oid s n st d))"
proof -
  let ?v = "\<lparr>v_id = next_version_id d, v_ctype = ct, object_id = oid, v_series = s, number = n, v_state = st\<rparr>"
  have wf: "wf_db d" and p: "at_most_one STATE_PUBLISHED (versions d)"
    and q: "at_most_one STATE_STAGED (versions d)"
    using inv by (simp_all add: db_inv_def series_inv_def)
  have fresh: "next_version_id d \<notin> v_id ` set (versions d)"
    using wf by (auto simp: wf_db_def)
  have "wf_db (d\<lparr>versions := versions d @ [?v], next_version_id := Suc (next_version_id d)\<rparr>)"
    using wf fresh s by (auto simp: wf_db_def less_Suc_eq)
  moreover have "at_most_one STATE_PUBLISHED (versions d @ [?v])"
    by (rule at_most_one_append [OF p]) (use free in auto)
  moreover have "at_most_one STATE_STAGED (versions d @ [?v])"
    by (rule at_most_one_append [OF q]) (use free in auto)
  ultimately show ?thesis
    by (simp add: version_create_run db_inv_def series_inv_def)
qed

lemma add_series_run:
  "add_series slug d =
     (Inr (next_series_id d), d\<lparr>series_tbl := series_tbl d @ [\<lparr>vs_id = next_series_id d, vs_slug = slug\<rparr>],
                                next_series_id := Suc (next_series_id d)\<rparr>)"
  by (simp add: add_series_def Let_def)

lemma add_series_inv:
  fixes slug :: string
  assumes inv: "db_inv d"
  defines "d1 \<equiv> snd (add_series slug d)"
  shows "db_inv d1" and "next_series_id d \<in> set (map vs_id (series_tbl d1))"
    and "\<forall>w\<in>set (versions d1). v_series w \<noteq> next_series_id d"
proof -
  have wf: "wf_db d" using inv by (simp add: db_inv_def)
  have fresh: "next_series_id d \<notin> vs_id ` set (series_tbl d)"
    using wf by (auto simp: wf_db_def)
  show "db_inv d1"
    using inv fresh by (auto simp: d1_def add_series_run db_inv_def wf_db_def series_inv_def less_Suc_eq)
  show "next_series_id d \<in> set (map vs_id (series_tbl d1))"
    by (simp add: d1_def add_series_run)
  show "\<forall>w\<in>set (versions d1). v_series w \<noteq> next_series_id d"
  proof
    fix w assume "w \<in> set (versions d1)"
    then have w: "w \<in> set (versions d)" by (simp add: d1_def add_series_run)
    with wf have "v_series w \<in> vs_id ` set (series_tbl d)" unfolding wf_db_def by auto
    with fresh show "v_series w \<noteq> next_series_id d" by auto
  qed
qed

lemma add_version_inv: "db_inv d \<Longrightarrow> db_inv (snd (add_version ct slug obj d))"
  using add_series_inv [of d slug]
  by (auto simp: add_version_def ebind_def add_series_run intro!: version_create_inv)

lemma add_to_series_inv:
  "db_inv d \<Longrightarrow> s \<in> set (map vs_id (series_tbl d)) \<Longrightarrow> db_inv (snd (add_to_series ct s obj d))"
  by (simp add: add_to_series_def exc_simps version_create_inv)

lemma content_save_inv: "db_inv d \<Longrightarrow> db_inv (snd (content_save now c d))"
  by (simp add: content_save_def exc_simps db_inv_def wf_db_def series_inv_def distinct_save_row_any)

lemma content_key_if_state [simp]:
  "content_key (if P then c\<lparr>c_state := st\<rparr> else c) = content_key c"
  by (simp add: content_key_def)

lemma core_publish_objects_inv: "db_inv d \<Longrightarrow> db_inv (snd (core_publish_objects staging ct now d))"
  by (simp add: core_publish_objects_def exc_simps Let_def db_inv_def wf_db_def series_inv_def comp_def)

lemma mgr_step_inv: "mgr_step d d' \<Longrightarrow> db_inv d \<Longrightarrow> db_inv d'"
proof (induction rule: mgr_step.induct)
  case (stage d ct now oid)
  then show ?case by (simp add: stage_version_def promote_version_inv)
next
  case (publish d ct now oid)
  then show ?case by (simp add: publish_version_def promote_version_inv)
next
  case (unpublish d ct now oid)
  then show ?case by (simp add: unpublish_version_def fetch_demote_inv)
next
  case (delete d ct now oid)
  then show ?case by (simp add: delete_version_def fetch_demote_inv)
next
  case (add_version d ct slug obj)
  then show ?case by (rule add_version_inv)
next
  case (add_to_series s d ct obj)
  then show ?case by (simp add: add_to_series_inv)
next
  case (core_publish d staging ct now)
  then show ?case by (rule core_publish_objects_inv)
next
  case (save_content d now c)
  then show ?case by (rule content_save_inv)
qed

lemma empty_db_inv: "db_inv empty_db"
  by (simp add: empty_db_def db_inv_def wf_db_def series_inv_def at_most_one_def)

lemma reachable_db_inv: "reachable d \<Longrightarrow> db_inv d"
  by (induction rule: reachable.induct) (auto intro: empty_db_inv mgr_step_inv)

text \<open>
  C1. In every reachable state, each series has at most one \<open>PUBLISHED\<close> and at most
  one \<open>STAGED\<close> version (spec section 3 and the first property of section 8).
\<close>

theorem reachable_series_inv:
  assumes "reachable d"
  shows "count_in STATE_PUBLISHED s (versions d) \<le> 1 \<and> count_in STATE_STAGED s (versions d) \<le> 1"
proof -
  from reachable_db_inv [OF assms] have "wf_db d" "series_inv d" by (simp_all add: db_inv_def)
  then show ?thesis
    using at_most_one_count [of "versions d"] by (simp add: wf_db_def series_inv_def)
qed

lemma example_run_reachable: "reachable example_run"
  unfolding example_run_def
  by (rule reachable.step [OF reachable.step [OF reachable.step [OF reachable.init]]])
     (rule mgr_step.save_content mgr_step.add_version mgr_step.publish)+

theorem reachable_series_inv_witness:
  "reachable example_run
   \<and> count_in STATE_PUBLISHED 1 (versions example_run) = 1
   \<and> count_in STATE_PUBLISHED 1 (versions example_run) \<le> 1
   \<and> count_in STATE_STAGED 1 (versions example_run) \<le> 1"
proof -
  have "count_in STATE_PUBLISHED 1 (versions example_run) = 1"
    by (simp add: example_run_def example_obj_def empty_db_def publish_version_def
        promote_version_run get_series_def content_save_def add_version_def ebind_def
        add_series_run version_create_run demote_holder_run set_version_state_def version_save_def
        objects_get_def model_version_def in_series_state_def save_row_def count_in_def
        content_object_def content_key_def state_save_def exc_simps)
  with example_run_reachable reachable_series_inv [OF example_run_reachable, of 1]
  show ?thesis by simp
qed

subsection \<open>Stage and publish implement the spec's transition\<close>

lemma content_object_present:
  "content_object v d \<noteq> None \<longleftrightarrow> (v_ctype v, object_id v) \<in> content_key ` set (contents d)"
  by (auto simp: content_object_def find_None_iff image_iff; metis)

lemma set_version_state_present:
  fixes st :: state and now :: nat
  assumes ids: "distinct (map v_id (versions d))" and v: "v \<in> set (versions d)"
    and c: "content_object v d = Some c"
  defines "d' \<equiv> snd (set_version_state st now v d)"
  shows "fst (set_version_state st now v d) = Inr ()"
    and "versions d' = map (\<lambda>x. if v_id x = v_id v then x\<lparr>v_state := st\<rparr> else x) (versions d)"
    and "content_object v d' = Some (state_save now (c\<lparr>c_state := st\<rparr>))"
    and "\<And>u. content_object u d \<noteq> None \<Longrightarrow> content_object u d' \<noteq> None"
proof -
  let ?c = "state_save now (c\<lparr>c_state := st\<rparr>)"
  have run: "set_version_state st now v d =
      (Inr (), d\<lparr>versions := save_row v_id (v\<lparr>v_state := st\<rparr>) (versions d),
                contents := save_row content_key ?c (contents d)\<rparr>)"
    using c by (simp add: set_version_state_def version_save_def content_save_def ebind_def
        exc_simps content_object_def)
  then show "fst (set_version_state st now v d) = Inr ()" by simp
  have "save_row v_id (v\<lparr>v_state := st\<rparr>) (versions d)
        = map (\<lambda>x. if v_id x = v_id v then v\<lparr>v_state := st\<rparr> else x) (versions d)"
    using v by (simp add: save_row_map)
  also have "\<dots> = map (\<lambda>x. if v_id x = v_id v then x\<lparr>v_state := st\<rparr> else x) (versions d)"
    using distinct_map_eq [OF ids _ v] by (auto intro: map_cong)
  finally show "versions d' = map (\<lambda>x. if v_id x = v_id v then x\<lparr>v_state := st\<rparr> else x) (versions d)"
    by (simp add: d'_def run)
  have key: "content_key ?c = (v_ctype v, object_id v)"
    using content_object_Some [OF c] by (simp add: content_key_def state_save_def)
  show "content_object v d' = Some ?c"
    using find_save_row [of content_key ?c "contents d"] key
    by (simp add: d'_def run content_object_def)
  show "content_object u d' \<noteq> None" if "content_object u d \<noteq> None" for u
  proof -
    from that have "(v_ctype u, object_id u) \<in> content_key ` set (contents d)"
      by (simp only: content_object_present)
    with keys_save_row [of content_key "contents d" ?c]
    have "(v_ctype u, object_id u) \<in> content_key ` set (contents d')"
      by (auto simp: d'_def run)
    then show ?thesis by (simp only: content_object_present)
  qed
qed

lemma demote_holder_effect:
  assumes ids: "distinct (map v_id (versions d))" and amo: "at_most_one st (versions d)"
    and objs: "\<forall>v\<in>set (versions d). content_object v d \<noteq> None"
  obtains d1 g1 where "demote_holder st s now d = (Inr (), d1)"
    and "versions d1 = map g1 (versions d)"
    and "\<And>x. x \<in> set (versions d) \<Longrightarrow>
           g1 x = (if v_series x = s \<and> v_state x = st then x\<lparr>v_state := STATE_UNPUBLISHED\<rparr> else x)"
    and "\<And>x. v_id (g1 x) = v_id x" and "\<And>x. model_version ct oid (g1 x) = model_version ct oid x"
    and "\<forall>v\<in>set (versions d). content_object v d1 \<noteq> None"
proof (cases "list_ex (in_series_state s st) (versions d)")
  case True
  then obtain w where w: "w \<in> set (versions d)" "in_series_state s st w"
    by (auto simp: list_ex_iff)
  have getw: "objects_get (in_series_state s st) (versions d) = Inr w"
    by (rule objects_get_holder [OF ids amo w])
  from objs w(1) obtain cw where cw: "content_object w d = Some cw" by auto
  let ?g = "\<lambda>x. if v_id x = v_id w then x\<lparr>v_state := STATE_UNPUBLISHED\<rparr> else x"
  let ?d1 = "snd (set_version_state STATE_UNPUBLISHED now w d)"
  have dh: "demote_holder st s now d = (Inr (), ?d1)"
    using True getw set_version_state_present(1) [OF ids w(1) cw]
    by (simp add: demote_holder_run prod_eq_iff)
  have vs1: "versions ?d1 = map ?g (versions d)"
    by (rule set_version_state_present(2) [OF ids w(1) cw])
  have gx: "?g x = (if v_series x = s \<and> v_state x = st then x\<lparr>v_state := STATE_UNPUBLISHED\<rparr> else x)"
    if x: "x \<in> set (versions d)" for x
  proof -
    have "v_id x = v_id w \<longleftrightarrow> v_series x = s \<and> v_state x = st"
    proof
      assume "v_id x = v_id w"
      with distinct_map_eq [OF ids x w(1)] have "x = w" by simp
      with w(2) show "v_series x = s \<and> v_state x = st" by (simp add: in_series_state_def)
    next
      assume h: "v_series x = s \<and> v_state x = st"
      from amo [unfolded at_most_one_def, rule_format, OF x w(1)] h w(2)
      show "v_id x = v_id w" by (simp add: in_series_state_def)
    qed
    then show ?thesis by simp
  qed
  have objs1: "\<forall>v\<in>set (versions d). content_object v ?d1 \<noteq> None"
    using objs set_version_state_present(4) [OF ids w(1) cw] by blast
  show ?thesis by (rule that [OF dh vs1 gx _ _ objs1]) (simp_all add: model_version_def)
next
  case False
  have dh: "demote_holder st s now d = (Inr (), d)"
    using False by (simp add: demote_holder_run)
  have gx: "(\<lambda>x. x) x = (if v_series x = s \<and> v_state x = st then x\<lparr>v_state := STATE_UNPUBLISHED\<rparr> else x)"
    if "x \<in> set (versions d)" for x
    using False that by (auto simp: list_ex_iff in_series_state_def)
  show ?thesis
    by (rule that [OF dh _ gx _ _ objs]) simp_all
qed

lemma demote_then_promote_spec:
  assumes ids: "distinct (map v_id vs)" and tin: "t \<in> set vs"
    and g1: "\<And>x. x \<in> set vs \<Longrightarrow>
               g1 x = (if v_series x = v_series t \<and> v_state x = st then x\<lparr>v_state := STATE_UNPUBLISHED\<rparr> else x)"
    and g1id: "\<And>x. v_id (g1 x) = v_id x"
  shows "map (\<lambda>x. if v_id x = v_id t then x\<lparr>v_state := st\<rparr> else x) (map g1 vs) = spec_promote st t vs"
  unfolding spec_promote_def map_map
proof (rule map_cong [OF refl])
  fix x assume x: "x \<in> set vs"
  show "((\<lambda>x. if v_id x = v_id t then x\<lparr>v_state := st\<rparr> else x) \<circ> g1) x =
        (if v_id x = v_id t then x\<lparr>v_state := st\<rparr>
         else if v_series x = v_series t \<and> v_state x = st then x\<lparr>v_state := STATE_UNPUBLISHED\<rparr> else x)"
  proof (cases "v_id x = v_id t")
    case True
    with distinct_map_eq [OF ids x tin] have "x = t" by simp
    then show ?thesis using g1 [OF tin] by (auto simp: g1id)
  next
    case False
    with g1 [OF x] show ?thesis by (simp add: g1id)
  qed
qed

lemma promote_version_effect:
  assumes inv: "db_inv d" and st: "st = STATE_PUBLISHED \<or> st = STATE_STAGED"
    and t: "objects_get (model_version ct oid) (versions d) = Inr t"
    and objs: "\<forall>v\<in>set (versions d). content_object v d \<noteq> None"
  shows "fst (promote_version st ct now oid d) = Inr ()
       \<and> versions (snd (promote_version st ct now oid d)) = spec_promote st t (versions d)
       \<and> map_option c_state (content_object t (snd (promote_version st ct now oid d))) = Some st"
proof -
  have wf: "wf_db d" and ids: "distinct (map v_id (versions d))"
    and amo: "at_most_one st (versions d)"
    using inv st by (auto simp: db_inv_def wf_db_def series_inv_def)
  have tin: "t \<in> set (versions d)" using objects_get_Inr_mem [OF t] by simp
  have gs: "get_series ct oid d = Some (v_series t)"
    using t tin wf by (simp add: get_series_def wf_db_def)
  obtain d1 g1 where dh: "demote_holder st (v_series t) now d = (Inr (), d1)"
    and vs1: "versions d1 = map g1 (versions d)"
    and g1: "\<And>x. x \<in> set (versions d) \<Longrightarrow>
           g1 x = (if v_series x = v_series t \<and> v_state x = st then x\<lparr>v_state := STATE_UNPUBLISHED\<rparr> else x)"
    and g1id: "\<And>x. v_id (g1 x) = v_id x" and g1mv: "\<And>x. model_version ct oid (g1 x) = model_version ct oid x"
    and objs1: "\<forall>v\<in>set (versions d). content_object v d1 \<noteq> None"
    using demote_holder_effect [OF ids amo objs, where s = "v_series t" and now = now and ct = ct and oid = oid]
    by blast
  have g1tu: "g1 t = t\<lparr>v_state := (if v_state t = st then STATE_UNPUBLISHED else v_state t)\<rparr>"
    using g1 [OF tin] by auto
  have t1: "objects_get (model_version ct oid) (versions d1) = Inr (g1 t)"
    using t by (simp add: vs1 objects_get_map g1mv)
  have ids1: "distinct (map v_id (versions d1))" using ids by (simp add: vs1 comp_def g1id)
  have t1in: "g1 t \<in> set (versions d1)" using tin by (simp add: vs1)
  have "content_object (g1 t) d1 \<noteq> None"
    using objs1 tin by (simp add: g1tu content_object_def)
  then obtain c1 where c1: "content_object (g1 t) d1 = Some c1" by blast
  let ?d2 = "snd (set_version_state st now (g1 t) d1)"
  have run: "promote_version st ct now oid d = set_version_state st now (g1 t) d1"
    using gs dh t1 by (simp add: promote_version_run)
  have vs2: "versions ?d2 = spec_promote st t (versions d)"
    using set_version_state_present(2) [OF ids1 t1in c1] demote_then_promote_spec [OF ids tin g1 g1id]
    by (simp add: vs1 g1id)
  have "content_object t ?d2 = content_object (g1 t) ?d2"
    by (simp add: g1tu content_object_def)
  then have "content_object t ?d2 = Some (state_save now (c1\<lparr>c_state := st\<rparr>))"
    using set_version_state_present(3) [OF ids1 t1in c1] by simp
  then show ?thesis
    using run vs2 set_version_state_present(1) [OF ids1 t1in c1] by simp
qed

text \<open>
  C2. With the invariants, an object that has exactly one version \<open>t\<close>, and content
  objects present for the versions: \<open>stage_version\<close> and \<open>publish_version\<close> return
  normally, change the version table exactly as \<open>spec_promote\<close> does, and leave the
  object's content row in the new state.
\<close>

theorem promote_version_refines:
  assumes inv: "db_inv d" and st: "st = STATE_PUBLISHED \<or> st = STATE_STAGED"
    and t: "objects_get (model_version ct oid) (versions d) = Inr t"
    and objs: "\<forall>v\<in>set (versions d). content_object v d \<noteq> None"
  shows "fst (promote_version st ct now oid d) = Inr ()
       \<and> versions (snd (promote_version st ct now oid d)) = spec_promote st t (versions d)
       \<and> map_option c_state (content_object t (snd (promote_version st ct now oid d))) = Some st"
  using promote_version_effect [OF assms] .

lemmas example_simps = example_db_def example_content_def example_version_def
  db_inv_def wf_db_def series_inv_def at_most_one_def content_key_def content_object_def
  model_version_def objects_get_def

theorem promote_version_refines_witness:
  "db_inv (example_db STATE_PUBLISHED)
   \<and> objects_get (model_version 7 11) (versions (example_db STATE_PUBLISHED))
       = Inr (example_version 2 11 STATE_UNPUBLISHED)
   \<and> list_all (\<lambda>v. content_object v (example_db STATE_PUBLISHED) \<noteq> None) (versions (example_db STATE_PUBLISHED))
   \<and> fst (promote_version STATE_PUBLISHED 7 9 11 (example_db STATE_PUBLISHED)) = Inr ()
   \<and> versions (snd (promote_version STATE_PUBLISHED 7 9 11 (example_db STATE_PUBLISHED)))
       = spec_promote STATE_PUBLISHED (example_version 2 11 STATE_UNPUBLISHED)
           (versions (example_db STATE_PUBLISHED))"
proof -
  have h1: "db_inv (example_db STATE_PUBLISHED)" by (simp add: example_simps)
  have h2: "objects_get (model_version 7 11) (versions (example_db STATE_PUBLISHED))
       = Inr (example_version 2 11 STATE_UNPUBLISHED)" by (simp add: example_simps)
  have h3: "\<forall>v\<in>set (versions (example_db STATE_PUBLISHED)). content_object v (example_db STATE_PUBLISHED) \<noteq> None"
    by (simp add: example_simps)
  from promote_version_refines [OF h1 _ h2 h3, of STATE_PUBLISHED 9]
  show ?thesis using h1 h2 h3 by (simp add: list_all_iff)
qed

subsection \<open>Error paths\<close>

text \<open>
  C3. When the object does not have exactly one version, \<open>stage_version\<close>,
  \<open>publish_version\<close>, \<open>unpublish_version\<close> and \<open>delete_version\<close> raise the error
  of the failed \<open>get\<close> (\<open>DoesNotExist\<close> or \<open>MultipleObjectsReturned\<close>) and leave
  the database unchanged: \<open>get_series\<close> swallows the same error first, so no sibling
  is demoted.
\<close>

theorem version_ops_get_error:
  assumes "objects_get (model_version ct oid) (versions d) = Inl e"
  shows "stage_version ct now oid d = (Inl e, d) \<and> publish_version ct now oid d = (Inl e, d)
       \<and> unpublish_version ct now oid d = (Inl e, d) \<and> delete_version ct now oid d = (Inl e, d)"
proof -
  have "get_series ct oid d = None" using assms by (simp add: get_series_def)
  then have "promote_version st ct now oid d = (Inl e, d)" for st
    using assms by (simp add: promote_version_run)
  then show ?thesis
    using assms by (simp add: stage_version_def publish_version_def unpublish_version_def
        delete_version_def fetch_set_state_run)
qed

theorem version_ops_get_error_witness:
  "objects_get (model_version 7 12) (versions (example_db STATE_PUBLISHED)) = Inl DoesNotExist
   \<and> stage_version 7 9 12 (example_db STATE_PUBLISHED) = (Inl DoesNotExist, example_db STATE_PUBLISHED)
   \<and> publish_version 7 9 12 (example_db STATE_PUBLISHED) = (Inl DoesNotExist, example_db STATE_PUBLISHED)
   \<and> unpublish_version 7 9 12 (example_db STATE_PUBLISHED) = (Inl DoesNotExist, example_db STATE_PUBLISHED)
   \<and> delete_version 7 9 12 (example_db STATE_PUBLISHED) = (Inl DoesNotExist, example_db STATE_PUBLISHED)"
proof -
  have h: "objects_get (model_version 7 12) (versions (example_db STATE_PUBLISHED)) = Inl DoesNotExist"
    by (simp add: example_simps)
  from version_ops_get_error [OF h, of 9] h show ?thesis by simp
qed

end
