(* ===== verification/Mixins.thy ===== *)
theory Mixins
  imports Prelude "HOL-Library.AList"
begin

text \<open>
  The access-control view mixins of \<open>src/tunobase/core/mixins.py\<close> and
  \<open>FilterMixin\<close>.  Each mixin's \<open>dispatch\<close> (or \<open>get\<close>) is a guard: it raises,
  redirects to the login page, or lets the request through to the next \<open>dispatch\<close>
  of the view's method resolution order (\<open>Proceed\<close>).  Django's \<open>User\<close>,
  \<open>AnonymousUser\<close>, \<open>has_perm\<close> (an active superuser has every permission, an
  inactive or anonymous user none) and the \<open>login_required\<close> decorator are
  modelled as the library behaves; the project's user model adds the field
  \<open>is_admin\<close>, which \<open>AnonymousUser\<close> does not have.
\<close>

record auth_user =
  user_pk :: nat
  is_active :: bool
  is_superuser :: bool
  is_admin :: bool
  user_groups :: "string list"
  user_perms :: "string list"

datatype user = AnonymousUser | User auth_user

record request =
  req_user :: user
  req_method :: string
  full_path :: string
  req_get :: "(string \<times> string) list"

text \<open>
  The class attributes shared by the guards: \<open>login_url\<close>,
  \<open>raise_exception\<close>, \<open>redirect_field_name\<close>.
\<close>

record access =
  login_url :: string
  raise_exception :: bool
  redirect_field_name :: string

text \<open>
  What a guard returns: the response of the next \<open>dispatch\<close> (\<open>Proceed\<close>),
  \<open>redirect_to_login(path, login_url, field)\<close>, or a response of its own.
\<close>

datatype 'a response = Proceed | RedirectToLogin string string string | Respond 'a

type_synonym 'a guard = "request \<Rightarrow> py_error + 'a response"

subsection \<open>Django's user API\<close>

fun is_authenticated :: "user \<Rightarrow> bool" where
  "is_authenticated AnonymousUser = False"
| "is_authenticated (User a) = True"

fun has_perm :: "user \<Rightarrow> string \<Rightarrow> bool" where
  "has_perm AnonymousUser p = False"
| "has_perm (User a) p = (is_active a \<and> (is_superuser a \<or> p \<in> set (user_perms a)))"

definition has_perms :: "user \<Rightarrow> string list \<Rightarrow> bool" where
  "has_perms u ps = list_all (has_perm u) ps"

text \<open>\<open>request.user.is_admin\<close>: \<open>AnonymousUser\<close> has no such attribute.\<close>

fun user_is_admin :: "user \<Rightarrow> py_error + bool" where
  "user_is_admin AnonymousUser = Inl AttributeError"
| "user_is_admin (User a) = Inr (is_admin a)"

fun user_in_groups :: "user \<Rightarrow> string list \<Rightarrow> bool" where
  "user_in_groups AnonymousUser gs = False"
| "user_in_groups (User a) gs = list_ex (\<lambda>g. g \<in> set gs) (user_groups a)"

text \<open>
  \<open>login_required\<close>: an anonymous request is redirected to \<open>settings.LOGIN_URL\<close>
  with the field \<open>next\<close>; the decorated method runs otherwise.
\<close>

definition login_required :: "string \<Rightarrow> 'a guard \<Rightarrow> 'a guard" where
  "login_required settings_login_url g req =
     (if is_authenticated (req_user req) then g req
      else Inr (RedirectToLogin (full_path req) settings_login_url ''next''))"

subsection \<open>The guards\<close>

text \<open>The refusal shared by every guard: \<open>PermissionDenied\<close> or a redirect.\<close>

definition deny :: "access \<Rightarrow> 'a guard" where
  "deny conf req =
     (if raise_exception conf then Inl PermissionDenied
      else Inr (RedirectToLogin (full_path req) (login_url conf) (redirect_field_name conf)))"

definition deterministic_login_required :: "access \<Rightarrow> (unit \<Rightarrow> bool) option \<Rightarrow> 'a guard" where
  "deterministic_login_required conf deterministic_function req =
     (case deterministic_function of
        None \<Rightarrow> Inl ImproperlyConfigured
      | Some f \<Rightarrow>
          if \<not> is_authenticated (req_user req) \<and> \<not> f () then deny conf req else Inr Proceed)"

definition login_required_mixin :: "string \<Rightarrow> 'a guard" where
  "login_required_mixin settings_login_url = login_required settings_login_url (\<lambda>_. Inr Proceed)"

definition group_required :: "string \<Rightarrow> access \<Rightarrow> string list option \<Rightarrow> 'a guard" where
  "group_required settings_login_url conf groups_required =
     login_required settings_login_url (\<lambda>req.
       case groups_required of
         None \<Rightarrow> Inl ImproperlyConfigured
       | Some gs \<Rightarrow>
           (case user_is_admin (req_user req) of
              Inl e \<Rightarrow> Inl e
            | Inr adm \<Rightarrow>
                if adm \<or> user_in_groups (req_user req) gs then Inr Proceed else deny conf req))"

text \<open>
  The configuration check of \<open>PermissionRequiredMixin\<close> and
  \<open>PermissionOrCreatorRequiredMixin\<close>: the permission is set and has the form
  \<open>app.codename\<close> (\<open>len(p.split(".")) == 2\<close>).
\<close>

definition check_permission_required :: "string option \<Rightarrow> py_error + string" where
  "check_permission_required permission_required =
     (case permission_required of
        None \<Rightarrow> Inl ImproperlyConfigured
      | Some p \<Rightarrow> if length (py_split (CHR ''.'') p) \<noteq> 2 then Inl ImproperlyConfigured else Inr p)"

definition permission_required :: "access \<Rightarrow> string option \<Rightarrow> 'a guard" where
  "permission_required conf perm req =
     (case check_permission_required perm of
        Inl e \<Rightarrow> Inl e
      | Inr p \<Rightarrow> if \<not> has_perm (req_user req) p then deny conf req else Inr Proceed)"

text \<open>
  \<open>request.user == self.get_object().created_by\<close>: model instances are equal when
  they are users with the same primary key; \<open>AnonymousUser\<close> equals no user row and
  \<open>None\<close> equals no user.
\<close>

fun user_eq :: "user \<Rightarrow> nat option \<Rightarrow> bool" where
  "user_eq (User a) (Some pk) = (user_pk a = pk)"
| "user_eq _ _ = False"

text \<open>
  \<open>PermissionOrCreatorRequiredMixin.get\<close>; \<open>get_object\<close> is the view's own
  lookup, which may raise (\<open>Http404\<close>), and returns the \<open>created_by\<close> key of
  the object.  It is called after the permission check, whatever its outcome.
\<close>

definition permission_or_creator_get :: "access \<Rightarrow> string option \<Rightarrow> py_error + nat option \<Rightarrow> 'a guard" where
  "permission_or_creator_get conf perm get_object req =
     (case check_permission_required perm of
        Inl e \<Rightarrow> Inl e
      | Inr p \<Rightarrow>
          (let has_permission = has_perm (req_user req) p in
           case get_object of
             Inl e \<Rightarrow> Inl e
           | Inr created_by \<Rightarrow>
               if \<not> has_permission \<and> \<not> user_eq (req_user req) created_by then deny conf req
               else Inr Proceed))"

text \<open>
  Django's \<open>View.dispatch\<close> for a view with this mixin: the mixin overrides
  \<open>get\<close>, and \<open>View.as_view\<close> binds \<open>head\<close> to \<open>get\<close> when the class
  defines no \<open>head\<close>, so \<open>GET\<close> and \<open>HEAD\<close> requests reach the check; other
  methods (\<open>POST\<close> of an \<open>UpdateView\<close>, \<open>DELETE\<close>, ...) go to their handlers
  unchecked.
\<close>

definition permission_or_creator_dispatch :: "access \<Rightarrow> string option \<Rightarrow> py_error + nat option \<Rightarrow> 'a guard" where
  "permission_or_creator_dispatch conf perm get_object req =
     (if req_method req \<in> {''GET'', ''HEAD''} then permission_or_creator_get conf perm get_object req
      else Inr Proceed)"

definition admin_required :: "access \<Rightarrow> 'a guard" where
  "admin_required conf req =
     (case user_is_admin (req_user req) of
        Inl e \<Rightarrow> Inl e
      | Inr adm \<Rightarrow> if \<not> adm then deny conf req else Inr Proceed)"

subsection \<open>\<open>MultiplePermissionsRequiredMixin\<close>\<close>

text \<open>
  The values the \<open>permissions\<close> dict may hold under \<open>all\<close> and \<open>any\<close>; the
  attribute itself is \<open>None\<close> in the model when it is \<open>None\<close> or not a dict.
\<close>

datatype pyval = PyNone | PyStr string | PyList "string list" | PyTuple "string list"

fun truthy :: "pyval \<Rightarrow> bool" where
  "truthy PyNone = False"
| "truthy (PyStr s) = (s \<noteq> [])"
| "truthy (PyList xs) = (xs \<noteq> [])"
| "truthy (PyTuple xs) = (xs \<noteq> [])"

fun is_seq :: "pyval \<Rightarrow> bool" where
  "is_seq (PyList xs) = True"
| "is_seq (PyTuple xs) = True"
| "is_seq _ = False"

fun seq_items :: "pyval \<Rightarrow> string list" where
  "seq_items (PyList xs) = xs"
| "seq_items (PyTuple xs) = xs"
| "seq_items _ = []"

text \<open>\<open>self.permissions.get(key) or None\<close>.\<close>

definition get_or_none :: "(string \<times> pyval) list \<Rightarrow> string \<Rightarrow> pyval option" where
  "get_or_none d key =
     (case map_of d key of Some v \<Rightarrow> if truthy v then Some v else None | None \<Rightarrow> None)"

definition check_permissions_attr :: "(string \<times> pyval) list option \<Rightarrow> py_error + (string \<times> pyval) list" where
  "check_permissions_attr permissions =
     (case permissions of None \<Rightarrow> Inl ImproperlyConfigured | Some d \<Rightarrow> Inr d)"

definition check_permissions_keys_set :: "pyval option \<Rightarrow> pyval option \<Rightarrow> py_error + unit" where
  "check_permissions_keys_set perms_all perms_any =
     (if perms_all = None \<and> perms_any = None then Inl ImproperlyConfigured else Inr ())"

definition check_perms_keys :: "pyval option \<Rightarrow> py_error + unit" where
  "check_perms_keys perms =
     (case perms of
        Some v \<Rightarrow> if truthy v \<and> \<not> is_seq v then Inl ImproperlyConfigured else Inr ()
      | None \<Rightarrow> Inr ())"

text \<open>The loop over \<open>perms_any\<close>, left at the first permission the user has.\<close>

fun any_perm_loop :: "user \<Rightarrow> string list \<Rightarrow> bool" where
  "any_perm_loop u [] = False"
| "any_perm_loop u (perm # perms) = (if has_perm u perm then True else any_perm_loop u perms)"

definition multiple_permissions_required ::
  "access \<Rightarrow> (string \<times> pyval) list option \<Rightarrow> 'a guard" where
  "multiple_permissions_required conf permissions req =
     (case check_permissions_attr permissions of
        Inl e \<Rightarrow> Inl e
      | Inr d \<Rightarrow>
          (let perms_all = get_or_none d ''all''; perms_any = get_or_none d ''any'' in
           case check_permissions_keys_set perms_all perms_any of Inl e \<Rightarrow> Inl e | Inr _ \<Rightarrow>
           case check_perms_keys perms_all of Inl e \<Rightarrow> Inl e | Inr _ \<Rightarrow>
           case check_perms_keys perms_any of Inl e \<Rightarrow> Inl e | Inr _ \<Rightarrow>
           if (case perms_all of Some v \<Rightarrow> \<not> has_perms (req_user req) (seq_items v) | None \<Rightarrow> False)
           then deny conf req
           else if (case perms_any of Some v \<Rightarrow> \<not> any_perm_loop (req_user req) (seq_items v) | None \<Rightarrow> False)
           then deny conf req
           else Inr Proceed))"

subsection \<open>\<open>FilterMixin\<close>\<close>

text \<open>
  \<open>request.GET\<close> is the query string's list of pairs; \<open>item in GET\<close> holds when
  the key occurs and \<open>GET[item]\<close> is its last value.  \<open>allowed_filters\<close> maps a
  query parameter to a queryset lookup, in the dict's order; the result is a dict,
  built with \<open>AList.update\<close>.
\<close>

definition qd_getitem :: "(string \<times> string) list \<Rightarrow> string \<Rightarrow> string option" where
  "qd_getitem get item = map_of (rev get) item"

fun filters_loop ::
  "(string \<times> string) list \<Rightarrow> (string \<times> string) list \<Rightarrow> (string \<times> string) list \<Rightarrow> (string \<times> string) list" where
  "filters_loop get [] filters = filters"
| "filters_loop get ((item, lookup) # allowed) filters =
     (case qd_getitem get item of
        Some v \<Rightarrow> if v \<noteq> [] then filters_loop get allowed (AList.update lookup v filters)
                 else filters_loop get allowed filters
      | None \<Rightarrow> filters_loop get allowed filters)"

definition get_queryset_filters :: "(string \<times> string) list \<Rightarrow> request \<Rightarrow> (string \<times> string) list" where
  "get_queryset_filters allowed_filters req = filters_loop (req_get req) allowed_filters []"

subsection \<open>Sample requests\<close>

text \<open>
  A staff user with two permissions and one group, and requests of theirs or of an
  anonymous visitor; the query string repeats \<open>q\<close> and leaves \<open>tag\<close> empty.
\<close>

definition example_user :: auth_user where
  "example_user = \<lparr>user_pk = 3, is_active = True, is_superuser = False, is_admin = False,
     user_groups = [''editors''], user_perms = [''blog.add_post'', ''user.change_user'']\<rparr>"

definition example_request :: "string \<Rightarrow> user \<Rightarrow> request" where
  "example_request method u = \<lparr>req_user = u, req_method = method, full_path = ''/blog/1/'',
     req_get = [(''q'', ''a''), (''tag'', ''''), (''q'', ''b'')]\<rparr>"

definition example_access :: access where
  "example_access = \<lparr>login_url = ''/login/'', raise_exception = False, redirect_field_name = ''next''\<rparr>"

subsection \<open>What the guards let through\<close>

lemma deny_cases:
  "deny conf req = Inl e \<longleftrightarrow> raise_exception conf \<and> e = PermissionDenied"
  "deny conf req \<noteq> Inr Proceed"
  by (auto simp: deny_def)

lemma any_perm_loop_iff [simp]: "any_perm_loop u ps = list_ex (has_perm u) ps"
  by (induction ps) simp_all

lemma check_permission_required_simps [simp]:
  "check_permission_required None = Inl ImproperlyConfigured"
  "check_permission_required (Some p) =
     (if count_list p (CHR ''.'') = 1 then Inr p else Inl ImproperlyConfigured)"
  by (simp_all add: check_permission_required_def length_py_split)

text \<open>
  C25. \<open>PermissionRequiredMixin\<close> lets a request through exactly when the permission is
  configured as \<open>app.codename\<close> (one dot) and the user has it.
\<close>

theorem permission_required_proceed_iff:
  "permission_required conf perm req = Inr Proceed \<longleftrightarrow>
     (\<exists>p. perm = Some p \<and> count_list p (CHR ''.'') = 1 \<and> has_perm (req_user req) p)"
  by (cases perm) (auto simp: permission_required_def deny_cases)

text \<open>
  C27. \<open>MultiplePermissionsRequiredMixin\<close> with a dict lets a request through exactly when
  \<open>all\<close> or \<open>any\<close> is set (non-empty), each set entry is a list or tuple, the user
  has every permission of \<open>all\<close> and at least one of \<open>any\<close>.
\<close>

theorem multiple_permissions_required_proceed_iff:
  "multiple_permissions_required conf (Some d) req = Inr Proceed \<longleftrightarrow>
     (get_or_none d ''all'' \<noteq> None \<or> get_or_none d ''any'' \<noteq> None)
     \<and> (case get_or_none d ''all'' of None \<Rightarrow> True
          | Some v \<Rightarrow> is_seq v \<and> has_perms (req_user req) (seq_items v))
     \<and> (case get_or_none d ''any'' of None \<Rightarrow> True
          | Some v \<Rightarrow> is_seq v \<and> list_ex (has_perm (req_user req)) (seq_items v))"
proof -
  have t: "get_or_none d k = Some v \<Longrightarrow> truthy v" for k v
    by (auto simp: get_or_none_def split: option.splits if_splits)
  show ?thesis
    by (auto simp: multiple_permissions_required_def check_permissions_attr_def
        check_permissions_keys_set_def check_perms_keys_def deny_cases Let_def
        dest: t split: option.splits if_splits sum.splits)
qed


text \<open>
  \<open>AdminRequiredMixin\<close> on an anonymous request raises \<open>AttributeError\<close>
  (\<open>AnonymousUser\<close> has no \<open>is_admin\<close>) instead of redirecting to the login page.
\<close>

theorem admin_required_anonymous:
  "admin_required conf (req\<lparr>req_user := AnonymousUser\<rparr>) = Inl AttributeError"
  by (simp add: admin_required_def)

text \<open>
  \<open>GroupRequiredMixin\<close> lets a request through exactly when the user is logged in,
  \<open>groups_required\<close> is set, and the user is an admin or in one of the groups.
\<close>

theorem group_required_proceed_iff:
  "group_required settings_login_url conf groups_required req = Inr Proceed \<longleftrightarrow>
     (\<exists>a gs. req_user req = User a \<and> groups_required = Some gs
        \<and> (is_admin a \<or> (\<exists>g\<in>set (user_groups a). g \<in> set gs)))"
  by (cases "req_user req")
     (auto simp: group_required_def login_required_def deny_cases list_ex_iff split: option.splits)

text \<open>
  \<open>GroupRequiredMixin\<close> redirects an anonymous request to \<open>settings.LOGIN_URL\<close>
  with \<open>next\<close>, whatever its own \<open>login_url\<close> and whether or not
  \<open>groups_required\<close> is configured.
\<close>

theorem group_required_anonymous:
  "group_required settings_login_url conf groups_required (req\<lparr>req_user := AnonymousUser\<rparr>)
     = Inr (RedirectToLogin (full_path req) settings_login_url ''next'')"
  by (simp add: group_required_def login_required_def)

text \<open>
  \<open>PermissionOrCreatorRequiredMixin.get\<close> lets a request through exactly when the
  permission is well configured, the object is found, and the user has the permission or
  created the object.
\<close>

theorem permission_or_creator_get_proceed_iff:
  "permission_or_creator_get conf perm get_object req = Inr Proceed \<longleftrightarrow>
     (\<exists>p created_by. perm = Some p \<and> count_list p (CHR ''.'') = 1 \<and> get_object = Inr created_by
        \<and> (has_perm (req_user req) p \<or> user_eq (req_user req) created_by))"
  by (cases perm) (auto simp: permission_or_creator_get_def deny_cases split: sum.splits)

text \<open>
  C26. A view with \<open>PermissionOrCreatorRequiredMixin\<close> lets a request through
  exactly when it is neither \<open>GET\<close> nor \<open>HEAD\<close> (those methods are not checked at
  all, whatever the permission, the creator or the configuration) or when the permission
  is well configured, the object is found and the user has the permission or created
  the object.
\<close>

theorem permission_or_creator_dispatch_proceed_iff:
  "permission_or_creator_dispatch conf perm get_object req = Inr Proceed \<longleftrightarrow>
     req_method req \<notin> {''GET'', ''HEAD''}
     \<or> (\<exists>p created_by. perm = Some p \<and> count_list p (CHR ''.'') = 1 \<and> get_object = Inr created_by
          \<and> (has_perm (req_user req) p \<or> user_eq (req_user req) created_by))"
  by (simp add: permission_or_creator_dispatch_def permission_or_creator_get_proceed_iff)

text \<open>
  \<open>DeterministicLoginRequiredMixin\<close> lets a request through exactly when the function
  is configured and the user is logged in or the function returns \<open>True\<close>.
\<close>

theorem deterministic_login_required_proceed_iff:
  "deterministic_login_required conf deterministic_function req = Inr Proceed \<longleftrightarrow>
     (\<exists>f. deterministic_function = Some f \<and> (is_authenticated (req_user req) \<or> f ()))"
  by (auto simp: deterministic_login_required_def deny_cases split: option.splits)

lemma filters_loop_other:
  "k \<notin> snd ` set allowed \<Longrightarrow> map_of (filters_loop get allowed acc) k = map_of acc k"
  by (induction get allowed acc rule: filters_loop.induct)
     (auto simp: update_conv' split: option.splits)

lemma filters_loop_key:
  "distinct (map snd allowed) \<Longrightarrow> (i, k) \<in> set allowed \<Longrightarrow>
   map_of (filters_loop get allowed acc) k =
     (case qd_getitem get i of Some v \<Rightarrow> if v \<noteq> [] then Some v else map_of acc k | None \<Rightarrow> map_of acc k)"
proof (induction get allowed acc rule: filters_loop.induct)
  case (2 get item lookup allowed filters)
  show ?case
  proof (cases "(i, k) = (item, lookup)")
    case True
    with 2(4) have "k \<notin> snd ` set allowed" by (auto simp: image_iff)
    with True show ?thesis
      by (auto simp: filters_loop_other update_conv' split: option.splits)
  next
    case False
    with 2(4,5) have "(i, k) \<in> set allowed" "lookup \<noteq> k" by (auto simp: image_iff)
    with 2 show ?thesis by (auto simp: update_conv' split: option.splits)
  qed
qed simp

text \<open>
  When the allowed filters name distinct lookups, \<open>get_queryset_filters\<close> maps a
  lookup to a value exactly when its query parameter occurs in the request with that
  value as its last, non-empty value.
\<close>

theorem get_queryset_filters_lookup:
  assumes dist: "distinct (map snd allowed_filters)"
  shows "map_of (get_queryset_filters allowed_filters req) k = Some v \<longleftrightarrow>
           (\<exists>i. (i, k) \<in> set allowed_filters \<and> qd_getitem (req_get req) i = Some v \<and> v \<noteq> [])"
proof (cases "k \<in> snd ` set allowed_filters")
  case True
  then obtain i where ik: "(i, k) \<in> set allowed_filters" by force
  have uniq: "j = i" if "(j, k) \<in> set allowed_filters" for j
  proof -
    have "snd (j, k) = snd (i, k)" by simp
    from distinct_map_eq [OF dist that ik this] show ?thesis by simp
  qed
  have r: "map_of (get_queryset_filters allowed_filters req) k =
      (case qd_getitem (req_get req) i of Some v \<Rightarrow> if v \<noteq> [] then Some v else None | None \<Rightarrow> None)"
    using filters_loop_key [OF dist ik, of "req_get req" "[]"]
    by (simp add: get_queryset_filters_def split: option.splits)
  show ?thesis
  proof
    assume "map_of (get_queryset_filters allowed_filters req) k = Some v"
    with r ik show "\<exists>i. (i, k) \<in> set allowed_filters \<and> qd_getitem (req_get req) i = Some v \<and> v \<noteq> []"
      by (auto split: option.splits if_splits)
  next
    assume "\<exists>i. (i, k) \<in> set allowed_filters \<and> qd_getitem (req_get req) i = Some v \<and> v \<noteq> []"
    then obtain j where "(j, k) \<in> set allowed_filters" "qd_getitem (req_get req) j = Some v" "v \<noteq> []"
      by blast
    with uniq r show "map_of (get_queryset_filters allowed_filters req) k = Some v" by simp
  qed
next
  case False
  have "map_of (get_queryset_filters allowed_filters req) k = None"
    using filters_loop_other [OF False] by (simp add: get_queryset_filters_def)
  with False show ?thesis by force
qed


subsection \<open>Witnesses\<close>

theorem multiple_permissions_required_proceed_iff_witness:
  "multiple_permissions_required example_access
     (Some [(''all'', PyList [''blog.add_post'']), (''any'', PyTuple [''blog.delete_post'', ''user.change_user''])])
     (example_request ''GET'' (User example_user)) = Inr Proceed"
  by (rule multiple_permissions_required_proceed_iff [THEN iffD2])
     (simp add: get_or_none_def has_perms_def example_request_def example_user_def)

theorem permission_or_creator_dispatch_proceed_iff_witness:
  "permission_or_creator_dispatch example_access None (Inl Http404) (example_request ''POST'' AnonymousUser)
     = Inr Proceed
   \<and> permission_or_creator_dispatch example_access (Some ''blog.add_post'') (Inr (Some 7))
       (example_request ''HEAD'' AnonymousUser) \<noteq> Inr Proceed"
  using permission_or_creator_dispatch_proceed_iff [of example_access None "Inl Http404" "example_request ''POST'' AnonymousUser"]
        permission_or_creator_dispatch_proceed_iff [of example_access "Some ''blog.add_post''" "Inr (Some 7)"
          "example_request ''HEAD'' AnonymousUser"]
  by (simp add: example_request_def)

theorem get_queryset_filters_lookup_witness:
  "map_of (get_queryset_filters [(''q'', ''title__icontains''), (''tag'', ''tags__slug'')]
     (example_request ''GET'' AnonymousUser)) ''title__icontains'' = Some ''b''"
  using get_queryset_filters_lookup [where allowed_filters = "[(''q'', ''title__icontains''), (''tag'', ''tags__slug'')]"
      and req = "example_request ''GET'' AnonymousUser" and k = "''title__icontains''" and v = "''b''"]
  by (simp add: qd_getitem_def example_request_def)

end
