(* ===== verification/Paginator.thy ===== *)
theory Paginator
  imports Mixins
begin

text \<open>
  \<open>AjaxMorePaginationMixin\<close> (\<open>src/tunobase/core/mixins.py\<close>) and the part of
  Django's \<open>Paginator\<close> and \<open>Page\<close> it uses, with the defaults the mixin leaves
  in place (\<open>orphans = 0\<close>, \<open>allow_empty_first_page = True\<close>).  The object list
  is a queryset: slicing it with a negative bound fails Django's assertion.  Page
  numbers and \<open>per_page\<close> are Python integers (\<open>int\<close>); the rendered
  \<open>content\<close> of the JSON answer is represented by the page's objects.
\<close>

record 'a paginator =
  p_objects :: "'a list"
  per_page :: int

record 'a page =
  page_objects :: "'a list"
  page_number :: int

text \<open>
  The \<open>per_page\<close> argument: a query-string value, or the view's
  \<open>paginate_by\<close> attribute (an integer or \<open>None\<close>); \<open>int()\<close> converts it.
\<close>

datatype per_page_arg = PerPageStr string | PerPageInt int | PerPageNone

definition paginator_make :: "'a list \<Rightarrow> per_page_arg \<Rightarrow> py_error + 'a paginator" where
  "paginator_make objs arg =
     (case arg of
        PerPageStr s \<Rightarrow>
          (case py_int s of None \<Rightarrow> Inl ValueError | Some n \<Rightarrow> Inr \<lparr>p_objects = objs, per_page = n\<rparr>)
      | PerPageInt n \<Rightarrow> Inr \<lparr>p_objects = objs, per_page = n\<rparr>
      | PerPageNone \<Rightarrow> Inl TypeError)"

definition p_count :: "'a paginator \<Rightarrow> int" where
  "p_count p = int (length (p_objects p))"

text \<open>
  \<open>num_pages = int(ceil(max(1, count) / float(per_page)))\<close>, written with floor
  division (\<open>\<lceil>a / b\<rceil> = - \<lfloor>- a / b\<rfloor>\<close>); \<open>per_page = 0\<close>
  raises \<open>ZeroDivisionError\<close>.
\<close>

definition num_pages :: "'a paginator \<Rightarrow> py_error + int" where
  "num_pages p =
     (if per_page p = 0 then Inl ZeroDivisionError
      else Inr (- ((- max 1 (p_count p)) div per_page p)))"

definition validate_number :: "'a paginator \<Rightarrow> int \<Rightarrow> py_error + int" where
  "validate_number p n =
     (case num_pages p of
        Inl e \<Rightarrow> Inl e
      | Inr np \<Rightarrow>
          if n < 1 then Inl EmptyPage
          else if n > np then (if n = 1 then Inr n else Inl EmptyPage)
          else Inr n)"

text \<open>\<open>queryset[bottom:top]\<close>: Django refuses negative bounds.\<close>

definition qs_slice :: "'a list \<Rightarrow> int \<Rightarrow> int \<Rightarrow> py_error + 'a list" where
  "qs_slice xs bottom top' =
     (if bottom < 0 \<or> top' < 0 then Inl AssertionError
      else Inr (take (nat top' - nat bottom) (drop (nat bottom) xs)))"

definition paginator_page_number :: "'a paginator \<Rightarrow> int \<Rightarrow> py_error + 'a page" where
  "paginator_page_number p number =
     (case validate_number p number of
        Inl e \<Rightarrow> Inl e
      | Inr n \<Rightarrow>
          (let bottom = (n - 1) * per_page p;
               top' = (if bottom + per_page p \<ge> p_count p then p_count p else bottom + per_page p)
           in case qs_slice (p_objects p) bottom top' of
                Inl e \<Rightarrow> Inl e
              | Inr objs \<Rightarrow> Inr \<lparr>page_objects = objs, page_number = n\<rparr>))"

text \<open>\<open>paginator.page(page)\<close> with the query-string value: \<open>int()\<close> failing is \<open>PageNotAnInteger\<close>.\<close>

definition paginator_page :: "'a paginator \<Rightarrow> string \<Rightarrow> py_error + 'a page" where
  "paginator_page p s =
     (case py_int s of None \<Rightarrow> Inl PageNotAnInteger | Some n \<Rightarrow> paginator_page_number p n)"

text \<open>
  The accessors of \<open>Page\<close> the mixin reads, on a page the paginator returned
  (\<open>num_pages\<close> is then known).
\<close>

definition has_next :: "'a paginator \<Rightarrow> 'a page \<Rightarrow> bool" where
  "has_next p pg = (case num_pages p of Inr np \<Rightarrow> page_number pg < np | Inl _ \<Rightarrow> False)"

definition has_previous :: "'a page \<Rightarrow> bool" where
  "has_previous pg = (page_number pg > 1)"

definition start_index :: "'a paginator \<Rightarrow> 'a page \<Rightarrow> int" where
  "start_index p pg = (if p_count p = 0 then 0 else per_page p * (page_number pg - 1) + 1)"

definition end_index :: "'a paginator \<Rightarrow> 'a page \<Rightarrow> int" where
  "end_index p pg =
     (if num_pages p = Inr (page_number pg) then p_count p else page_number pg * per_page p)"

subsection \<open>\<open>AjaxMorePaginationMixin.dispatch\<close>\<close>

record 'a page_json =
  content :: "'a list"
  json_has_previous :: bool
  json_has_next :: bool
  previous_page_number :: int
  next_page_number :: int
  json_page_number :: int
  json_start_index :: int
  json_end_index :: int

text \<open>
  The JSON answer for a page; \<open>previous_page_number()\<close> and
  \<open>next_page_number()\<close> validate the neighbour's number again and are called only
  when the neighbour exists.
\<close>

definition page_response :: "'a paginator \<Rightarrow> 'a page \<Rightarrow> py_error + 'a page_json" where
  "page_response p pg =
     (let hp = has_previous pg; hn = has_next p pg in
      case (if hp then validate_number p (page_number pg - 1) else Inr 0) of
        Inl e \<Rightarrow> Inl e
      | Inr prev \<Rightarrow>
          (case (if hn then validate_number p (page_number pg + 1) else Inr 0) of
             Inl e \<Rightarrow> Inl e
           | Inr next \<Rightarrow>
               Inr \<lparr>content = page_objects pg, json_has_previous = hp, json_has_next = hn,
                    previous_page_number = prev, next_page_number = next,
                    json_page_number = page_number pg,
                    json_start_index = start_index p pg, json_end_index = end_index p pg\<rparr>))"

text \<open>
  \<open>dispatch\<close>: \<open>partial_template_name\<close> must be set; without a \<open>page\<close>
  parameter the request goes to the view; otherwise the view's \<open>get_object\<close> (when
  it has one) runs, and the queryset is paginated by the \<open>paginate_by\<close> parameter
  or the view's attribute.
\<close>

definition ajax_more_dispatch ::
  "string option \<Rightarrow> (py_error + unit) option \<Rightarrow> 'a list \<Rightarrow> per_page_arg \<Rightarrow> request
   \<Rightarrow> py_error + 'a page_json response" where
  "ajax_more_dispatch partial_template_name get_object queryset paginate_by_attr req =
     (if partial_template_name = None then Inl ImproperlyConfigured
      else case qd_getitem (req_get req) ''page'' of
        None \<Rightarrow> Inr Proceed
      | Some page \<Rightarrow>
          (case get_object of Some (Inl e) \<Rightarrow> Inl e | _ \<Rightarrow>
           let paginate_by = (case qd_getitem (req_get req) ''paginate_by'' of
                                Some s \<Rightarrow> PerPageStr s | None \<Rightarrow> paginate_by_attr) in
           case paginator_make queryset paginate_by of Inl e \<Rightarrow> Inl e | Inr p \<Rightarrow>
           case paginator_page p page of Inl e \<Rightarrow> Inl e | Inr pg \<Rightarrow>
           case page_response p pg of Inl e \<Rightarrow> Inl e | Inr j \<Rightarrow> Inr (Respond j)))"

subsection \<open>A sample request\<close>

text \<open>A request for page \<open>s\<close> with no \<open>paginate_by\<close> parameter.\<close>

definition example_page_request :: "string \<Rightarrow> request" where
  "example_page_request s =
     \<lparr>req_user = AnonymousUser, req_method = ''GET'', full_path = ''/news/'', req_get = [(''page'', s)]\<rparr>"

subsection \<open>Page counts and slices\<close>

lemma num_pages_pos_bounds:
  assumes k: "0 < per_page p" and np: "num_pages p = Inr np"
  shows "1 \<le> np" "(np - 1) * per_page p < max 1 (p_count p)" "max 1 (p_count p) \<le> np * per_page p"
proof -
  let ?k = "per_page p" and ?a = "max 1 (p_count p)"
  have npq: "np = - ((- ?a) div ?k)" using np k by (simp add: num_pages_def)
  have dm: "(- ?a) div ?k * ?k + (- ?a) mod ?k = - ?a" by (rule div_mult_mod_eq)
  have r0: "0 \<le> (- ?a) mod ?k" and rk: "(- ?a) mod ?k < ?k" using k by simp_all
  have up: "np * ?k = ?a + (- ?a) mod ?k"
  proof -
    have "np * ?k = - ((- ?a) div ?k * ?k)" using npq by simp
    then show ?thesis using dm by linarith
  qed
  show "max 1 (p_count p) \<le> np * per_page p" using up r0 by simp
  show "(np - 1) * per_page p < max 1 (p_count p)" using up rk by (simp add: algebra_simps)
  have "0 < np * ?k" using up r0 by simp
  with k show "1 \<le> np" by (simp add: zero_less_mult_iff)
qed

lemma paginator_page_number_valid:
  assumes k: "0 < per_page p" and np: "num_pages p = Inr np" and n: "1 \<le> n" "n \<le> np"
  shows "paginator_page_number p n =
           Inr \<lparr>page_objects = take (nat (per_page p)) (drop (nat ((n - 1) * per_page p)) (p_objects p)),
                page_number = n\<rparr>"
proof -
  let ?k = "per_page p" and ?b = "(n - 1) * per_page p" and ?xs = "p_objects p"
  have b0: "0 \<le> ?b" using k n by simp
  have v: "validate_number p n = Inr n" using np n by (simp add: validate_number_def)
  have blt: "?b < max 1 (p_count p)"
    using num_pages_pos_bounds(2) [OF k np] n k by (meson le_less_trans mult_right_mono diff_right_mono less_imp_le)
  show ?thesis
  proof (cases "?b + ?k \<ge> p_count p")
    case True
    have "take (nat (p_count p) - nat ?b) (drop (nat ?b) ?xs) = take (nat ?k) (drop (nat ?b) ?xs)"
      using True b0 k by (simp add: p_count_def nat_diff_distrib' min_def)
    with True b0 k v show ?thesis
      by (simp add: paginator_page_number_def qs_slice_def p_count_def)
  next
    case False
    then show ?thesis using b0 k v
      by (simp add: paginator_page_number_def qs_slice_def nat_add_distrib)
  qed
qed

lemma validate_number_Inr:
  assumes k: "0 < per_page p" and v: "validate_number p n = Inr m"
  shows "m = n \<and> (\<exists>np. num_pages p = Inr np \<and> 1 \<le> n \<and> n \<le> np)"
proof -
  obtain np where np: "num_pages p = Inr np" using k by (simp add: num_pages_def)
  have "1 \<le> np" by (rule num_pages_pos_bounds(1) [OF k np])
  with v np show ?thesis by (auto simp: validate_number_def split: if_splits)
qed

lemma paginator_page_number_Inr:
  assumes k: "0 < per_page p" and pg: "paginator_page_number p n = Inr pg"
  shows "\<exists>np. num_pages p = Inr np \<and> 1 \<le> n \<and> n \<le> np
           \<and> pg = \<lparr>page_objects = take (nat (per_page p)) (drop (nat ((n - 1) * per_page p)) (p_objects p)),
                   page_number = n\<rparr>"
proof -
  from pg obtain m where "validate_number p n = Inr m"
    by (auto simp: paginator_page_number_def split: sum.splits)
  with validate_number_Inr [OF k] obtain np where np: "num_pages p = Inr np" "1 \<le> n" "n \<le> np"
    by blast
  with pg paginator_page_number_valid [OF k np] show ?thesis by simp
qed

lemma concat_blocks: "concat (map (\<lambda>i. take k (drop (i * k) xs)) [0..<m]) = take (m * k) xs"
proof (induction m)
  case (Suc m)
  have "take (m * k) xs @ take k (drop (m * k) xs) = take (m * k + k) xs"
    by (rule take_add [symmetric])
  with Suc show ?case by (simp add: add.commute)
qed simp

lemma upto_one_nat: "[1..int m] = map (\<lambda>i. int i + 1) [0..<m]"
proof (induction m)
  case (Suc m)
  have "[1..int (Suc m)] = [1..int m] @ [int m + 1]"
    using upto_rec2 [of 1 "int m + 1"] by (simp add: add.commute)
  with Suc show ?case by simp
qed simp

text \<open>
  With a positive \<open>per_page\<close>, the pages \<open>1 .. num_pages\<close> of the paginator,
  concatenated, give back the whole object list: every object is on exactly one page,
  in order.
\<close>

theorem pages_partition:
  assumes k: "0 < per_page p" and np: "num_pages p = Inr np"
  shows "concat (map (\<lambda>n. case paginator_page_number p n of Inl e \<Rightarrow> [] | Inr pg \<Rightarrow> page_objects pg)
                    [1..np]) = p_objects p"
proof -
  let ?k = "nat (per_page p)" and ?xs = "p_objects p"
  have np1: "1 \<le> np" by (rule num_pages_pos_bounds(1) [OF k np])
  have cover: "int (length ?xs) \<le> np * per_page p"
    using num_pages_pos_bounds(3) [OF k np] by (simp add: p_count_def)
  have e1: "map (\<lambda>n. case paginator_page_number p n of Inl e \<Rightarrow> [] | Inr pg \<Rightarrow> page_objects pg) [1..np]
      = map (\<lambda>n. take ?k (drop (nat ((n - 1) * per_page p)) ?xs)) [1..np]"
    by (rule map_cong [OF refl]) (simp add: paginator_page_number_valid [OF k np])
  have e2: "[1..np] = map (\<lambda>i. int i + 1) [0..<nat np]"
    using upto_one_nat [of "nat np"] np1 by simp
  have e3: "map (\<lambda>n. take ?k (drop (nat ((n - 1) * per_page p)) ?xs)) (map (\<lambda>i. int i + 1) [0..<nat np])
      = map (\<lambda>i. take ?k (drop (i * ?k) ?xs)) [0..<nat np]"
    using k by (simp add: nat_mult_distrib)
  have "concat (map (\<lambda>n. case paginator_page_number p n of Inl e \<Rightarrow> [] | Inr pg \<Rightarrow> page_objects pg) [1..np])
      = take (nat np * ?k) ?xs"
    unfolding e1 by (simp only: e2 e3 concat_blocks)
  moreover have "length ?xs \<le> nat np * ?k"
    using cover k np1 by (simp add: nat_mult_distrib [symmetric] le_nat_iff)
  ultimately show ?thesis by simp
qed

text \<open>
  A page the paginator returns for a non-empty list holds exactly the objects from
  \<open>start_index\<close> to \<open>end_index\<close> (1-based, inclusive), and
  \<open>1 \<le> start_index \<le> end_index \<le> count\<close>.
\<close>

lemma page_slice_bounds:
  assumes k: "0 < per_page p" and pg: "paginator_page_number p n = Inr pg" and c: "0 < p_count p"
  shows "1 \<le> start_index p pg \<and> start_index p pg \<le> end_index p pg \<and> end_index p pg \<le> p_count p
         \<and> page_objects pg = drop (nat (start_index p pg - 1)) (take (nat (end_index p pg)) (p_objects p))"
proof -
  let ?k = "per_page p" and ?xs = "p_objects p"
  obtain np where np: "num_pages p = Inr np" and n: "1 \<le> n" "n \<le> np"
    and pgv: "pg = \<lparr>page_objects = take (nat ?k) (drop (nat ((n - 1) * ?k)) ?xs), page_number = n\<rparr>"
    using paginator_page_number_Inr [OF k pg] by blast
  have lo: "(np - 1) * ?k < p_count p" using num_pages_pos_bounds(2) [OF k np] c by simp
  have hi: "p_count p \<le> np * ?k" using num_pages_pos_bounds(3) [OF k np] c by simp
  have b: "(n - 1) * ?k \<le> (np - 1) * ?k" using n k by (simp add: mult_right_mono)
  have len: "p_count p = int (length ?xs)" by (simp add: p_count_def)
  have st: "start_index p pg = (n - 1) * ?k + 1" using c pgv by (simp add: start_index_def)
  show ?thesis
  proof (cases "n = np")
    case True
    have en: "end_index p pg = p_count p" using True np pgv by (simp add: end_index_def)
    have "length ?xs - nat ((n - 1) * ?k) \<le> nat ?k"
      using hi True k len by (simp add: algebra_simps nat_diff_distrib')
    then have "take (nat ?k) (drop (nat ((n - 1) * ?k)) ?xs) = drop (nat ((n - 1) * ?k)) ?xs" by simp
    with True st en lo len pgv k n show ?thesis by simp
  next
    case False
    with n have "n + 1 \<le> np" by simp
    then have "n * ?k \<le> (np - 1) * ?k" using k by (simp add: mult_right_mono)
    with lo have s3: "n * ?k \<le> p_count p" by simp
    have en: "end_index p pg = n * ?k" using False np pgv by (simp add: end_index_def)
    have s1: "1 \<le> start_index p pg" using st n k by simp
    have "(n - 1) * ?k + 1 \<le> n * ?k" using k by (simp add: algebra_simps)
    with st en have s2: "start_index p pg \<le> end_index p pg" by simp
    have "nat (n * ?k) = nat ((n - 1) * ?k) + nat ?k"
      using k n by (simp add: algebra_simps nat_add_distrib [symmetric])
    then have "take (nat ?k) (drop (nat ((n - 1) * ?k)) ?xs)
        = drop (nat ((n - 1) * ?k)) (take (nat (n * ?k)) ?xs)"
      by (simp add: drop_take)
    with st en pgv have "page_objects pg = drop (nat (start_index p pg - 1)) (take (nat (end_index p pg)) ?xs)"
      by simp
    with s1 s2 s3 en show ?thesis by simp
  qed
qed

text \<open>A valid page asked of \<open>AjaxMorePaginationMixin.dispatch\<close>.\<close>

lemma ajax_more_dispatch_valid_page:
  assumes k: "0 < k" and pg: "qd_getitem (req_get req) ''page'' = Some s" and n: "py_int s = Some n"
    and pb: "qd_getitem (req_get req) ''paginate_by'' = None"
    and np: "num_pages \<lparr>p_objects = qs, per_page = k\<rparr> = Inr np" and r: "1 \<le> n" "n \<le> np"
  shows "ajax_more_dispatch (Some t) None qs (PerPageInt k) req =
           Inr (Respond \<lparr>content = take (nat k) (drop (nat ((n - 1) * k)) qs),
             json_has_previous = (1 < n), json_has_next = (n < np),
             previous_page_number = (if 1 < n then n - 1 else 0),
             next_page_number = (if n < np then n + 1 else 0),
             json_page_number = n,
             json_start_index = (if qs = [] then 0 else (n - 1) * k + 1),
             json_end_index = (if n = np then int (length qs) else n * k)\<rparr>)"
proof -
  let ?p = "\<lparr>p_objects = qs, per_page = k\<rparr>"
  have kp: "0 < per_page ?p" using k by simp
  have page: "paginator_page_number ?p n =
      Inr \<lparr>page_objects = take (nat k) (drop (nat ((n - 1) * k)) qs), page_number = n\<rparr>"
    using paginator_page_number_valid [OF kp np r] by simp
  have prev: "validate_number ?p (n - 1) = Inr (n - 1)" if "1 < n"
    using that np r by (simp add: validate_number_def)
  have nxt: "validate_number ?p (n + 1) = Inr (n + 1)" if "n < np"
    using that np r by (simp add: validate_number_def)
  let ?pg = "\<lparr>page_objects = take (nat k) (drop (nat ((n - 1) * k)) qs), page_number = n\<rparr>"
  have hn: "has_next ?p ?pg = (n < np)" using np by (simp add: has_next_def)
  have hp: "has_previous ?pg = (1 < n)" by (simp add: has_previous_def)
  have si: "start_index ?p ?pg = (if qs = [] then 0 else (n - 1) * k + 1)"
    by (simp add: start_index_def p_count_def)
  have ei: "end_index ?p ?pg = (if n = np then int (length qs) else n * k)"
    using np by (auto simp: end_index_def p_count_def)
  have resp: "page_response ?p ?pg =
      Inr \<lparr>content = take (nat k) (drop (nat ((n - 1) * k)) qs),
             json_has_previous = (1 < n), json_has_next = (n < np),
             previous_page_number = (if 1 < n then n - 1 else 0),
             next_page_number = (if n < np then n + 1 else 0),
             json_page_number = n,
             json_start_index = (if qs = [] then 0 else (n - 1) * k + 1),
             json_end_index = (if n = np then int (length qs) else n * k)\<rparr>"
    unfolding page_response_def Let_def hn hp si ei
    by (cases "1 < n"; cases "n < np") (simp_all add: prev nxt)
  show ?thesis
    using pg n pb page resp
    by (simp add: ajax_more_dispatch_def paginator_make_def paginator_page_def)
qed

text \<open>
  C29. \<open>AjaxMorePaginationMixin.dispatch\<close> asked for a valid page \<open>n\<close> with a positive
  \<open>paginate_by\<close> answers with that page's slice of the queryset, the neighbour flags
  and numbers, and the page's start and end index.
\<close>

theorem ajax_more_dispatch_page:
  assumes k: "0 < k" and pg: "qd_getitem (req_get req) ''page'' = Some s" and n: "py_int s = Some n"
    and pb: "qd_getitem (req_get req) ''paginate_by'' = None"
    and np: "num_pages \<lparr>p_objects = qs, per_page = k\<rparr> = Inr np" and r: "1 \<le> n" "n \<le> np"
  shows "ajax_more_dispatch (Some t) None qs (PerPageInt k) req =
           Inr (Respond \<lparr>content = take (nat k) (drop (nat ((n - 1) * k)) qs),
             json_has_previous = (1 < n), json_has_next = (n < np),
             previous_page_number = (if 1 < n then n - 1 else 0),
             next_page_number = (if n < np then n + 1 else 0),
             json_page_number = n,
             json_start_index = (if qs = [] then 0 else (n - 1) * k + 1),
             json_end_index = (if n = np then int (length qs) else n * k)\<rparr>)"
  using ajax_more_dispatch_valid_page [OF assms] .

text \<open>
  C30. With a positive \<open>paginate_by\<close> attribute and no \<open>paginate_by\<close> parameter,
  the only errors \<open>AjaxMorePaginationMixin.dispatch\<close> raises are
  \<open>PageNotAnInteger\<close> and \<open>EmptyPage\<close>.
\<close>

theorem ajax_more_dispatch_errors:
  assumes k: "0 < k" and pb: "qd_getitem (req_get req) ''paginate_by'' = None"
    and e: "ajax_more_dispatch (Some t) None qs (PerPageInt k) req = Inl err"
  shows "err = PageNotAnInteger \<or> err = EmptyPage"
proof -
  let ?p = "\<lparr>p_objects = qs, per_page = k\<rparr>"
  have kp: "0 < per_page ?p" using k by simp
  obtain np where np: "num_pages ?p = Inr np" using k by (simp add: num_pages_def)
  have np1: "1 \<le> np" by (rule num_pages_pos_bounds(1) [OF kp np])
  obtain s where s: "qd_getitem (req_get req) ''page'' = Some s"
    using e by (cases "qd_getitem (req_get req) ''page''") (simp_all add: ajax_more_dispatch_def)
  show ?thesis
  proof (cases "py_int s")
    case None
    with e s pb show ?thesis by (simp add: ajax_more_dispatch_def paginator_make_def paginator_page_def)
  next
    case (Some n)
    show ?thesis
    proof (cases "1 \<le> n \<and> n \<le> np")
      case True
      with ajax_more_dispatch_valid_page [OF k s Some pb np] e show ?thesis by simp
    next
      case False
      then have "validate_number ?p n = Inl EmptyPage"
        using np np1 by (auto simp: validate_number_def)
      with e s pb Some show ?thesis
        by (simp add: ajax_more_dispatch_def paginator_make_def paginator_page_def paginator_page_number_def)
    qed
  qed
qed


subsection \<open>Witnesses\<close>

theorem pages_partition_witness:
  "concat (map (\<lambda>n. case paginator_page_number \<lparr>p_objects = [1..<11], per_page = 3\<rparr> n of
                      Inl e \<Rightarrow> [] | Inr pg \<Rightarrow> page_objects pg) [1..4]) = [1..<11]"
  using pages_partition [of "\<lparr>p_objects = [1..<11::nat], per_page = 3\<rparr>" 4]
  by (simp add: num_pages_def p_count_def)

theorem page_slice_bounds_witness:
  "paginator_page_number \<lparr>p_objects = [1..<11::nat], per_page = 3\<rparr> 4 = Inr \<lparr>page_objects = [10], page_number = 4\<rparr>
   \<and> start_index \<lparr>p_objects = [1..<11::nat], per_page = 3\<rparr> \<lparr>page_objects = [10], page_number = 4\<rparr> = 10
   \<and> end_index \<lparr>p_objects = [1..<11::nat], per_page = 3\<rparr> \<lparr>page_objects = [10], page_number = 4\<rparr> = 10"
proof -
  have pg: "paginator_page_number \<lparr>p_objects = [1..<11::nat], per_page = 3\<rparr> 4
      = Inr \<lparr>page_objects = [10], page_number = 4\<rparr>"
    by (simp add: paginator_page_number_def validate_number_def num_pages_def p_count_def qs_slice_def)
  from page_slice_bounds [OF _ pg] pg show ?thesis
    by (simp add: start_index_def end_index_def num_pages_def p_count_def)
qed

theorem ajax_more_dispatch_page_witness:
  "ajax_more_dispatch (Some ''news/list.html'') None [1..<11::nat] (PerPageInt 3) (example_page_request ''2'')
     = Inr (Respond \<lparr>content = [4, 5, 6], json_has_previous = True, json_has_next = True,
         previous_page_number = 1, next_page_number = 3, json_page_number = 2,
         json_start_index = 4, json_end_index = 6\<rparr>)"
proof -
  have np: "num_pages \<lparr>p_objects = [1..<11::nat], per_page = 3\<rparr> = Inr 4"
    by (simp add: num_pages_def p_count_def)
  have q: "qd_getitem (req_get (example_page_request ''2'')) ''page'' = Some ''2''"
    "qd_getitem (req_get (example_page_request ''2'')) ''paginate_by'' = None"
    by (simp_all add: qd_getitem_def example_page_request_def)
  have i: "py_int ''2'' = Some 2"
    by (simp add: py_int_def py_strip_def is_py_space_def unsigned_int_def is_digit_def digits_value_def)
  from ajax_more_dispatch_page [OF _ q(1) i q(2) np, of "''news/list.html''"] show ?thesis
    by (simp add: upt_rec)
qed

theorem ajax_more_dispatch_errors_witness:
  "ajax_more_dispatch (Some ''news/list.html'') None [1..<11::nat] (PerPageInt 3) (example_page_request ''two'')
     = Inl PageNotAnInteger"
proof -
  have q: "qd_getitem (req_get (example_page_request ''two'')) ''paginate_by'' = None"
    by (simp add: qd_getitem_def example_page_request_def)
  have e: "ajax_more_dispatch (Some ''news/list.html'') None [1..<11::nat] (PerPageInt 3) (example_page_request ''two'')
     = Inl PageNotAnInteger"
    by (simp add: ajax_more_dispatch_def qd_getitem_def example_page_request_def paginator_make_def
        paginator_page_def py_int_def py_strip_def is_py_space_def unsigned_int_def is_digit_def)
  from ajax_more_dispatch_errors [OF _ q e] e show ?thesis by simp
qed

end
