(* ===== verification/Utils.thy ===== *)
theory Utils
  imports Query "HOL-Library.AList"
begin

text \<open>
  The helpers of \<open>src/tunobase/core/utils.py\<close> and the session throttle of
  \<open>src/tunobase/core/throttling.py\<close>.  A Python \<open>dict\<close> built from pairs is an
  association list in insertion order (a later pair overwrites an earlier key); Python 2
  iterates a dict in an unspecified order, and the lemmas on \<open>get_choice_value\<close>
  hold for every order.  The session is a map from keys to lists of timestamps;
  \<open>strftime('%Y-%m-%d %H:%M:%S')\<close> and \<open>parse_datetime\<close> keep whole seconds of
  UTC, so a timestamp is an \<open>int\<close> count of seconds.
\<close>

subsection \<open>\<open>get_choice_value\<close>\<close>

definition py_dict :: "('k \<times> 'v) list \<Rightarrow> ('k \<times> 'v) list" where
  "py_dict kvs = foldl (\<lambda>d (k, v). AList.update k v d) [] kvs"

fun choice_loop :: "'v \<Rightarrow> ('k \<times> 'v) list \<Rightarrow> 'k option" where
  "choice_loop display [] = None"
| "choice_loop display ((key, v) # rest) = (if v = display then Some key else choice_loop display rest)"

definition get_choice_value :: "'v \<Rightarrow> ('k \<times> 'v) list \<Rightarrow> 'k option" where
  "get_choice_value choice_display choices = choice_loop choice_display (py_dict choices)"

subsection \<open>\<open>get_client_ip\<close>\<close>

text \<open>
  \<open>request.META\<close> as a map; a missing \<open>REMOTE_ADDR\<close> gives \<open>None\<close>.  An empty
  \<open>X-Forwarded-For\<close> header is false and falls through to \<open>REMOTE_ADDR\<close>.
\<close>

definition get_client_ip :: "(string \<rightharpoonup> string) \<Rightarrow> string option" where
  "get_client_ip meta =
     (case meta ''HTTP_X_FORWARDED_FOR'' of
        Some x_forwarded_for \<Rightarrow>
          if x_forwarded_for \<noteq> [] then Some (hd (py_split (CHR '','') x_forwarded_for))
          else meta ''REMOTE_ADDR''
      | None \<Rightarrow> meta ''REMOTE_ADDR'')"

subsection \<open>The \<open>*_or_404\<close> lookups\<close>

text \<open>
  Each runs \<open>get(**kwargs)\<close> (the predicate \<open>P\<close>) on a queryset and turns
  \<open>DoesNotExist\<close> into \<open>Http404\<close>; \<open>MultipleObjectsReturned\<close> propagates.
  \<open>klass.objects\<close> is the model's manager, whose base queryset is every row of the
  model.
\<close>

definition or_404 :: "py_error + 'a \<Rightarrow> py_error + 'a" where
  "or_404 r = (case r of Inl DoesNotExist \<Rightarrow> Inl Http404 | _ \<Rightarrow> r)"

definition get_object_for_current_site_or_404 ::
  "bool \<Rightarrow> nat \<Rightarrow> nat \<Rightarrow> (content \<Rightarrow> bool) \<Rightarrow> db \<Rightarrow> py_error + content" where
  "get_object_for_current_site_or_404 has_sites site ct P d =
     or_404 (objects_get P (for_current_site has_sites site (model_objects ct d)))"

definition get_permitted_object_or_404 ::
  "bool \<Rightarrow> nat \<Rightarrow> (content \<Rightarrow> bool) \<Rightarrow> db \<Rightarrow> py_error + content" where
  "get_permitted_object_or_404 staging ct P d = or_404 (objects_get P (permitted staging ct d))"

definition get_permitted_object_for_current_site_or_404 ::
  "bool \<Rightarrow> bool \<Rightarrow> nat \<Rightarrow> nat \<Rightarrow> (content \<Rightarrow> bool) \<Rightarrow> db \<Rightarrow> py_error + content" where
  "get_permitted_object_for_current_site_or_404 staging has_sites site ct P d =
     or_404 (objects_get P (for_current_site has_sites site (permitted staging ct d)))"

subsection \<open>\<open>create_crumb\<close>\<close>

text \<open>A URL that is \<open>None\<close> or empty gives a crumb without a link.\<close>

definition create_crumb :: "string \<Rightarrow> string option \<Rightarrow> string" where
  "create_crumb title url =
     (case url of
        Some u \<Rightarrow> if u \<noteq> [] then ''&raquo;<a href='' @ [CHR 0x27] @ u @ [CHR 0x27] @ ''>'' @ title @ ''</a>''
                 else ''&raquo;&nbsp;'' @ title
      | None \<Rightarrow> ''&raquo;&nbsp;'' @ title)"

subsection \<open>Throttling\<close>

type_synonym session = "string \<rightharpoonup> int list"

definition add_to_throttle :: "session \<Rightarrow> string \<Rightarrow> int \<Rightarrow> session" where
  "add_to_throttle sess throttle_key timestamp =
     (case sess throttle_key of
        Some old_session \<Rightarrow> sess(throttle_key \<mapsto> old_session @ [timestamp])
      | None \<Rightarrow> sess(throttle_key \<mapsto> [timestamp]))"

definition check_throttle_exists :: "session \<Rightarrow> string \<Rightarrow> bool" where
  "check_throttle_exists sess throttle_key = (sess throttle_key \<noteq> None)"

text \<open>
  \<open>check_throttle\<close>: the \<open>num_allowed_in_lockout\<close>-th most recent attempt
  (\<open>[-num_allowed_in_lockout]\<close>) is compared with the start of the lockout window;
  too few attempts (\<open>IndexError\<close>) is \<open>False\<close>.  A missing key raises
  \<open>KeyError\<close>, which the handler does not catch.
\<close>

definition check_throttle :: "session \<Rightarrow> string \<Rightarrow> int \<Rightarrow> int \<Rightarrow> int \<Rightarrow> py_error + bool" where
  "check_throttle sess throttle_key lockout_duration num_allowed_in_lockout now =
     (case sess throttle_key of
        None \<Rightarrow> Inl KeyError
      | Some attempts \<Rightarrow>
          (case py_nth attempts (- num_allowed_in_lockout) of
             Inl IndexError \<Rightarrow> Inr False
           | Inl e \<Rightarrow> Inl e
           | Inr oldest_timestamp \<Rightarrow> Inr (oldest_timestamp > now - lockout_duration)))"

text \<open>A run of attempts: \<open>add_to_throttle\<close> at each timestamp in turn.\<close>

definition throttle_run :: "session \<Rightarrow> string \<Rightarrow> int list \<Rightarrow> session" where
  "throttle_run sess throttle_key timestamps =
     foldl (\<lambda>s t. add_to_throttle s throttle_key t) sess timestamps"

subsection \<open>Lemmas\<close>

lemma hd_py_split: "hd (py_split c s) = takeWhile (\<lambda>x. x \<noteq> c) s"
  by (induction s) (auto split: list.splits)

lemma update_fresh: "k \<notin> fst ` set al \<Longrightarrow> AList.update k v al = al @ [(k, v)]"
  by (induction al) auto

lemma foldl_update_fresh:
  "distinct (map fst (acc @ kvs)) \<Longrightarrow> foldl (\<lambda>d (k, v). AList.update k v d) acc kvs = acc @ kvs"
proof (induction kvs arbitrary: acc)
  case (Cons kv kvs)
  obtain k v where kv: "kv = (k, v)" by force
  with Cons.prems have "k \<notin> fst ` set acc" by auto
  then have "AList.update k v acc = acc @ [(k, v)]" by (rule update_fresh)
  with Cons kv show ?case by simp
qed simp

lemma py_dict_distinct: "distinct (map fst kvs) \<Longrightarrow> py_dict kvs = kvs"
  using foldl_update_fresh [of "[]" kvs] by (simp add: py_dict_def)

lemma distinct_py_dict: "distinct (map fst (py_dict kvs))"
proof -
  have "distinct (map fst acc) \<Longrightarrow> distinct (map fst (foldl (\<lambda>d (k, v). AList.update k v d) acc kvs))" for acc
    by (induction kvs arbitrary: acc) (auto simp: distinct_update)
  then show ?thesis by (simp add: py_dict_def)
qed

lemma choice_loop_Some: "choice_loop d kvs = Some k \<Longrightarrow> (k, d) \<in> set kvs"
  by (induction d kvs rule: choice_loop.induct) (auto split: if_splits)

lemma choice_loop_None: "choice_loop d kvs = None \<longleftrightarrow> d \<notin> snd ` set kvs"
  by (induction d kvs rule: choice_loop.induct) (auto simp: image_iff)

lemma choice_loop_distinct:
  "distinct (map snd kvs) \<Longrightarrow> (k, d) \<in> set kvs \<Longrightarrow> choice_loop d kvs = Some k"
  by (induction d kvs rule: choice_loop.induct) (auto simp: image_iff)

text \<open>
  A key returned by \<open>get_choice_value\<close> is one whose entry in \<open>dict(choices)\<close>
  is the given display value.
\<close>

theorem get_choice_value_sound:
  "get_choice_value choice_display choices = Some k \<Longrightarrow> map_of (py_dict choices) k = Some choice_display"
  unfolding get_choice_value_def
  by (rule map_of_is_SomeI [OF distinct_py_dict choice_loop_Some])

text \<open>
  For choices with distinct keys and distinct display values, looking up the display
  value of a choice gives back its key.
\<close>

theorem get_choice_value_roundtrip:
  assumes "distinct (map fst choices)" "distinct (map snd choices)" "(k, d) \<in> set choices"
  shows "get_choice_value d choices = Some k"
  using assms by (simp add: get_choice_value_def py_dict_distinct choice_loop_distinct)

text \<open>
  C32. When the request has a non-empty \<open>X-Forwarded-For\<close> header,
  \<open>get_client_ip\<close> returns its first comma-separated entry, whatever
  \<open>REMOTE_ADDR\<close> says.
\<close>

theorem get_client_ip_forwarded:
  "meta ''HTTP_X_FORWARDED_FOR'' = Some h \<Longrightarrow> h \<noteq> [] \<Longrightarrow>
   get_client_ip meta = Some (takeWhile (\<lambda>c. c \<noteq> CHR '','') h)"
  by (simp add: get_client_ip_def hd_py_split)

lemma sorted_window_count:
  assumes s: "sorted xs" and n: "0 < n" "n \<le> length xs"
  shows "n \<le> length (filter (\<lambda>t. b < t) xs) \<longleftrightarrow> b < xs ! (length xs - n)"
proof -
  let ?i = "length xs - n"
  have i: "?i < length xs" using n by simp
  show ?thesis
  proof
    assume lt: "b < xs ! ?i"
    have "\<forall>t\<in>set (drop ?i xs). b < t"
    proof
      fix t assume "t \<in> set (drop ?i xs)"
      then obtain j where "j < length (drop ?i xs)" "t = drop ?i xs ! j" by (auto simp: in_set_conv_nth)
      then have j: "?i + j < length xs" "t = xs ! (?i + j)" by simp_all
      with s have "xs ! ?i \<le> t" by (simp add: sorted_iff_nth_mono)
      with lt show "b < t" by simp
    qed
    then have "filter (\<lambda>t. b < t) (drop ?i xs) = drop ?i xs" by simp
    moreover have "length (filter (\<lambda>t. b < t) (drop ?i xs)) \<le> length (filter (\<lambda>t. b < t) xs)"
      using filter_append [of _ "take ?i xs" "drop ?i xs"] by (metis append_take_drop_id length_append le_add2)
    ultimately show "n \<le> length (filter (\<lambda>t. b < t) xs)" using n by simp
  next
    assume cnt: "n \<le> length (filter (\<lambda>t. b < t) xs)"
    show "b < xs ! ?i"
    proof (rule ccontr)
      assume "\<not> b < xs ! ?i"
      then have le: "xs ! ?i \<le> b" by simp
      have "\<forall>t\<in>set (take (Suc ?i) xs). \<not> b < t"
      proof
        fix t assume "t \<in> set (take (Suc ?i) xs)"
        then obtain j where "j < length (take (Suc ?i) xs)" "t = take (Suc ?i) xs ! j"
          by (auto simp: in_set_conv_nth)
        then have j: "j \<le> ?i" "t = xs ! j" by simp_all
        with s i have "t \<le> xs ! ?i" by (simp add: sorted_iff_nth_mono)
        with le show "\<not> b < t" by simp
      qed
      then have "filter (\<lambda>t. b < t) (take (Suc ?i) xs) = []" by (simp add: filter_empty_conv)
      then have "length (filter (\<lambda>t. b < t) xs) = length (filter (\<lambda>t. b < t) (drop (Suc ?i) xs))"
        by (metis append_take_drop_id filter_append self_append_conv2)
      also have "\<dots> \<le> length xs - Suc ?i" by (metis length_drop length_filter_le)
      finally show False using cnt n by simp
    qed
  qed
qed

theorem check_throttle_window:
  assumes s: "sorted attempts" and k: "sess throttle_key = Some attempts" and n: "0 < n"
  shows "check_throttle sess throttle_key lockout_duration n now =
           Inr (n \<le> int (length (filter (\<lambda>t. now - lockout_duration < t) attempts)))"
proof (cases "nat n \<le> length attempts")
  case True
  have "py_nth attempts (- n) = Inr (attempts ! (length attempts - nat n))"
    using True n by (simp add: py_nth_neg)
  moreover have "(nat n \<le> length (filter (\<lambda>t. now - lockout_duration < t) attempts))
      = (now - lockout_duration < attempts ! (length attempts - nat n))"
    using sorted_window_count [OF s _ True] n by simp
  ultimately show ?thesis using k n by (simp add: check_throttle_def nat_le_iff)
next
  case False
  have "py_nth attempts (- n) = Inl IndexError" using False n by (simp add: py_nth_neg)
  moreover have "length (filter (\<lambda>t. now - lockout_duration < t) attempts) < nat n"
    using False length_filter_le [of "\<lambda>t. now - lockout_duration < t" attempts] by linarith
  ultimately show ?thesis using k n by (simp add: check_throttle_def)
qed

lemma throttle_run_key:
  "throttle_run sess key tss key =
     (case sess key of None \<Rightarrow> if tss = [] then None else Some tss | Some old \<Rightarrow> Some (old @ tss))"
  unfolding throttle_run_def
  by (induction tss arbitrary: sess) (auto simp: add_to_throttle_def split: option.splits)

text \<open>
  C31. After a run of attempts at non-decreasing times on a fresh key,
  \<open>check_throttle\<close> with \<open>n > 0\<close> allowed attempts reports a lockout exactly when at
  least \<open>n\<close> of the attempts lie inside the lockout window.
\<close>

theorem throttle_run_check:
  assumes "sess throttle_key = None" "sorted timestamps" "timestamps \<noteq> []" "0 < n"
  shows "check_throttle (throttle_run sess throttle_key timestamps) throttle_key lockout_duration n now =
           Inr (n \<le> int (length (filter (\<lambda>t. now - lockout_duration < t) timestamps)))"
proof -
  have "throttle_run sess throttle_key timestamps throttle_key = Some timestamps"
    using assms by (simp add: throttle_run_key)
  with check_throttle_window [where attempts = timestamps and sess = "throttle_run sess throttle_key timestamps"
      and throttle_key = throttle_key and n = n] assms(2,4)
  show ?thesis by simp
qed

text \<open>
  \<open>check_throttle\<close> on a key with no recorded attempt raises \<open>KeyError\<close>
  instead of returning \<open>False\<close>.
\<close>

theorem check_throttle_missing_key:
  "\<not> check_throttle_exists sess throttle_key \<Longrightarrow>
   check_throttle sess throttle_key lockout_duration n now = Inl KeyError"
  by (simp add: check_throttle_exists_def check_throttle_def)

text \<open>
  With \<open>num_allowed_in_lockout = 0\<close>, \<open>check_throttle\<close> reads index \<open>-0 = 0\<close>:
  it reports a lockout exactly when the oldest recorded attempt lies inside the window.
\<close>

theorem check_throttle_zero_allowed:
  "sess throttle_key = Some attempts \<Longrightarrow> attempts \<noteq> [] \<Longrightarrow>
   check_throttle sess throttle_key lockout_duration 0 now = Inr (now - lockout_duration < hd attempts)"
  by (simp add: check_throttle_def py_nth_nonneg hd_conv_nth)

lemma or_404_Inr [simp]: "or_404 r = Inr c \<longleftrightarrow> r = Inr c"
  by (simp add: or_404_def split: sum.splits py_error.splits)

lemma or_404_objects_get:
  "or_404 (objects_get P xs) = Inl Http404 \<longleftrightarrow> (\<forall>x\<in>set xs. \<not> P x)"
proof -
  have e: "filter P xs = [] \<longleftrightarrow> (\<forall>x\<in>set xs. \<not> P x)" by (simp add: filter_empty_conv)
  show ?thesis unfolding or_404_def objects_get_def using e by (auto split: list.splits)
qed

text \<open>
  An object returned by \<open>get_permitted_object_for_current_site_or_404\<close> is a
  non-deleted row of the model with a version in the site state, on the current site, and
  matching the lookup.
\<close>

theorem get_permitted_object_for_current_site_or_404_visible:
  assumes "get_permitted_object_for_current_site_or_404 staging has_sites site ct P d = Inr c"
  shows "c \<in> set (contents d) \<and> c_ctype c = ct \<and> c_state c \<noteq> STATE_DELETED
         \<and> (\<exists>v\<in>set (versions d). v_ctype v = ct \<and> object_id v = c_pk c \<and> v_state v = site_state staging)
         \<and> (if has_sites then site \<in> set (c_sites c) else c_site_id c = Some site) \<and> P c"
proof -
  from assms have "objects_get P (for_current_site has_sites site (permitted staging ct d)) = Inr c"
    by (simp add: get_permitted_object_for_current_site_or_404_def)
  from objects_get_Inr_mem [OF this] show ?thesis
    by (auto simp: for_current_site_def permitted_def model_objects_def intro: rev_image_eqI)
qed

text \<open>
  \<open>get_permitted_object_for_current_site_or_404\<close> raises \<open>Http404\<close> exactly when
  no permitted row of the current site matches the lookup.
\<close>

theorem get_permitted_object_for_current_site_or_404_404:
  "get_permitted_object_for_current_site_or_404 staging has_sites site ct P d = Inl Http404 \<longleftrightarrow>
     (\<forall>c\<in>set (for_current_site has_sites site (permitted staging ct d)). \<not> P c)"
  by (simp add: get_permitted_object_for_current_site_or_404_def or_404_objects_get)


subsection \<open>Witnesses\<close>

theorem throttle_run_check_witness:
  "check_throttle (throttle_run Map.empty ''login'' [10, 20, 30]) ''login'' 15 1 40 = Inr True"
  using throttle_run_check [where sess = Map.empty and throttle_key = "''login''" and timestamps = "[10, 20, 30]"
      and n = 1 and lockout_duration = 15 and now = 40]
  by simp

theorem check_throttle_missing_key_witness:
  "check_throttle Map.empty ''login'' 15 1 40 = Inl KeyError"
  using check_throttle_missing_key [of Map.empty "''login''" 15 1 40]
  by (simp add: check_throttle_exists_def)

theorem check_throttle_zero_allowed_witness:
  "check_throttle (throttle_run Map.empty ''login'' [10, 20, 30]) ''login'' 15 0 40 = Inr False"
proof -
  have "throttle_run Map.empty ''login'' [10, 20, 30] ''login'' = Some [10, 20, 30]"
    by (simp add: throttle_run_def add_to_throttle_def)
  with check_throttle_zero_allowed [where sess = "throttle_run Map.empty ''login'' [10, 20, 30]"
      and throttle_key = "''login''" and attempts = "[10, 20, 30]" and lockout_duration = 15 and now = 40]
  show ?thesis by simp
qed

theorem get_choice_value_sound_witness:
  "get_choice_value ''Draft'' [(1::nat, ''Published''), (2, ''Draft'')] = Some 2
   \<and> map_of (py_dict [(1::nat, ''Published''), (2, ''Draft'')]) 2 = Some ''Draft''"
proof -
  have h: "get_choice_value ''Draft'' [(1::nat, ''Published''), (2, ''Draft'')] = Some 2"
    by (simp add: get_choice_value_def py_dict_def)
  from get_choice_value_sound [OF h] h show ?thesis by simp
qed

theorem get_choice_value_roundtrip_witness:
  "get_choice_value ''Draft'' [(1::nat, ''Published''), (2, ''Draft'')] = Some 2"
  by (rule get_choice_value_roundtrip) simp_all

theorem get_client_ip_forwarded_witness:
  "get_client_ip [''HTTP_X_FORWARDED_FOR'' \<mapsto> ''1.2.3.4, 5.6.7.8'', ''REMOTE_ADDR'' \<mapsto> ''9.9.9.9'']
     = Some ''1.2.3.4''"
  using get_client_ip_forwarded [of "[''HTTP_X_FORWARDED_FOR'' \<mapsto> ''1.2.3.4, 5.6.7.8'', ''REMOTE_ADDR'' \<mapsto> ''9.9.9.9'']"
      "''1.2.3.4, 5.6.7.8''"]
  by simp

theorem get_permitted_object_for_current_site_or_404_visible_witness:
  "get_permitted_object_for_current_site_or_404 False True 1 7 (\<lambda>c. c_pk c = 10) (example_db STATE_PUBLISHED)
     = Inr (example_content 10 STATE_PUBLISHED)
   \<and> c_state (example_content 10 STATE_PUBLISHED) \<noteq> STATE_DELETED"
proof -
  have h: "get_permitted_object_for_current_site_or_404 False True 1 7 (\<lambda>c. c_pk c = 10) (example_db STATE_PUBLISHED)
     = Inr (example_content 10 STATE_PUBLISHED)"
    by (simp add: get_permitted_object_for_current_site_or_404_def or_404_def objects_get_def
        for_current_site_def permitted_def model_objects_def site_state_def
        example_db_def example_content_def example_version_def)
  from get_permitted_object_for_current_site_or_404_visible [OF h] h show ?thesis by simp
qed

theorem get_permitted_object_for_current_site_or_404_404_witness:
  "get_permitted_object_for_current_site_or_404 False True 1 7 (\<lambda>c. c_pk c = 11) (example_db STATE_PUBLISHED)
     = Inl Http404"
  by (subst get_permitted_object_for_current_site_or_404_404)
     (simp add: for_current_site_def permitted_def model_objects_def site_state_def
        example_db_def example_content_def example_version_def)

end
