(* ===== verification/Templates.thy ===== *)
theory Templates
  imports Utils Mixins "HOL-Library.While_Combinator"
begin

text \<open>
  The template layer: the template nodes of \<open>src/tunobase/core/nodes.py\<close>, the tags
  and filters of \<open>src/tunobase/core/templatetags/core_tags.py\<close> and the
  content widgets of \<open>src/tunobase/core/templatetags/core_widgets.py\<close>.  A template
  variable is resolved by a function \<open>resolve\<close> from the token to its value or an
  error (\<open>VariableDoesNotExist\<close> for a missing name); rendered values are strings.
  A Python dict is an association list in insertion order; Python 2 lists the items of
  a dict in an unspecified order, so the query string the code renders holds the same
  pairs as the model's, possibly in another order.
\<close>

subsection \<open>Breadcrumb nodes\<close>

text \<open>\<open>s.strip(c)\<close> for one character.\<close>

definition py_strip_char :: "char \<Rightarrow> string \<Rightarrow> string" where
  "py_strip_char c s = rev (dropWhile (\<lambda>x. x = c) (rev (dropWhile (\<lambda>x. x = c) s)))"

text \<open>
  The title of both breadcrumb nodes: a token with no quote is a variable, resolved in
  the context (any exception gives the empty title); a quoted token is a literal, its
  quotes stripped.
\<close>

definition breadcrumb_title :: "(string \<Rightarrow> py_error + string) \<Rightarrow> string \<Rightarrow> string" where
  "breadcrumb_title resolve title =
     (if CHR 0x27 \<notin> set title \<and> CHR 0x22 \<notin> set title
      then (case resolve title of Inr t \<Rightarrow> t | Inl _ \<Rightarrow> [])
      else py_strip_char CHR 0x22 (py_strip_char CHR 0x27 title))"

text \<open>
  \<open>BreadcrumbNode.render\<close>: \<open>vars\<close> are the tag's arguments; the URL variable
  is optional, and a missing one (\<open>VariableDoesNotExist\<close>) gives no link.
\<close>

definition breadcrumb_render :: "(string \<Rightarrow> py_error + string) \<Rightarrow> string list \<Rightarrow> py_error + string" where
  "breadcrumb_render resolve vars =
     (case vars of
        [] \<Rightarrow> Inl IndexError
      | t # rest \<Rightarrow>
          (let title = breadcrumb_title resolve t in
           case rest of
             [] \<Rightarrow> Inr (create_crumb title None)
           | u # _ \<Rightarrow>
               (case resolve u of
                  Inl VariableDoesNotExist \<Rightarrow> Inr (create_crumb title None)
                | Inl e \<Rightarrow> Inl e
                | Inr url \<Rightarrow> Inr (create_crumb title (Some url)))))"

text \<open>\<open>UrlBreadcrumbNode.render\<close>: the URL is what the \<open>{% url %}\<close> node renders.\<close>

definition url_breadcrumb_render ::
  "(string \<Rightarrow> py_error + string) \<Rightarrow> string \<Rightarrow> py_error + string \<Rightarrow> py_error + string" where
  "url_breadcrumb_render resolve title url_render =
     (case url_render of
        Inl e \<Rightarrow> Inl e
      | Inr url \<Rightarrow> Inr (create_crumb (breadcrumb_title resolve title) (Some url)))"

text \<open>
  The tags that build the nodes, from the tag's tokens (\<open>token.split_contents()\<close>,
  the tag name first).  \<open>breadcrumb_url_widget\<close> with one argument is
  \<open>breadcrumb_widget\<close>; otherwise its first argument is the title and the rest
  goes to Django's \<open>url\<close> tag.
\<close>

datatype crumb_node = BreadcrumbNode "string list" | UrlBreadcrumbNode string "string list"

definition breadcrumb_widget :: "string list \<Rightarrow> crumb_node" where
  "breadcrumb_widget bits = BreadcrumbNode (drop 1 bits)"

definition breadcrumb_url_widget :: "string list \<Rightarrow> py_error + crumb_node" where
  "breadcrumb_url_widget bits =
     (if length bits = 2 then Inr (breadcrumb_widget bits)
      else if length bits < 2 then Inl IndexError
      else Inr (UrlBreadcrumbNode (bits ! 1) (take 1 bits @ drop 2 bits)))"

subsection \<open>\<open>smart_query_string\<close>\<close>

text \<open>The tag cuts its arguments into slices of two (the last one shorter when odd).\<close>

fun chunk2 :: "'a list \<Rightarrow> 'a list list" where
  "chunk2 [] = []"
| "chunk2 [x] = [[x]]"
| "chunk2 (x # y # rest) = [x, y] # chunk2 rest"

text \<open>
  The loop itself, \<open>while additions: addition_pairs.append(additions[0:2]);
  additions = additions[2:]\<close>, over the state \<open>(addition_pairs, additions)\<close>;
  \<open>None\<close> would be a loop that never stops.
\<close>

definition sqs_while :: "'a list \<Rightarrow> ('a list list \<times> 'a list) option" where
  "sqs_while additions =
     while_option (\<lambda>(addition_pairs, additions). additions \<noteq> [])
       (\<lambda>(addition_pairs, additions). (addition_pairs @ [take 2 additions], drop 2 additions))
       ([], additions)"

definition smart_query_string :: "string list \<Rightarrow> string list list" where
  "smart_query_string bits = chunk2 (drop 1 bits)"

text \<open>
  \<open>SmartQueryStringNode.__init__\<close> unpacks each slice into \<open>key, value\<close>; a slice
  of one raises \<open>ValueError\<close>.  A token is never empty, so both become variables.
\<close>

fun sqs_init :: "string list list \<Rightarrow> py_error + (string \<times> string) list" where
  "sqs_init [] = Inr []"
| "sqs_init ([key, value] # rest) =
     (case sqs_init rest of Inl e \<Rightarrow> Inl e | Inr ps \<Rightarrow> Inr ((key, value) # ps))"
| "sqs_init (_ # rest) = Inl ValueError"

text \<open>
  \<open>render\<close>: \<open>q\<close> starts as the request's \<open>GET\<close> items (each key with its last
  value); each pair sets its resolved key to its resolved value (the value is a
  variable built from a non-empty token, never \<open>None\<close>, so the \<open>q.pop\<close> branch
  cannot run); \<open>qs\<close> is assigned inside the loop only, so it is unbound when there
  is no pair.  Keys and values are joined as they are, without URL encoding.
\<close>

definition qd_items :: "(string \<times> string) list \<Rightarrow> (string \<times> string) list" where
  "qd_items get = py_dict get"

definition join_query :: "(string \<times> string) list \<Rightarrow> string" where
  "join_query q = py_join CHR ''&'' (map (\<lambda>(k, v). k @ ''='' @ v) q)"

fun sqs_loop ::
  "(string \<Rightarrow> py_error + string) \<Rightarrow> (string \<times> string) list \<Rightarrow> (string \<times> string) list
   \<Rightarrow> string option \<Rightarrow> py_error + (string \<times> string) list \<times> string option" where
  "sqs_loop resolve [] q qs = Inr (q, qs)"
| "sqs_loop resolve ((key, value) # pairs) q qs =
     (case resolve key of
        Inl e \<Rightarrow> Inl e
      | Inr k \<Rightarrow>
          (case resolve value of
             Inl e \<Rightarrow> Inl e
           | Inr v \<Rightarrow>
               (let q' = AList.update k v q in sqs_loop resolve pairs q' (Some (join_query q')))))"

definition sqs_render ::
  "(string \<Rightarrow> py_error + string) \<Rightarrow> (string \<times> string) list \<Rightarrow> (string \<times> string) list \<Rightarrow> py_error + string" where
  "sqs_render resolve addition_pairs get =
     (case sqs_loop resolve addition_pairs (qd_items get) None of
        Inl e \<Rightarrow> Inl e
      | Inr (q, qs) \<Rightarrow>
          if q \<noteq> [] then (case qs of None \<Rightarrow> Inl UnboundLocalError | Some s \<Rightarrow> Inr (CHR ''?'' # s))
          else Inr [])"

subsection \<open>\<open>gallery_surrounding_image_pks\<close> and \<open>letterify\<close>\<close>

text \<open>
  The loop stops at the first image with the given key; \<open>previous\<close> is the image
  after it and \<open>next\<close> the image before it, read with Python indexing, so
  \<open>images[i - 1]\<close> at \<open>i = 0\<close> is the last image.
\<close>

fun surrounding_loop :: "nat list \<Rightarrow> nat \<Rightarrow> nat \<Rightarrow> nat list \<Rightarrow> nat option \<times> nat option" where
  "surrounding_loop images pk i [] = (None, None)"
| "surrounding_loop images pk i (img # rest) =
     (if img = pk
      then ((case py_nth images (int i - 1) of Inr n \<Rightarrow> Some n | Inl _ \<Rightarrow> None),
            (case py_nth images (int i + 1) of Inr p \<Rightarrow> Some p | Inl _ \<Rightarrow> None))
      else surrounding_loop images pk (Suc i) rest)"

text \<open>The result as the pair (\<open>next_image_pk\<close>, \<open>previous_image_pk\<close>).\<close>

definition gallery_surrounding_image_pks :: "nat list \<Rightarrow> nat \<Rightarrow> nat option \<times> nat option" where
  "gallery_surrounding_image_pks gallery_images gallery_image_pk =
     surrounding_loop gallery_images gallery_image_pk 0 gallery_images"

text \<open>
  \<open>str(unichr(65 + value))\<close>: \<open>unichr\<close> accepts code points up to \<open>0x10FFFF\<close>
  (\<open>ValueError\<close> otherwise), and \<open>str\<close> of a non-ASCII character raises
  \<open>UnicodeEncodeError\<close>.
\<close>

definition letterify :: "int \<Rightarrow> py_error + string" where
  "letterify value =
     (let code = 65 + value in
      if code < 0 \<or> code > 0x10FFFF then Inl ValueError
      else if code \<ge> 128 then Inl UnicodeEncodeError
      else Inr [char_of (nat code)])"

subsection \<open>Content widgets\<close>

text \<open>
  \<open>content_block_widget\<close>, \<open>content_block_plain\<close>, \<open>gallery_widget\<close>,
  \<open>image_bannerset_widget\<close> and \<open>html_bannerset_widget\<close> share one lookup:
  \<open>Model.objects.permitted().for_current_site().get(slug=slug)\<close>, with
  \<open>DoesNotExist\<close> turned into \<open>None\<close>; the context they return holds the object
  and the slug.  \<open>ct\<close> is the widget's model.
\<close>

definition widget_lookup ::
  "bool \<Rightarrow> bool \<Rightarrow> nat \<Rightarrow> nat \<Rightarrow> string \<Rightarrow> db \<Rightarrow> py_error + content option \<times> string" where
  "widget_lookup staging has_sites site ct slug d =
     (case objects_get (\<lambda>c. c_slug c = slug) (for_current_site has_sites site (permitted staging ct d)) of
        Inl DoesNotExist \<Rightarrow> Inr (None, slug)
      | Inl e \<Rightarrow> Inl e
      | Inr c \<Rightarrow> Inr (Some c, slug))"

definition content_block_widget ::
  "bool \<Rightarrow> bool \<Rightarrow> nat \<Rightarrow> nat \<Rightarrow> string \<Rightarrow> db \<Rightarrow> py_error + content option \<times> string" where
  "content_block_widget staging has_sites site content_block_ct slug d =
     widget_lookup staging has_sites site content_block_ct slug d"

definition gallery_widget ::
  "bool \<Rightarrow> bool \<Rightarrow> nat \<Rightarrow> nat \<Rightarrow> string \<Rightarrow> db \<Rightarrow> py_error + content option \<times> string" where
  "gallery_widget staging has_sites site gallery_ct slug d =
     widget_lookup staging has_sites site gallery_ct slug d"

definition content_block_plain ::
  "bool \<Rightarrow> bool \<Rightarrow> nat \<Rightarrow> nat \<Rightarrow> string \<Rightarrow> db \<Rightarrow> py_error + content option \<times> string" where
  "content_block_plain staging has_sites site content_block_ct slug d =
     widget_lookup staging has_sites site content_block_ct slug d"

definition image_bannerset_widget ::
  "bool \<Rightarrow> bool \<Rightarrow> nat \<Rightarrow> nat \<Rightarrow> string \<Rightarrow> db \<Rightarrow> py_error + content option \<times> string" where
  "image_bannerset_widget staging has_sites site bannerset_ct slug d =
     widget_lookup staging has_sites site bannerset_ct slug d"

definition html_bannerset_widget ::
  "bool \<Rightarrow> bool \<Rightarrow> nat \<Rightarrow> nat \<Rightarrow> string \<Rightarrow> db \<Rightarrow> py_error + content option \<times> string" where
  "html_bannerset_widget staging has_sites site bannerset_ct slug d =
     widget_lookup staging has_sites site bannerset_ct slug d"

subsection \<open>Samples\<close>

text \<open>
  A context that resolves the token \<open>k\<close> to \<open>page\<close> and \<open>pg\<close> to \<open>3\<close>; and a
  database with two published content blocks of type 7 in different series that share
  the slug \<open>about\<close>.
\<close>

definition example_resolve :: "string \<Rightarrow> string" where
  "example_resolve t = (if t = ''k'' then ''page'' else if t = ''pg'' then ''3'' else t)"

definition example_dup_db :: db where
  "example_dup_db =
     \<lparr>contents = [example_content 10 STATE_PUBLISHED, example_content 12 STATE_PUBLISHED],
      series_tbl = [\<lparr>vs_id = 1, vs_slug = ''about''\<rparr>, \<lparr>vs_id = 2, vs_slug = ''about''\<rparr>],
      versions = [example_version 1 10 STATE_PUBLISHED,
                  \<lparr>v_id = 2, v_ctype = 7, object_id = 12, v_series = 2, number = 1, v_state = STATE_PUBLISHED\<rparr>],
      next_series_id = 3, next_version_id = 3\<rparr>"

subsection \<open>Lemmas\<close>

lemma join_query_parse:
  assumes "q \<noteq> []"
    and "\<forall>(k, v)\<in>set q. CHR ''&'' \<notin> set (k @ v) \<and> CHR ''='' \<notin> set (k @ v)"
  shows "map (py_split CHR ''='') (py_split CHR ''&'' (join_query q)) = map (\<lambda>(k, v). [k, v]) q"
proof -
  have "\<forall>w\<in>set (map (\<lambda>(k, v). k @ ''='' @ v) q). CHR ''&'' \<notin> set w" using assms(2) by auto
  then have "py_split CHR ''&'' (join_query q) = map (\<lambda>(k, v). k @ ''='' @ v) q"
    using assms(1) by (simp add: join_query_def py_split_join)
  moreover have "py_split CHR ''='' (k @ ''='' @ v) = [k, v]" if "(k, v) \<in> set q" for k v
    using assms(2) that by (auto simp: py_split_append_sep py_split_no_sep)
  ultimately show ?thesis by auto
qed

lemma count_py_join:
  "ws \<noteq> [] \<Longrightarrow> count_list (py_join c ws) c = sum_list (map (\<lambda>w. count_list w c) ws) + (length ws - 1)"
  by (induction c ws rule: py_join.induct) (simp_all add: count_list_append)

text \<open>The rendered query string splits back into its pairs only when no key or value holds a separator.\<close>

lemma join_query_parse_safe:
  assumes "q \<noteq> []"
    and "map (py_split CHR ''='') (py_split CHR ''&'' (join_query q)) = map (\<lambda>(k, v). [k, v]) q"
  shows "\<forall>(k, v)\<in>set q. CHR ''&'' \<notin> set (k @ v) \<and> CHR ''='' \<notin> set (k @ v)"
proof -
  let ?ws = "map (\<lambda>(k, v). k @ ''='' @ v) q"
  have "length (py_split CHR ''&'' (join_query q)) = length q"
    using arg_cong [OF assms(2), of length] by simp
  then have "sum_list (map (\<lambda>w. count_list w CHR ''&'') ?ws) = 0"
    using count_py_join [of ?ws "CHR ''&''"] assms(1)
    by (simp add: length_py_split join_query_def)
  then have amp: "\<forall>w\<in>set ?ws. CHR ''&'' \<notin> set w"
    by (simp add: count_list_0_iff)
  then have "py_split CHR ''&'' (join_query q) = ?ws"
    using assms(1) by (simp add: join_query_def py_split_join)
  then have eq: "map (\<lambda>(k, v). py_split CHR ''='' (k @ ''='' @ v)) q = map (\<lambda>(k, v). [k, v]) q"
    using assms(2) by (simp add: case_prod_beta' comp_def)
  show ?thesis
  proof (clarify)
    fix k v assume kv: "(k, v) \<in> set q"
    then have "py_split CHR ''='' (k @ ''='' @ v) = [k, v]" using eq by (force dest: map_eq_conv [THEN iffD1])
    then have "count_list (k @ ''='' @ v) CHR ''='' = 1"
      using length_py_split [of "CHR ''=''" "k @ ''='' @ v"] by simp
    moreover have "CHR ''&'' \<notin> set (k @ ''='' @ v)" using amp kv by auto
    ultimately show "CHR ''&'' \<notin> set (k @ v) \<and> CHR ''='' \<notin> set (k @ v)"
      by (simp add: count_list_append count_list_0_iff)
  qed
qed

lemma sqs_loop_total:
  "pairs \<noteq> [] \<Longrightarrow>
   sqs_loop (\<lambda>t. Inr (f t)) pairs q qs =
     (let q' = foldl (\<lambda>q (k, v). AList.update (f k) (f v) q) q pairs in Inr (q', Some (join_query q')))"
proof (induction pairs arbitrary: q qs)
  case (Cons p pairs)
  obtain k0 v0 where p: "p = (k0, v0)" by force
  show ?case using Cons p by (cases pairs) (simp_all add: Let_def)
qed simp

lemma foldl_update_nonempty:
  "pairs \<noteq> [] \<Longrightarrow> foldl (\<lambda>q (k, v). AList.update (g k) (g v) q) q0 pairs \<noteq> []"
proof (induction pairs arbitrary: q0)
  case (Cons p pairs)
  obtain k v where p: "p = (k, v)" by force
  show ?case
  proof (cases pairs)
    case Nil
    with p show ?thesis by (cases q0) auto
  next
    case (Cons a l)
    with Cons.IH p show ?thesis by simp
  qed
qed simp

text \<open>
  C33. When every addition resolves, \<open>smart_query_string\<close> renders \<open>?\<close> followed by
  the request's parameters updated with the additions, joined as \<open>k=v\<close> with
  \<open>&\<close> and not URL-encoded.  Splitting the rendered string at \<open>&\<close> and \<open>=\<close>
  gives back exactly those pairs (in the order the model lists the dict) if and only if
  no key or value holds \<open>&\<close> or \<open>=\<close>: a value such as \<open>a&b\<close> is not
  carried through.
\<close>

theorem smart_query_string_roundtrip:
  assumes "addition_pairs \<noteq> []"
    and q: "q = foldl (\<lambda>q (k, v). AList.update (f k) (f v) q) (qd_items get) addition_pairs"
  shows "sqs_render (\<lambda>t. Inr (f t)) addition_pairs get = Inr (CHR ''?'' # join_query q)
         \<and> (map (py_split CHR ''='') (py_split CHR ''&'' (join_query q)) = map (\<lambda>(k, v). [k, v]) q
            \<longleftrightarrow> (\<forall>(k, v)\<in>set q. CHR ''&'' \<notin> set (k @ v) \<and> CHR ''='' \<notin> set (k @ v)))"
proof -
  have ne: "q \<noteq> []" using foldl_update_nonempty [OF assms(1)] q by simp
  have "sqs_render (\<lambda>t. Inr (f t)) addition_pairs get = Inr (CHR ''?'' # join_query q)"
    using sqs_loop_total [OF assms(1)] q ne by (simp add: sqs_render_def Let_def)
  with join_query_parse [OF ne] join_query_parse_safe [OF ne] show ?thesis by blast
qed

lemma qd_items_nonempty: "get \<noteq> [] \<Longrightarrow> qd_items get \<noteq> []"
  using foldl_update_nonempty [of get "\<lambda>x. x" "[]"] by (simp add: qd_items_def py_dict_def)

text \<open>
  C34. \<open>{% smart_query_string %}\<close> with no additions on a request with parameters
  raises \<open>UnboundLocalError\<close>: \<open>qs\<close> is only assigned inside the loop.
\<close>

theorem smart_query_string_unbound:
  "get \<noteq> [] \<Longrightarrow> sqs_render resolve [] get = Inl UnboundLocalError"
  by (simp add: sqs_render_def qd_items_nonempty)

lemma sqs_init_chunk2_odd: "odd (length xs) \<Longrightarrow> sqs_init (chunk2 xs) = Inl ValueError"
  by (induction xs rule: chunk2.induct) auto

text \<open>
  \<open>smart_query_string\<close> with an odd number of arguments raises
  \<open>ValueError\<close> when the node unpacks the last, one-element slice.
\<close>

theorem smart_query_string_odd:
  "odd (length bits - 1) \<Longrightarrow> sqs_init (smart_query_string bits) = Inl ValueError"
  by (simp add: smart_query_string_def sqs_init_chunk2_odd)

lemma surrounding_loop_at:
  assumes d: "distinct images" and i: "i < length images"
  shows "j \<le> i \<Longrightarrow> surrounding_loop images (images ! i) j (drop j images) =
           ((case py_nth images (int i - 1) of Inr n \<Rightarrow> Some n | Inl _ \<Rightarrow> None),
            (case py_nth images (int i + 1) of Inr p \<Rightarrow> Some p | Inl _ \<Rightarrow> None))"
proof (induction "i - j" arbitrary: j)
  case 0
  then have "j = i" by simp
  with i show ?case by (simp add: Cons_nth_drop_Suc [symmetric])
next
  case (Suc k)
  then have ji: "j < i" by simp
  with d i have ne: "images ! j \<noteq> images ! i" by (simp add: nth_eq_iff_index_eq)
  have "drop j images = images ! j # drop (Suc j) images"
    using ji i by (simp add: Cons_nth_drop_Suc)
  with ne Suc.hyps(1) [of "Suc j"] Suc.hyps(2) ji show ?case by simp
qed

text \<open>
  For an image at position \<open>i\<close> of a gallery with distinct images,
  \<open>next_image_pk\<close> is the image before it, the last image when \<open>i = 0\<close> (Python's
  \<open>images[-1]\<close>), and \<open>previous_image_pk\<close> is the image after it or \<open>None\<close>.
\<close>

theorem gallery_surrounding_image_pks_at:
  assumes "distinct images" and "i < length images"
  shows "gallery_surrounding_image_pks images (images ! i) =
           (Some (images ! (if i = 0 then length images - 1 else i - 1)),
            if Suc i < length images then Some (images ! Suc i) else None)"
proof -
  have "surrounding_loop images (images ! i) 0 (drop 0 images) =
          ((case py_nth images (int i - 1) of Inr n \<Rightarrow> Some n | Inl _ \<Rightarrow> None),
           (case py_nth images (int i + 1) of Inr p \<Rightarrow> Some p | Inl _ \<Rightarrow> None))"
    using surrounding_loop_at [OF assms, of 0] by simp
  moreover have "py_nth images (int i - 1) = Inr (images ! (if i = 0 then length images - 1 else i - 1))"
    using assms(2) by (cases "i = 0") (simp_all add: py_nth_neg py_nth_nonneg nat_diff_distrib' Suc_le_eq)
  moreover have "py_nth images (int i + 1) =
      (if Suc i < length images then Inr (images ! Suc i) else Inl IndexError)"
    by (simp add: py_nth_nonneg nat_add_distrib)
  ultimately show ?thesis by (simp add: gallery_surrounding_image_pks_def)
qed

lemma char_of_alphabet:
  "n < 26 \<Longrightarrow> char_of (65 + n) = ''ABCDEFGHIJKLMNOPQRSTUVWXYZ'' ! n"
proof -
  assume n: "n < 26"
  have "list_all (\<lambda>n. char_of (65 + n) = ''ABCDEFGHIJKLMNOPQRSTUVWXYZ'' ! n) [0..<26]"
    by code_simp
  with n show ?thesis by (simp add: list_all_iff)
qed

text \<open>
  \<open>letterify\<close> maps \<open>0 .. 25\<close> to the letters \<open>A .. Z\<close>.
\<close>

theorem letterify_letters:
  "0 \<le> value \<Longrightarrow> value < 26 \<Longrightarrow> letterify value = Inr [''ABCDEFGHIJKLMNOPQRSTUVWXYZ'' ! nat value]"
proof -
  assume "0 \<le> value" "value < 26"
  then obtain n where n: "value = int n" "n < 26" by (metis nonneg_eq_int of_nat_less_iff of_nat_numeral)
  then have "nat (65 + value) = 65 + n" by simp
  with n show ?thesis by (simp add: letterify_def Let_def char_of_alphabet)
qed

text \<open>
  \<open>letterify\<close> raises \<open>UnicodeEncodeError\<close> for every value from 63 up to the
  last code point: \<open>str\<close> of a non-ASCII character fails in Python 2.
\<close>

theorem letterify_non_ascii:
  "63 \<le> value \<Longrightarrow> value \<le> 1114046 \<Longrightarrow> letterify value = Inl UnicodeEncodeError"
  by (simp add: letterify_def Let_def)

lemma dropWhile_absent: "c \<notin> set xs \<Longrightarrow> dropWhile (\<lambda>x. x = c) xs = xs"
  by (cases xs) auto

lemma py_strip_char_absent: "c \<notin> set s \<Longrightarrow> py_strip_char c s = s"
  by (simp add: py_strip_char_def dropWhile_absent)

lemma py_strip_char_quoted:
  "c \<notin> set t \<Longrightarrow> py_strip_char c (c # t @ [c]) = t"
proof -
  assume c: "c \<notin> set t"
  have dw: "dropWhile (\<lambda>x. x = c) (xs @ ys) = xs @ ys" if "c \<notin> set xs" "xs \<noteq> []" for xs ys
    using that by (cases xs) auto
  show ?thesis
  proof (cases "t = []")
    case False
    then have "dropWhile (\<lambda>x. x = c) (rev (t @ [c])) = rev t"
      using c by (simp add: dropWhile_absent)
    moreover have "dropWhile (\<lambda>x. x = c) (c # t @ [c]) = t @ [c]"
      using dw [of t "[c]"] c False by simp
    ultimately show ?thesis by (simp add: py_strip_char_def)
  qed (simp add: py_strip_char_def)
qed

text \<open>
  A breadcrumb with a double-quoted literal title and an undefined URL variable
  renders the title, unquoted, without a link.
\<close>

theorem breadcrumb_literal_title:
  assumes "CHR 0x27 \<notin> set t" "CHR 0x22 \<notin> set t" and "resolve u = Inl VariableDoesNotExist"
  shows "breadcrumb_render resolve [CHR 0x22 # t @ [CHR 0x22], u] = Inr (''&raquo;&nbsp;'' @ t)"
proof -
  have "breadcrumb_title resolve (CHR 0x22 # t @ [CHR 0x22]) = t"
    using assms(1,2) by (simp add: breadcrumb_title_def py_strip_char_absent py_strip_char_quoted)
  with assms(3) show ?thesis by (simp add: breadcrumb_render_def create_crumb_def)
qed

text \<open>
  The content block a widget finds is a permitted block of the current site with the
  requested slug.
\<close>

theorem content_block_widget_found:
  assumes "content_block_widget staging has_sites site ct slug d = Inr (Some c, s)"
  shows "s = slug \<and> c_slug c = slug \<and> c \<in> set (contents d) \<and> c_ctype c = ct \<and> c_state c \<noteq> STATE_DELETED
         \<and> (\<exists>v\<in>set (versions d). v_ctype v = ct \<and> object_id v = c_pk c \<and> v_state v = site_state staging)
         \<and> (if has_sites then site \<in> set (c_sites c) else c_site_id c = Some site)"
proof -
  from assms have g: "objects_get (\<lambda>c. c_slug c = slug) (for_current_site has_sites site (permitted staging ct d)) = Inr c"
    and s: "s = slug"
    by (auto simp: content_block_widget_def widget_lookup_def split: sum.splits py_error.splits)
  from objects_get_Inr_mem [OF g] s show ?thesis
    by (auto simp: for_current_site_def permitted_def model_objects_def intro: rev_image_eqI)
qed

text \<open>
  When two different permitted blocks of the current site share a slug, the content
  block widget raises \<open>MultipleObjectsReturned\<close> (only \<open>DoesNotExist\<close> is caught).
\<close>

theorem content_block_widget_duplicate:
  assumes "a \<in> set (for_current_site has_sites site (permitted staging ct d))"
    and "b \<in> set (for_current_site has_sites site (permitted staging ct d))"
    and "a \<noteq> b" "c_slug a = slug" "c_slug b = slug"
  shows "content_block_widget staging has_sites site ct slug d = Inl MultipleObjectsReturned"
  using objects_get_multiple [OF assms]
  by (simp add: content_block_widget_def widget_lookup_def)


lemma sqs_while_from:
  "while_option (\<lambda>(addition_pairs, additions). additions \<noteq> [])
     (\<lambda>(addition_pairs, additions). (addition_pairs @ [take 2 additions], drop 2 additions)) (acc, xs)
   = Some (acc @ chunk2 xs, [])"
proof (induction xs arbitrary: acc rule: chunk2.induct)
  case 1
  show ?case by (subst while_option_unfold) simp
next
  case (2 x)
  show ?case by (subst while_option_unfold, simp, subst while_option_unfold, simp)
next
  case (3 x y rest)
  show ?case by (subst while_option_unfold) (simp add: 3)
qed

text \<open>
  C38. The \<open>while\<close> loop of \<open>smart_query_string\<close> stops on every argument list:
  each round removes two arguments (or the last one).  It stops with no argument left
  and the slices \<open>chunk2\<close> computes, which the other theorems about the tag use.
\<close>

theorem smart_query_string_loop_terminates: "sqs_while additions = Some (chunk2 additions, [])"
  using sqs_while_from [of "[]" additions] by (simp add: sqs_while_def)

subsection \<open>Witnesses\<close>

theorem smart_query_string_roundtrip_witness:
  "sqs_render (\<lambda>t. Inr (example_resolve t)) [(''k'', ''pg'')] [(''page'', ''1''), (''q'', ''x'')]
     = Inr ''?page=3&q=x''
   \<and> sqs_render (\<lambda>t. Inr t) [(''q'', ''a&b'')] [] = Inr ''?q=a&b''
   \<and> map (py_split CHR ''='') (py_split CHR ''&'' ''q=a&b'') \<noteq> [[''q'', ''a&b'']]"
proof -
  have a: "sqs_render (\<lambda>t. Inr (example_resolve t)) [(''k'', ''pg'')] [(''page'', ''1''), (''q'', ''x'')]
     = Inr ''?page=3&q=x''"
    using smart_query_string_roundtrip [where addition_pairs = "[(''k'', ''pg'')]" and f = example_resolve
        and get = "[(''page'', ''1''), (''q'', ''x'')]" and q = "[(''page'', ''3''), (''q'', ''x'')]"]
    by (simp add: example_resolve_def qd_items_def py_dict_def join_query_def)
  have b: "sqs_render (\<lambda>t. Inr t) [(''q'', ''a&b'')] [] = Inr ''?q=a&b''
     \<and> map (py_split CHR ''='') (py_split CHR ''&'' ''q=a&b'') \<noteq> [[''q'', ''a&b'']]"
    using smart_query_string_roundtrip [where addition_pairs = "[(''q'', ''a&b'')]" and f = "\<lambda>t. t"
        and get = "[]" and q = "[(''q'', ''a&b'')]"]
    by (simp add: qd_items_def py_dict_def join_query_def)
  from a b show ?thesis by blast
qed

theorem smart_query_string_unbound_witness:
  "sqs_render (\<lambda>t. Inr t) [] [(''q'', ''x'')] = Inl UnboundLocalError"
  using smart_query_string_unbound [of "[(''q'', ''x'')]" "\<lambda>t. Inr t"] by simp

theorem smart_query_string_odd_witness:
  "sqs_init (smart_query_string [''smart_query_string'', ''page'', ''2'', ''sort'']) = Inl ValueError"
  using smart_query_string_odd [of "[''smart_query_string'', ''page'', ''2'', ''sort'']"] by simp

theorem gallery_surrounding_image_pks_at_witness:
  "gallery_surrounding_image_pks [5, 6, 7] 5 = (Some 7, Some 6)"
  using gallery_surrounding_image_pks_at [of "[5, 6, 7]" 0] by simp

theorem letterify_letters_witness: "letterify 2 = Inr ''C''"
  using letterify_letters [of 2] by simp

theorem letterify_non_ascii_witness: "letterify 63 = Inl UnicodeEncodeError"
  using letterify_non_ascii [of 63] by simp

theorem breadcrumb_literal_title_witness:
  "breadcrumb_render (\<lambda>t. Inl VariableDoesNotExist) [CHR 0x22 # ''Home'' @ [CHR 0x22], ''home_url'']
     = Inr ''&raquo;&nbsp;Home''"
  using breadcrumb_literal_title [of "''Home''" "\<lambda>t. Inl VariableDoesNotExist" "''home_url''"] by simp

theorem content_block_widget_found_witness:
  "content_block_widget False True 1 7 ''about'' (example_db STATE_PUBLISHED)
     = Inr (Some (example_content 10 STATE_PUBLISHED), ''about'')
   \<and> c_state (example_content 10 STATE_PUBLISHED) \<noteq> STATE_DELETED"
proof -
  have h: "content_block_widget False True 1 7 ''about'' (example_db STATE_PUBLISHED)
     = Inr (Some (example_content 10 STATE_PUBLISHED), ''about'')"
    by (simp add: content_block_widget_def widget_lookup_def objects_get_def for_current_site_def
        permitted_def model_objects_def site_state_def example_db_def example_content_def example_version_def)
  from content_block_widget_found [OF h] h show ?thesis by simp
qed

theorem content_block_widget_duplicate_witness:
  "content_block_widget False True 1 7 ''about'' example_dup_db = Inl MultipleObjectsReturned"
proof -
  have "for_current_site True 1 (permitted False 7 example_dup_db)
      = [example_content 10 STATE_PUBLISHED, example_content 12 STATE_PUBLISHED]"
    by (simp add: for_current_site_def permitted_def model_objects_def site_state_def
        example_dup_db_def example_content_def example_version_def)
  then show ?thesis
    using content_block_widget_duplicate [of "example_content 10 STATE_PUBLISHED" True 1 False 7 example_dup_db
        "example_content 12 STATE_PUBLISHED" "''about''"]
    by (simp add: example_content_def)
qed

end
