(* ===== verification/Views.thy ===== *)
theory Views
  imports Query Mixins
begin

text \<open>
  The views of \<open>src/tunobase/core/views.py\<close>.  A view method is a computation of
  the exception monad over the database; what Django's generic views compute before
  the overridden method runs (the object of \<open>get_object\<close>, the success URL) is
  passed in as a value or an error.  POST data is a list of pairs read like
  \<open>request.GET\<close> (\<open>qd_getitem\<close>).
\<close>

subsection \<open>\<open>MarkDeleteView\<close>\<close>

text \<open>
  \<open>delete\<close>: fetch the object, compute the success URL, call
  \<open>mark_deleted()\<close> on the object, redirect.  The object's \<open>Version\<close> rows are
  not touched.
\<close>

definition mark_delete_view :: "py_error + content \<Rightarrow> py_error + string \<Rightarrow> nat \<Rightarrow> (db, string) exc" where
  "mark_delete_view get_object get_success_url now =
     ebind (lift get_object) (\<lambda>obj.
     ebind (lift get_success_url) (\<lambda>success_url.
     ebind (mark_deleted now obj) (\<lambda>_.
     ret success_url)))"

subsection \<open>\<open>ContentBlockUpdate\<close>\<close>

text \<open>
  \<open>post\<close>, behind \<open>AdminRequiredMixin.dispatch\<close>.  \<open>get_object_or_404\<close> on
  \<open>ContentModel\<close> searches every row of the content models
  (\<open>content_model_cts\<close> are their content types); a missing \<open>slug\<close> parameter is
  \<open>None\<close>, which matches no row.  \<open>content_block.content = content\<close> sets an
  attribute that is not a field of \<open>ContentModel\<close> (its text fields are
  \<open>plain_content\<close> and \<open>rich_content\<close>), so \<open>save()\<close> writes the row as it was
  read.  The JSON answer \<open>{'success': True}\<close> is \<open>Respond JsonSuccess\<close>;
  \<open>View.dispatch\<close> answers a method other than \<open>POST\<close>, for which the view has
  no handler, with \<open>405 Method Not Allowed\<close>.
\<close>

datatype cb_answer = JsonSuccess | MethodNotAllowed

definition content_block_post ::
  "nat list \<Rightarrow> (string \<times> string) list \<Rightarrow> nat \<Rightarrow> (db, cb_answer response) exc" where
  "content_block_post content_model_cts post now =
     (let slug = qd_getitem post ''slug''; content = qd_getitem post ''content'' in
      ebind (\<lambda>d. (case objects_get (\<lambda>c. c_ctype c \<in> set content_model_cts \<and> Some (c_slug c) = slug)
                                   (contents d) of
                     Inl DoesNotExist \<Rightarrow> Inl Http404
                   | r \<Rightarrow> r, d)) (\<lambda>content_block.
      ebind (content_save now content_block) (\<lambda>_.
      ret (Respond JsonSuccess))))"

definition content_block_update ::
  "access \<Rightarrow> nat list \<Rightarrow> request \<Rightarrow> (string \<times> string) list \<Rightarrow> nat \<Rightarrow> (db, cb_answer response) exc" where
  "content_block_update conf content_model_cts req post now =
     (case admin_required conf req of
        Inl e \<Rightarrow> raise e
      | Inr Proceed \<Rightarrow>
          if req_method req = ''POST'' then content_block_post content_model_cts post now
          else ret (Respond MethodNotAllowed)
      | Inr r \<Rightarrow> ret r)"

subsection \<open>\<open>ListWithDetailView\<close>\<close>

text \<open>
  \<open>get\<close>: the object is what \<open>get_object\<close> returns, Python's
  \<open>NotImplemented\<close> unless a subclass overrides it; an empty list with
  \<open>allow_empty = False\<close> is \<open>Http404\<close> (both branches of the emptiness test agree
  on a list); the context holds the object and the list.
\<close>

datatype 'a detail_object = NotImplemented | DetailObject 'a

definition list_with_detail_get ::
  "'a detail_object \<Rightarrow> 'b list \<Rightarrow> bool \<Rightarrow> py_error + 'a detail_object \<times> 'b list" where
  "list_with_detail_get get_object object_list allow_empty =
     (if \<not> allow_empty \<and> object_list = [] then Inl Http404 else Inr (get_object, object_list))"

subsection \<open>Lemmas\<close>

lemma visible_rows:
  "c \<in> set (permitted staging ct d) \<Longrightarrow> c \<in> set (contents d) \<and> c_state c \<noteq> STATE_DELETED"
  "c \<in> set (get_list ct d) \<Longrightarrow> c \<in> set (contents d) \<and> c_state c \<noteq> STATE_DELETED"
  "c \<in> set (get_console_queryset ct d) \<Longrightarrow> c \<in> set (contents d) \<and> c_state c \<noteq> STATE_DELETED"
  by (simp_all add: permitted_def get_list_def get_console_queryset_def model_objects_def Let_def)

lemma mark_delete_view_run:
  "mark_delete_view (Inr obj) (Inr url) now d =
     (Inr url, d\<lparr>contents := save_row content_key (state_save now (obj\<lparr>c_state := STATE_DELETED\<rparr>)) (contents d)\<rparr>)"
  by (simp add: mark_delete_view_def mark_deleted_def content_save_def exc_simps)

lemma mark_delete_view_error:
  "mark_delete_view (Inl e) u now d = (Inl e, d)"
  "mark_delete_view (Inr obj) (Inl e) now d = (Inl e, d)"
  by (simp_all add: mark_delete_view_def exc_simps)

lemma content_block_post_slug_only:
  "qd_getitem post ''slug'' = qd_getitem post' ''slug'' \<Longrightarrow>
   content_block_post cts post now = content_block_post cts post' now"
  by (simp add: content_block_post_def Let_def)

text \<open>
  C11. \<open>MarkDeleteView.delete\<close> redirects to the success URL, and afterwards the
  object's row is hidden from every listing of the model: the permitted queryset,
  \<open>get_list\<close> and the console queryset.
\<close>

theorem mark_delete_view_hides:
  "fst (mark_delete_view (Inr obj) (Inr url) now d) = Inr url
   \<and> (\<forall>c\<in>set (permitted staging ct (snd (mark_delete_view (Inr obj) (Inr url) now d)))
          \<union> set (get_list ct (snd (mark_delete_view (Inr obj) (Inr url) now d)))
          \<union> set (get_console_queryset ct (snd (mark_delete_view (Inr obj) (Inr url) now d))).
        content_key c \<noteq> content_key obj)"
proof -
  let ?r = "state_save now (obj\<lparr>c_state := STATE_DELETED\<rparr>)"
  let ?d = "snd (mark_delete_view (Inr obj) (Inr url) now d)"
  have cs: "contents ?d = save_row content_key ?r (contents d)" by (simp add: mark_delete_view_run)
  have kr: "content_key ?r = content_key obj"
    by (simp only: state_save_key) (simp add: content_key_def)
  have hide: "content_key c \<noteq> content_key obj" if "c \<in> set (contents ?d)" "c_state c \<noteq> STATE_DELETED" for c
  proof
    assume "content_key c = content_key obj"
    with that(1) cs kr have "c = ?r" using save_row_key_rows by metis
    with that(2) show False by simp
  qed
  show ?thesis
  proof
    show "fst (mark_delete_view (Inr obj) (Inr url) now d) = Inr url"
      by (simp add: mark_delete_view_run)
  next
    show "\<forall>c\<in>set (permitted staging ct ?d) \<union> set (get_list ct ?d) \<union> set (get_console_queryset ct ?d).
            content_key c \<noteq> content_key obj"
      using hide visible_rows [where d = ?d] by blast
  qed
qed

theorem mark_delete_view_hides_witness:
  "fst (mark_delete_view (Inr (example_content 10 STATE_PUBLISHED)) (Inr ''/'') 9 (example_db STATE_PUBLISHED)) = Inr ''/''
   \<and> list_all (\<lambda>c. content_key c \<noteq> content_key (example_content 10 STATE_PUBLISHED))
       (permitted False 7 (snd (mark_delete_view (Inr (example_content 10 STATE_PUBLISHED)) (Inr ''/'') 9
                                  (example_db STATE_PUBLISHED))))
   \<and> permitted False 7 (example_db STATE_PUBLISHED) = [example_content 10 STATE_PUBLISHED]"
proof -
  have "permitted False 7 (example_db STATE_PUBLISHED) = [example_content 10 STATE_PUBLISHED]"
    by code_simp
  then show ?thesis
    using mark_delete_view_hides [of "example_content 10 STATE_PUBLISHED" "''/''" 9
                                     "example_db STATE_PUBLISHED" False 7]
    by (simp add: list_all_iff)
qed

end
