(* ===== verification/Widgets.thy ===== *)
theory Widgets
  imports Mixins
begin

text \<open>
  \<open>DateSelectorWidget\<close> of \<open>src/tunobase/core/widgets.py\<close>: three select boxes
  (day, month, year) whose year choices are computed from the current date, the
  split of a date into the three values, and the parse of the three posted values
  back into a date.  The part of Python's \<open>datetime\<close> the widget calls is
  written out: dates are checked as \<open>datetime.date\<close> checks them, and
  \<open>now - timedelta(days = k)\<close> is computed on proleptic Gregorian ordinals with
  CPython's \<open>_ymd2ord\<close> and the year part of \<open>_ord2ymd\<close>.  Form data is read as
  \<open>QueryDict.get\<close> reads it (\<open>qd_getitem\<close>).
\<close>

subsection \<open>The calendar of \<open>datetime\<close>\<close>

record date =
  year :: int
  month :: int
  day :: int

definition is_leap :: "int \<Rightarrow> bool" where
  "is_leap y \<longleftrightarrow> y mod 4 = 0 \<and> (y mod 100 \<noteq> 0 \<or> y mod 400 = 0)"

definition days_in_month :: "int \<Rightarrow> int \<Rightarrow> int" where
  "days_in_month y m =
     (if m = 2 \<and> is_leap y then 29 else [31, 28, 31, 30, 31, 30, 31, 31, 30, 31, 30, 31] ! nat (m - 1))"

text \<open>\<open>datetime.date(year, month, day)\<close>: \<open>MINYEAR = 1\<close>, \<open>MAXYEAR = 9999\<close>.\<close>

definition make_date :: "int \<Rightarrow> int \<Rightarrow> int \<Rightarrow> py_error + date" where
  "make_date y m d =
     (if y < 1 \<or> 9999 < y then Inl ValueError
      else if m < 1 \<or> 12 < m then Inl ValueError
      else if d < 1 \<or> days_in_month y m < d then Inl ValueError
      else Inr \<lparr>year = y, month = m, day = d\<rparr>)"

definition days_before_year :: "int \<Rightarrow> int" where
  "days_before_year y = (let y1 = y - 1 in y1 * 365 + y1 div 4 - y1 div 100 + y1 div 400)"

definition days_before_month :: "int \<Rightarrow> int \<Rightarrow> int" where
  "days_before_month y m = sum_list (map (days_in_month y) [1..m - 1])"

definition to_ordinal :: "date \<Rightarrow> int" where
  "to_ordinal d = days_before_year (year d) + days_before_month (year d) (month d) + day d"

text \<open>
  The year of an ordinal, as \<open>_ord2ymd\<close> computes it: whole 400-, 100-, 4- and
  1-year cycles are peeled off; a remainder of four centuries or four years is the
  last day of the year before.
\<close>

definition ord_year :: "int \<Rightarrow> int" where
  "ord_year n0 =
     (let n = n0 - 1;
          n400 = n div 146097; n = n mod 146097;
          n100 = n div 36524; n = n mod 36524;
          n4 = n div 1461; n = n mod 1461;
          n1 = n div 365;
          y = n400 * 400 + 1 + n100 * 100 + n4 * 4 + n1
      in if n1 = 4 \<or> n100 = 4 then y - 1 else y)"

text \<open>
  \<open>(datetime.datetime.now() - datetime.timedelta(days=k)).year\<close>: the result
  must lie between 0001-01-01 and 9999-12-31 (ordinal 3652059), else Python raises
  \<open>OverflowError\<close>.
\<close>

definition year_days_back :: "date \<Rightarrow> int \<Rightarrow> py_error + int" where
  "year_days_back now k =
     (let n = to_ordinal now - k in
      if n < 1 \<or> 3652059 < n then Inl OverflowError else Inr (ord_year n))"

subsection \<open>\<open>DateSelectorWidget\<close>\<close>

definition MONTHS :: "(int \<times> string) list" where
  "MONTHS = [(1, ''Jan''), (2, ''Feb''), (3, ''Mar''), (4, ''Apr''), (5, ''May''), (6, ''Jun''),
             (7, ''Jul''), (8, ''Aug''), (9, ''Sep''), (10, ''Oct''), (11, ''Nov''), (12, ''Dec'')]"

record date_selector =
  day_choices :: "(int \<times> int) list"
  month_choices :: "(int \<times> string) list"
  year_choices :: "(int \<times> int) list"

text \<open>
  \<open>__init__\<close>: \<open>max_num_years_back\<close> is decremented when it is not negative;
  the years are \<open>range(lo, hi)\<close> with \<open>lo\<close> the year \<open>365 * min_num_years_back\<close>
  days ago and \<open>hi\<close> the year \<open>365 * max_num_years_back\<close> days ago, reversed on
  request.  The \<open>attrs\<close> only reach the rendering and are left out.
\<close>

definition date_selector_init :: "date \<Rightarrow> int \<Rightarrow> int \<Rightarrow> bool \<Rightarrow> py_error + date_selector" where
  "date_selector_init now min_num_years_back max_num_years_back0 reverse_years =
     (let max_num_years_back =
            (if max_num_years_back0 \<ge> 0 then max_num_years_back0 - 1 else max_num_years_back0);
          days = map (\<lambda>d. (d, d)) [1..31];
          months = map (\<lambda>m. (m, the (map_of MONTHS m))) [1..12]
      in case year_days_back now (min_num_years_back * 365) of
           Inl e \<Rightarrow> Inl e
         | Inr lo \<Rightarrow>
             (case year_days_back now (max_num_years_back * 365) of
                Inl e \<Rightarrow> Inl e
              | Inr hi \<Rightarrow>
                  (let ys = [lo..hi - 1];
                       years = map (\<lambda>y. (y, y)) (if reverse_years then rev ys else ys)
                   in Inr \<lparr>day_choices = days, month_choices = months, year_choices = years\<rparr>)))"

text \<open>\<open>decompress\<close>: a date (always true in Python) or a false value.\<close>

definition decompress :: "date option \<Rightarrow> int option list" where
  "decompress value =
     (case value of
        Some v \<Rightarrow> [Some (day v), Some (month v), Some (year v)]
      | None \<Rightarrow> [None, None, None])"

definition format_output :: "string list \<Rightarrow> string" where
  "format_output rendered_widgets = concat rendered_widgets"

text \<open>
  \<open>value_from_datadict\<close>: each select reads \<open>data.get(name + '_i')\<close>;
  \<open>int(None)\<close> raises \<open>TypeError\<close> and \<open>int\<close> of a non-numeral
  \<open>ValueError\<close>; the arguments are converted day, month, year in that order,
  then \<open>datetime.date\<close> checks them.  Only \<open>ValueError\<close> is caught, giving
  the empty string.
\<close>

datatype dsw_value = EmptyString | DateValue date

definition py_int_arg :: "string option \<Rightarrow> py_error + int" where
  "py_int_arg v =
     (case v of
        None \<Rightarrow> Inl TypeError
      | Some s \<Rightarrow> (case py_int s of None \<Rightarrow> Inl ValueError | Some n \<Rightarrow> Inr n))"

definition date_of_datelist :: "string option list \<Rightarrow> py_error + date" where
  "date_of_datelist datelist =
     (case py_int_arg (datelist ! 0) of Inl e \<Rightarrow> Inl e | Inr d \<Rightarrow>
      (case py_int_arg (datelist ! 1) of Inl e \<Rightarrow> Inl e | Inr m \<Rightarrow>
       (case py_int_arg (datelist ! 2) of Inl e \<Rightarrow> Inl e | Inr y \<Rightarrow>
        make_date y m d)))"

definition value_from_datadict :: "(string \<times> string) list \<Rightarrow> string \<Rightarrow> py_error + dsw_value" where
  "value_from_datadict data name =
     (let datelist = map (\<lambda>i. qd_getitem data (name @ i)) [''_0'', ''_1'', ''_2'']
      in case date_of_datelist datelist of
           Inl ValueError \<Rightarrow> Inr EmptyString
         | Inl e \<Rightarrow> Inl e
         | Inr D \<Rightarrow> Inr (DateValue D))"

text \<open>
  The form data the three selects post when each shows the value \<open>decompress\<close>
  gave it: the option values are the \<open>str()\<close> of the integers.
\<close>

definition posted_data :: "string \<Rightarrow> int option list \<Rightarrow> (string \<times> string) list" where
  "posted_data name vals = [(name @ sfx, py_str_int v). (sfx, Some v) \<leftarrow> zip [''_0'', ''_1'', ''_2''] vals]"

subsection \<open>The year of an ordinal\<close>

lemma div_cycle: "0 \<le> r \<Longrightarrow> r < k \<Longrightarrow> (k * q + r) div k = (q::int)"
  by (simp add: div_pos_pos_trivial)

lemma days_before_year_cycles:
  fixes a b c e :: int
  assumes "0 \<le> b" "b < 4" "0 \<le> c" "c < 25" "0 \<le> e" "e < 4"
  shows "days_before_year (400 * a + 100 * b + 4 * c + e + 1) = 146097 * a + 36524 * b + 1461 * c + 365 * e"
proof -
  have d4: "(400 * a + 100 * b + 4 * c + e) div 4 = 100 * a + 25 * b + c"
    using div_cycle [of e 4 "100 * a + 25 * b + c"] assms by (simp add: algebra_simps)
  have d100: "(400 * a + 100 * b + 4 * c + e) div 100 = 4 * a + b"
    using div_cycle [of "4 * c + e" 100 "4 * a + b"] assms by (simp add: algebra_simps)
  have d400: "(400 * a + 100 * b + 4 * c + e) div 400 = a"
    using div_cycle [of "100 * b + 4 * c + e" 400 a] assms by (simp add: algebra_simps)
  show ?thesis by (simp add: days_before_year_def d4 d100 d400)
qed

lemma days_before_year_at:
  fixes a b c e :: int
  assumes "y = 400 * a + 100 * b + 4 * c + e + 1"
    and "0 \<le> b" "b < 4" "0 \<le> c" "c < 25" "0 \<le> e" "e < 4"
  shows "days_before_year y = 146097 * a + 36524 * b + 1461 * c + 365 * e"
  using days_before_year_cycles [of b c e a] assms by simp

lemma ord_year_decomp:
  obtains a b c e r4 where "n = 146097 * a + 36524 * b + 1461 * c + 365 * e + r4 + 1"
    "0 \<le> b" "b \<le> 4" "0 \<le> c" "c \<le> 24" "0 \<le> e" "e \<le> 4" "0 \<le> r4" "r4 < 365"
    "b = 4 \<Longrightarrow> c = 0 \<and> e = 0 \<and> r4 = 0" "e = 4 \<Longrightarrow> r4 = 0 \<and> c < 24"
    "ord_year n = (if e = 4 \<or> b = 4 then 400 * a + 100 * b + 4 * c + e else 400 * a + 100 * b + 4 * c + e + 1)"
proof -
  define m where "m = n - 1"
  define a where "a = m div 146097"
  define r where "r = m mod 146097"
  define b where "b = r div 36524"
  define r2 where "r2 = r mod 36524"
  define c where "c = r2 div 1461"
  define r3 where "r3 = r2 mod 1461"
  define e where "e = r3 div 365"
  define r4 where "r4 = r3 mod 365"
  have m: "m = 146097 * a + 36524 * b + 1461 * c + 365 * e + r4"
    unfolding a_def b_def c_def e_def r4_def r3_def r2_def r_def
    by (metis (no_types, lifting) add.assoc div_mult_mod_eq mult.commute)
  have r: "0 \<le> r" "r < 146097" "r = 36524 * b + r2" "0 \<le> r2" "r2 < 36524"
    "r2 = 1461 * c + r3" "0 \<le> r3" "r3 < 1461" "r3 = 365 * e + r4" "0 \<le> r4" "r4 < 365"
    by (simp_all add: r_def r2_def r3_def r4_def b_def c_def e_def)
  have bc: "0 \<le> b" "b \<le> 4" "0 \<le> c" "c \<le> 24" "0 \<le> e" "e \<le> 4"
  proof -
    have "r div 36524 \<le> 146096 div 36524" "r2 div 1461 \<le> 36523 div 1461" "r3 div 365 \<le> 1460 div 365"
      using r by (simp_all add: zdiv_mono1)
    moreover have "0 \<le> r div 36524" "0 \<le> r2 div 1461" "0 \<le> r3 div 365"
      using r(1,4,7) by simp_all
    ultimately show "0 \<le> b" "b \<le> 4" "0 \<le> c" "c \<le> 24" "0 \<le> e" "e \<le> 4"
      unfolding b_def c_def e_def by simp_all
  qed
  have oy: "ord_year n = (if e = 4 \<or> b = 4 then 400 * a + 100 * b + 4 * c + e else 400 * a + 100 * b + 4 * c + e + 1)"
    by (simp add: ord_year_def Let_def m_def [symmetric] a_def r_def b_def r2_def c_def r3_def e_def)
  have n: "n = 146097 * a + 36524 * b + 1461 * c + 365 * e + r4 + 1"
    using m by (simp add: m_def)
  have b4: "b = 4 \<Longrightarrow> c = 0 \<and> e = 0 \<and> r4 = 0" and e4: "e = 4 \<Longrightarrow> r4 = 0 \<and> c < 24"
    using r bc by arith+
  show ?thesis by (rule that [OF n bc r(10,11) b4 e4 oy])
qed

lemma days_before_year_next_cycle:
  fixes a b c e :: int
  assumes y: "y = 400 * a + 100 * b + 4 * c + e + 1"
    and bc: "0 \<le> b" "b < 4" "0 \<le> c" "c \<le> 24" "0 \<le> e" "e < 4"
  shows "146097 * a + 36524 * b + 1461 * c + 365 * (e + 1) \<le> days_before_year (y + 1)"
proof -
  consider "e < 3" | "e = 3" "c < 24" | "e = 3" "c = 24" "b < 3" | "e = 3" "c = 24" "b = 3"
    using bc by arith
  then show ?thesis
  proof cases
    case 1
    then show ?thesis using days_before_year_at [of "y + 1" a b c "e + 1"] y bc by simp
  next
    case 2
    then show ?thesis using days_before_year_at [of "y + 1" a b "c + 1" 0] y bc by simp
  next
    case 3
    then show ?thesis using days_before_year_at [of "y + 1" a "b + 1" 0 0] y bc by simp
  next
    case 4
    then show ?thesis using days_before_year_at [of "y + 1" "a + 1" 0 0 0] y by simp
  qed
qed

lemma ord_year_bounds:
  assumes "0 < n"
  shows "days_before_year (ord_year n) < n \<and> n \<le> days_before_year (ord_year n + 1)"
proof -
  obtain a b c e r4 where n: "n = 146097 * a + 36524 * b + 1461 * c + 365 * e + r4 + 1"
    and bc: "0 \<le> b" "b \<le> 4" "0 \<le> c" "c \<le> 24" "0 \<le> e" "e \<le> 4" "0 \<le> r4" "r4 < 365"
    and b4: "b = 4 \<Longrightarrow> c = 0 \<and> e = 0 \<and> r4 = 0" and e4: "e = 4 \<Longrightarrow> r4 = 0 \<and> c < 24"
    and oy: "ord_year n = (if e = 4 \<or> b = 4 then 400 * a + 100 * b + 4 * c + e else 400 * a + 100 * b + 4 * c + e + 1)"
    by (rule ord_year_decomp [of n]) blast
  show ?thesis
  proof (cases "b = 4")
    case True
    with b4 oy have y: "ord_year n = 400 * a + 100 * 3 + 4 * 24 + 3 + 1" and z: "c = 0" "e = 0" "r4 = 0" by simp_all
    have "days_before_year (ord_year n) = 146097 * a + 36524 * 3 + 1461 * 24 + 365 * 3"
      by (rule days_before_year_at [OF y]) simp_all
    moreover have "days_before_year (ord_year n + 1) = 146097 * (a + 1)"
      using days_before_year_at [of "ord_year n + 1" "a + 1" 0 0 0] y by simp
    ultimately show ?thesis using n True z by simp
  next
    case b: False
    then have b4: "b < 4" using bc by simp
    show ?thesis
    proof (cases "e = 4")
      case True
      with e4 b oy have y: "ord_year n = 400 * a + 100 * b + 4 * c + 3 + 1" and z: "r4 = 0" "c < 24" by simp_all
      have "days_before_year (ord_year n) = 146097 * a + 36524 * b + 1461 * c + 365 * 3"
        by (rule days_before_year_at [OF y]) (use bc b4 in simp_all)
      moreover have "days_before_year (ord_year n + 1) = 146097 * a + 36524 * b + 1461 * (c + 1)"
        using days_before_year_at [of "ord_year n + 1" a b "c + 1" 0] y bc b4 z by simp
      ultimately show ?thesis using n True z by simp
    next
      case e: False
      with b oy have y: "ord_year n = 400 * a + 100 * b + 4 * c + e + 1" by simp
      have "days_before_year (ord_year n) = 146097 * a + 36524 * b + 1461 * c + 365 * e"
        by (rule days_before_year_at [OF y]) (use bc b4 e in simp_all)
      moreover have "146097 * a + 36524 * b + 1461 * c + 365 * (e + 1) \<le> days_before_year (ord_year n + 1)"
        using days_before_year_next_cycle [OF y] bc b4 e by simp
      ultimately show ?thesis using n bc by simp
    qed
  qed
qed

lemma div_pred:
  assumes "0 < (k::int)"
  shows "(y - 1) div k = (if y mod k = 0 then y div k - 1 else y div k)"
proof -
  have y: "y - 1 = k * (y div k) + (y mod k - 1)" by (simp add: algebra_simps)
  have "0 \<le> y mod k" "y mod k < k" using assms by simp_all
  show ?thesis
  proof (cases "y mod k = 0")
    case True
    have "y - 1 = k * (y div k - 1) + (k - 1)" using y True by (simp add: algebra_simps)
    then have "(y - 1) div k = (k * (y div k - 1) + (k - 1)) div k" by (rule arg_cong)
    also have "\<dots> = y div k - 1" by (rule div_cycle) (use assms in simp_all)
    finally show ?thesis using True by simp
  next
    case False
    have "(y - 1) div k = (k * (y div k) + (y mod k - 1)) div k" using y by (rule arg_cong)
    also have "\<dots> = y div k"
      by (rule div_cycle) (use False \<open>0 \<le> y mod k\<close> \<open>y mod k < k\<close> in simp_all)
    finally show ?thesis using False by simp
  qed
qed

lemma year_length:
  "days_before_year (y + 1) = days_before_year y + (if is_leap y then 366 else 365)"
proof -
  have "y mod 100 = 0 \<Longrightarrow> y mod 4 = 0" "y mod 400 = 0 \<Longrightarrow> y mod 100 = 0" by presburger+
  then show ?thesis
    by (auto simp: days_before_year_def is_leap_def div_pred)
qed

lemma days_before_year_mono:
  assumes "y \<le> y'"
  shows "days_before_year y + 365 * (y' - y) \<le> days_before_year y'"
proof -
  have "days_before_year y + 365 * int k \<le> days_before_year (y + int k)" for k
  proof (induction k)
    case (Suc k)
    then show ?case using year_length [of "y + int k"] by (simp add: algebra_simps split: if_splits)
  qed simp
  from this [of "nat (y' - y)"] assms show ?thesis by simp
qed

lemma ord_year_unique:
  assumes "0 < n" "days_before_year y < n" "n \<le> days_before_year (y + 1)"
  shows "ord_year n = y"
proof -
  have b: "days_before_year (ord_year n) < n" "n \<le> days_before_year (ord_year n + 1)"
    using ord_year_bounds [OF assms(1)] by simp_all
  show ?thesis
  proof (rule ccontr)
    assume "ord_year n \<noteq> y"
    then consider "ord_year n + 1 \<le> y" | "y + 1 \<le> ord_year n" by linarith
    then show False
    proof cases
      case 1
      have "0 \<le> 365 * (y - (ord_year n + 1))" using 1 by simp
      then show False using days_before_year_mono [OF 1] b assms by linarith
    next
      case 2
      have "0 \<le> 365 * (ord_year n - (y + 1))" using 2 by simp
      then show False using days_before_year_mono [OF 2] b assms by linarith
    qed
  qed
qed

text \<open>
  CPython's year computation for an ordinal (peeling 400-, 100-, 4- and 1-year
  cycles off the day count) is exact: for every positive ordinal it yields the one
  year whose first day is at or before the ordinal and whose successor's first day is
  after it.
\<close>

lemma ord_year_iff:
  assumes "0 < n"
  shows "ord_year n = y \<longleftrightarrow> days_before_year y < n \<and> n \<le> days_before_year (y + 1)"
  using ord_year_bounds [OF assms] ord_year_unique [OF assms] by blast

theorem ord_year_iff_witness:
  "ord_year 739251 = 2024 \<and> days_before_year 2024 < 739251 \<and> (739251::int) \<le> days_before_year 2025"
proof -
  have b: "days_before_year 2024 < 739251" "(739251::int) \<le> days_before_year 2025"
    by (simp_all add: days_before_year_def)
  with ord_year_iff [of 739251 2024] show ?thesis by simp
qed

subsection \<open>Dates and ordinals\<close>

lemma month_bounds:
  assumes "1 \<le> m" "m \<le> 12"
  shows "0 \<le> days_before_month y m \<and>
         days_before_month y m + days_in_month y m \<le> (if is_leap y then 366 else 365) \<and>
         (m = 1 \<longrightarrow> days_before_month y m = 0) \<and> (2 \<le> m \<longrightarrow> 31 \<le> days_before_month y m)"
proof -
  have "m = 1 \<or> m = 2 \<or> m = 3 \<or> m = 4 \<or> m = 5 \<or> m = 6 \<or> m = 7 \<or> m = 8 \<or> m = 9 \<or> m = 10 \<or> m = 11 \<or> m = 12"
    using assms by arith
  then show ?thesis
    by (elim disjE) (simp_all add: days_before_month_def days_in_month_def upto.simps)
qed

lemma make_date_Inr:
  "make_date y m d = Inr D \<longleftrightarrow>
     D = \<lparr>year = y, month = m, day = d\<rparr> \<and> 1 \<le> y \<and> y \<le> 9999 \<and> 1 \<le> m \<and> m \<le> 12 \<and> 1 \<le> d \<and> d \<le> days_in_month y m"
  by (auto simp: make_date_def)

lemma to_ordinal_year:
  assumes "make_date y m d = Inr D"
  shows "days_before_year y < to_ordinal D \<and> to_ordinal D \<le> days_before_year (y + 1)"
  using assms month_bounds [of m y] year_length [of y]
  by (auto simp: make_date_Inr to_ordinal_def)

lemma days_before_year_nonneg: "1 \<le> y \<Longrightarrow> 0 \<le> days_before_year y"
  using days_before_year_mono [of 1 y] by (simp add: days_before_year_def)

text \<open>
  Converting a valid date to its ordinal and taking the year of the ordinal gives
  back the date's year, so \<open>(now - timedelta(days=k)).year\<close> is read off the
  ordinal correctly.
\<close>

theorem ord_year_to_ordinal:
  assumes "make_date y m d = Inr D"
  shows "ord_year (to_ordinal D) = y"
proof (rule ord_year_unique)
  have "1 \<le> y" using assms by (simp add: make_date_Inr)
  then show "0 < to_ordinal D"
    using to_ordinal_year [OF assms] days_before_year_nonneg by fastforce
qed (use to_ordinal_year [OF assms] in simp_all)

theorem ord_year_to_ordinal_witness:
  "make_date 2024 12 31 = Inr \<lparr>year = 2024, month = 12, day = 31\<rparr>
   \<and> ord_year (to_ordinal \<lparr>year = 2024, month = 12, day = 31\<rparr>) = 2024"
proof -
  have d: "make_date 2024 12 31 = Inr \<lparr>year = 2024, month = 12, day = 31\<rparr>"
    by (simp add: make_date_def days_in_month_def)
  with ord_year_to_ordinal [OF d] show ?thesis by simp
qed

subsection \<open>The year choices\<close>

lemma year_days_back_next_year:
  assumes "make_date y m d = Inr now" "y < 9999"
  shows "year_days_back now (- 365) = Inr (if is_leap y \<and> m = 1 \<and> d = 1 then y else y + 1)"
proof -
  have v: "1 \<le> y" "1 \<le> m" "m \<le> 12" "1 \<le> d" "d \<le> days_in_month y m" and now: "now = \<lparr>year = y, month = m, day = d\<rparr>"
    using assms(1) by (simp_all add: make_date_Inr)
  note mb = month_bounds [OF v(2,3), of y]
  let ?n = "to_ordinal now + 365"
  have n: "?n = days_before_year y + days_before_month y m + d + 365" by (simp add: now to_ordinal_def)
  have l1: "days_before_year (y + 1) = days_before_year y + (if is_leap y then 366 else 365)"
    by (rule year_length)
  have l2: "days_before_year (y + 1 + 1) \<ge> days_before_year (y + 1) + 365"
    using year_length [of "y + 1"] by simp
  have top: "days_before_year (y + 1 + 1) \<le> 3652059"
    using days_before_year_mono [of "y + 1 + 1" 10000] assms(2) by (simp add: days_before_year_def)
  have pos: "0 \<le> days_before_year y" using days_before_year_nonneg v(1) by simp
  show ?thesis
  proof (cases "is_leap y \<and> m = 1 \<and> d = 1")
    case True
    then have "?n = days_before_year (y + 1)" using n l1 mb by simp
    then have "ord_year ?n = y" using pos l1 by (intro ord_year_unique) simp_all
    with True \<open>?n = days_before_year (y + 1)\<close> l1 pos top l2 show ?thesis
      by (simp add: year_days_back_def)
  next
    case False
    then have "days_before_year (y + 1) < ?n" using n l1 mb v by (auto split: if_splits)
    moreover have "?n \<le> days_before_year (y + 1 + 1)" using n l1 l2 mb v by (simp split: if_splits)
    moreover have "0 < ?n" using n pos mb v by simp
    ultimately have "ord_year ?n = y + 1" by (intro ord_year_unique) simp_all
    with False \<open>?n \<le> days_before_year (y + 1 + 1)\<close> \<open>0 < ?n\<close> top
    show ?thesis by (simp add: year_days_back_def)
  qed
qed

lemma date_selector_months: "map (\<lambda>m. (m, the (map_of MONTHS m))) [1..12] = MONTHS"
  by (simp add: MONTHS_def upto.simps)

text \<open>
  \<open>DateSelectorWidget(min_num_years_back=k)\<close> with the default
  \<open>max_num_years_back\<close> offers days 1..31, the twelve months, and the years from
  the year \<open>365 * k\<close> days back up to the current year, except on 1 January of a
  leap year, when 365 days ahead is still the current year and the range stops at the
  year before.
\<close>

theorem date_selector_init_default:
  assumes "make_date y m d = Inr now" "y < 9999" "year_days_back now (k * 365) = Inr lo"
  shows "date_selector_init now k (- 1) r =
           Inr \<lparr>day_choices = map (\<lambda>d. (d, d)) [1..31], month_choices = MONTHS,
                year_choices = map (\<lambda>x. (x, x))
                  ((if r then rev else id) [lo..(if is_leap y \<and> m = 1 \<and> d = 1 then y - 1 else y)])\<rparr>"
  using assms(3) year_days_back_next_year [OF assms(1,2)]
  by (simp add: date_selector_init_def date_selector_months)

theorem date_selector_init_default_witness:
  "date_selector_init \<lparr>year = 2024, month = 1, day = 1\<rparr> 2 (- 1) False =
     Inr \<lparr>day_choices = map (\<lambda>d. (d, d)) [1..31], month_choices = MONTHS,
          year_choices = [(2022, 2022), (2023, 2023)]\<rparr>"
proof -
  have "make_date 2024 1 1 = Inr \<lparr>year = 2024, month = 1, day = 1\<rparr>"
    by (simp add: make_date_def days_in_month_def)
  moreover have "year_days_back \<lparr>year = 2024, month = 1, day = 1\<rparr> (2 * 365) = Inr 2022"
    by (simp add: year_days_back_def to_ordinal_def days_before_year_def days_before_month_def ord_year_def)
  ultimately show ?thesis
    using date_selector_init_default [of 2024 1 1 "\<lparr>year = 2024, month = 1, day = 1\<rparr>" 2 2022 False]
    by (simp add: is_leap_def upto.simps)
qed

text \<open>
  With \<open>min_num_years_back = 10\<close> on 31 December 2024 the oldest year offered is
  2015, not 2014: ten 365-day steps fall three leap days short of ten years.
\<close>

lemma date_selector_init_ten_years_back:
  "map fst (year_choices (projr (date_selector_init \<lparr>year = 2024, month = 12, day = 31\<rparr> 10 (- 1) False)))
     = [2015..2024]"
  by (simp add: date_selector_init_def year_days_back_def to_ordinal_def days_before_year_def
                days_before_month_def ord_year_def days_in_month_def is_leap_def upto.simps)

subsection \<open>Reading the posted values\<close>

lemma py_int_arg_str: "py_int_arg (Some (py_str_int i)) = Inr i"
  by (simp add: py_int_arg_def py_int_str)

text \<open>
  C35. \<open>value_from_datadict\<close> reads back every valid date the widget displays:
  posting the decompressed day, month and year gives the date itself.
\<close>

theorem value_from_datadict_roundtrip:
  assumes "make_date y m d = Inr D"
  shows "value_from_datadict (posted_data name (decompress (Some D))) name = Inr (DateValue D)"
proof -
  have D: "D = \<lparr>year = y, month = m, day = d\<rparr>" using assms by (simp add: make_date_Inr)
  show ?thesis
    using assms
    by (simp add: D value_from_datadict_def posted_data_def decompress_def qd_getitem_def
                  date_of_datelist_def py_int_arg_str)
qed

theorem value_from_datadict_roundtrip_witness:
  "value_from_datadict [(''birth_0'', ''29''), (''birth_1'', ''2''), (''birth_2'', ''2024'')] ''birth''
     = Inr (DateValue \<lparr>year = 2024, month = 2, day = 29\<rparr>)"
proof -
  have "make_date 2024 2 29 = Inr \<lparr>year = 2024, month = 2, day = 29\<rparr>"
    by (simp add: make_date_def days_in_month_def is_leap_def)
  moreover have "py_str_int 29 = ''29''" "py_str_int 2 = ''2''" "py_str_int 2024 = ''2024''"
    by code_simp+
  ultimately show ?thesis
    using value_from_datadict_roundtrip [of 2024 2 29 "\<lparr>year = 2024, month = 2, day = 29\<rparr>" "''birth''"]
    by (simp add: posted_data_def decompress_def)
qed

lemma py_int_arg_Inl: "py_int_arg v = Inl e \<Longrightarrow> e = ValueError \<or> (e = TypeError \<and> v = None)"
  by (auto simp: py_int_arg_def split: option.splits)

lemma make_date_Inl: "make_date y m d = Inl e \<Longrightarrow> e = ValueError"
  by (simp add: make_date_def split: if_splits)

lemma date_of_datelist_Inl:
  "date_of_datelist dl = Inl e \<Longrightarrow>
     e = ValueError \<or> (e = TypeError \<and> (dl ! 0 = None \<or> dl ! 1 = None \<or> dl ! 2 = None))"
  unfolding date_of_datelist_def
  by (auto split: sum.splits dest: py_int_arg_Inl make_date_Inl)

text \<open>
  The only exception \<open>value_from_datadict\<close> lets escape is \<open>TypeError\<close>,
  and only when one of the three fields is missing from the data; every non-numeral or
  invalid date gives the empty string.
\<close>

theorem value_from_datadict_errors:
  assumes "value_from_datadict data name = Inl e"
  shows "e = TypeError \<and> (\<exists>sfx\<in>set [''_0'', ''_1'', ''_2'']. qd_getitem data (name @ sfx) = None)"
proof -
  let ?dl = "map (\<lambda>i. qd_getitem data (name @ i)) [''_0'', ''_1'', ''_2'']"
  have "date_of_datelist ?dl = Inl e" and "e \<noteq> ValueError"
    using assms by (auto simp: value_from_datadict_def split: sum.splits py_error.splits)
  then show ?thesis using date_of_datelist_Inl by fastforce
qed

theorem value_from_datadict_errors_witness:
  "value_from_datadict [(''d_0'', ''1''), (''d_1'', ''1'')] ''d'' = Inl TypeError
   \<and> qd_getitem [(''d_0'', ''1''), (''d_1'', ''1'')] ''d_2'' = None"
proof -
  have v: "value_from_datadict [(''d_0'', ''1''), (''d_1'', ''1'')] ''d'' = Inl TypeError"
    by (simp add: value_from_datadict_def qd_getitem_def date_of_datelist_def py_int_arg_def
                  py_int_def py_strip_def is_py_space_def unsigned_int_def is_digit_def digits_value_def)
  from value_from_datadict_errors [OF v] v show ?thesis by (simp add: qd_getitem_def)
qed

end
