(* ===== verification/Slugs.thy ===== *)
theory Slugs
  imports Prelude "HOL-Library.Sublist"
begin

text \<open>
  \<open>SlugModel\<close> of \<open>src/tunobase/core/models.py\<close> and the \<open>slugify\<close> filter it
  calls (Django's \<open>django.utils.text.slugify\<close>, the library function the
  \<open>defaultfilters\<close> wrapper forwards to).  \<open>SlugModel.save\<close> computes
  \<open>slugify(unidecode(title))\<close> when the row has no slug; \<open>unidecode\<close> is a
  transliteration table of a library, passed in as a function.  \<open>slugify\<close> is:
  \<^verbatim>\<open>
    value = unicodedata.normalize('NFKD', value).encode('ascii', 'ignore').decode('ascii')
    value = re.sub('[^\w\s-]', '', value).strip().lower()
    return mark_safe(re.sub('[-\s]+', '-', value))
  \<close>
  Strings are Isabelle strings of 8-bit characters.  The NFKD step is modelled as
  dropping the non-ASCII characters: it is the identity on the ASCII text \<open>unidecode\<close>
  returns, which is the only input \<open>SlugModel.save\<close> gives it.  Without the
  \<open>re.UNICODE\<close> flag, \<open>\w\<close> is \<open>[a-zA-Z0-9_]\<close> and \<open>\s\<close> is
  \<open>[ \t\n\r\f\v]\<close> (\<open>is_py_space\<close>).
\<close>

definition is_ascii :: "char \<Rightarrow> bool" where
  "is_ascii c \<longleftrightarrow> (of_char c :: nat) < 128"

definition is_word_char :: "char \<Rightarrow> bool" where
  "is_word_char c \<longleftrightarrow>
     is_digit c \<or> (65 \<le> (of_char c :: nat) \<and> (of_char c :: nat) \<le> 90)
     \<or> (97 \<le> (of_char c :: nat) \<and> (of_char c :: nat) \<le> 122) \<or> c = CHR ''_''"

definition is_dash_space :: "char \<Rightarrow> bool" where
  "is_dash_space c \<longleftrightarrow> c = CHR ''-'' \<or> is_py_space c"

text \<open>
  \<open>re.sub('[-\s]+', '-', value)\<close>: the scan replaces each maximal run of dashes and
  white space, leftmost first, by one dash.  The recursive call skips the run, so the
  argument shrinks by at least one character: the termination proof is the measure
  \<open>length\<close>.
\<close>

function collapse_dashes :: "string \<Rightarrow> string" where
  "collapse_dashes [] = []"
| "collapse_dashes (c # cs) =
     (if is_dash_space c then CHR ''-'' # collapse_dashes (dropWhile is_dash_space cs)
      else c # collapse_dashes cs)"
  by pat_completeness auto
termination
  by (relation "measure length") (auto simp: le_imp_less_Suc length_dropWhile_le)

definition slugify :: "string \<Rightarrow> string" where
  "slugify value =
     (let value = filter is_ascii value;
          value = map ascii_lower
                    (py_strip (filter (\<lambda>c. is_word_char c \<or> is_py_space c \<or> c = CHR ''-'') value))
      in collapse_dashes value)"

text \<open>
  \<open>SlugModel.save\<close>: the slug is recomputed when the instance has no
  \<open>override_slug_save\<close> attribute and its slug is empty (\<open>not self.slug\<close>);
  otherwise it is kept.  The result is the slug the row is written with.
\<close>

definition slug_model_save :: "(string \<Rightarrow> string) \<Rightarrow> bool \<Rightarrow> string \<Rightarrow> string \<Rightarrow> string" where
  "slug_model_save unidecode override_slug_save title slug =
     (if \<not> override_slug_save \<and> slug = [] then slugify (unidecode title) else slug)"

text \<open>
  The shape of a slug: lower-case ASCII letters, digits, \<open>_\<close> and \<open>-\<close>, with no two
  dashes in a row.  Django's \<open>validate_slug\<close> (\<open>^[-a-zA-Z0-9_]+$\<close>) accepts exactly
  the non-empty strings over the alphabet.
\<close>

definition is_slug_char :: "char \<Rightarrow> bool" where
  "is_slug_char c \<longleftrightarrow>
     is_digit c \<or> (97 \<le> (of_char c :: nat) \<and> (of_char c :: nat) \<le> 122) \<or> c = CHR ''_'' \<or> c = CHR ''-''"

definition slug_ok :: "string \<Rightarrow> bool" where
  "slug_ok s \<longleftrightarrow> list_all is_slug_char s \<and> \<not> sublist ''--'' s"

definition validate_slug :: "string \<Rightarrow> bool" where
  "validate_slug s \<longleftrightarrow> s \<noteq> [] \<and> list_all (\<lambda>c. is_word_char c \<or> c = CHR ''-'') s"

subsection \<open>Lemmas\<close>

declare collapse_dashes.simps [simp del]

lemma collapse_dashes_Nil [simp]: "collapse_dashes [] = []"
  by (simp add: collapse_dashes.simps)

lemma collapse_dashes_word:
  "\<not> is_dash_space c \<Longrightarrow> collapse_dashes (c # cs) = c # collapse_dashes cs"
  by (simp add: collapse_dashes.simps)

lemma collapse_dashes_dash:
  "is_dash_space c \<Longrightarrow> collapse_dashes (c # cs) = CHR ''-'' # collapse_dashes (dropWhile is_dash_space cs)"
  by (simp add: collapse_dashes.simps)

lemma collapse_dashes_chars:
  "set (collapse_dashes s) \<subseteq> insert (CHR ''-'') (set s - Collect is_dash_space)"
proof (induction s rule: collapse_dashes.induct)
  case (2 c cs)
  show ?case
  proof (cases "is_dash_space c")
    case True
    have "set (dropWhile is_dash_space cs) \<subseteq> set cs" by (rule set_dropWhileD [THEN subsetI])
    with True 2(1) show ?thesis by (auto simp: collapse_dashes_dash)
  next
    case False
    with 2(2) show ?thesis by (auto simp: collapse_dashes_word)
  qed
qed simp

lemma collapse_dashes_hd:
  "collapse_dashes s \<noteq> [] \<Longrightarrow> \<not> is_dash_space (hd s) \<Longrightarrow> hd (collapse_dashes s) = hd s"
  by (cases s) (auto simp: collapse_dashes_word)

lemma dropWhile_hd_not: "dropWhile P xs \<noteq> [] \<Longrightarrow> \<not> P (hd (dropWhile P xs))"
  by (induction xs) auto

lemma collapse_dashes_no_double: "\<not> sublist ''--'' (collapse_dashes s)"
proof (induction s rule: collapse_dashes.induct)
  case (2 c cs)
  show ?case
  proof (cases "is_dash_space c")
    case True
    let ?r = "collapse_dashes (dropWhile is_dash_space cs)"
    have "?r = [] \<or> hd ?r \<noteq> CHR ''-''"
    proof (cases "?r = []")
      case False
      then have ne: "dropWhile is_dash_space cs \<noteq> []" by (metis collapse_dashes_Nil)
      have "\<not> is_dash_space (hd (dropWhile is_dash_space cs))" by (rule dropWhile_hd_not [OF ne])
      with False collapse_dashes_hd [OF False] show ?thesis by (simp add: is_dash_space_def)
    qed simp
    with True 2(1) show ?thesis
      by (cases ?r) (auto simp: collapse_dashes_dash sublist_Cons_right)
  next
    case False
    then have "c \<noteq> CHR ''-''" by (simp add: is_dash_space_def)
    with False 2(2) show ?thesis
      by (auto simp: collapse_dashes_word sublist_Cons_right)
  qed
qed simp

lemma collapse_dashes_id:
  "\<not> sublist ''--'' s \<Longrightarrow> \<not> list_ex is_py_space s \<Longrightarrow> collapse_dashes s = s"
proof (induction s rule: collapse_dashes.induct)
  case (2 c cs)
  then have cs: "\<not> sublist ''--'' cs" "\<not> list_ex is_py_space cs" "\<not> is_py_space c"
    by (auto simp: sublist_Cons_right)
  show ?case
  proof (cases "is_dash_space c")
    case True
    then have c: "c = CHR ''-''" using cs(3) by (simp add: is_dash_space_def)
    have "dropWhile is_dash_space cs = cs"
    proof (cases cs)
      case (Cons x xs)
      with 2(3) c cs(2) have "\<not> is_dash_space x" by (auto simp: is_dash_space_def sublist_Cons_right)
      with Cons show ?thesis by simp
    qed simp
    with True c 2(1) cs show ?thesis by (simp add: collapse_dashes_dash)
  next
    case False
    with 2(2) cs show ?thesis by (simp add: collapse_dashes_word)
  qed
qed simp

lemma ascii_lower_slug_char:
  "is_word_char c \<or> c = CHR ''-'' \<Longrightarrow> is_slug_char (ascii_lower c)"
  by (auto simp: is_word_char_def is_slug_char_def ascii_lower_def is_digit_def)

lemma slug_char_fixed:
  "is_slug_char c \<Longrightarrow> is_ascii c \<and> (is_word_char c \<or> c = CHR ''-'') \<and> \<not> is_py_space c
                       \<and> ascii_lower c = c"
  by (auto simp: is_slug_char_def is_ascii_def is_word_char_def is_py_space_def ascii_lower_def is_digit_def)

lemma slugify_chars: "list_all is_slug_char (slugify s)"
proof -
  let ?v = "map ascii_lower (py_strip (filter (\<lambda>c. is_word_char c \<or> is_py_space c \<or> c = CHR ''-'') (filter is_ascii s)))"
  have strip_sub: "set (py_strip xs) \<subseteq> set xs" for xs :: string
    unfolding py_strip_def by (metis set_dropWhileD set_rev subsetI)
  have "is_slug_char c" if c: "c \<in> set ?v" "\<not> is_dash_space c" for c
  proof -
    let ?f = "filter (\<lambda>c. is_word_char c \<or> is_py_space c \<or> c = CHR ''-'') (filter is_ascii s)"
    from c(1) obtain x where x0: "x \<in> set (py_strip ?f)" and cx: "c = ascii_lower x"
      by (auto simp del: filter_filter)
    from x0 strip_sub have x: "x \<in> set ?f" by blast
    have "\<not> is_py_space x"
      using c(2) cx by (auto simp: is_dash_space_def is_py_space_def ascii_lower_def)
    with x have "is_word_char x \<or> x = CHR ''-''" by auto
    with cx show ?thesis by (simp add: ascii_lower_slug_char)
  qed
  moreover have "is_slug_char (CHR ''-'')" by (simp add: is_slug_char_def)
  ultimately have "\<forall>c\<in>set (collapse_dashes ?v). is_slug_char c"
    using collapse_dashes_chars [of ?v] by blast
  then show ?thesis unfolding slugify_def Let_def list_all_iff .
qed

text \<open>
  \<open>slugify\<close> always returns a slug: only lower-case ASCII letters, digits,
  underscores and dashes, and never two dashes in a row; and it is idempotent.
\<close>

lemma slugify_slug_ok: "slug_ok (slugify s)"
  using slugify_chars [of s] collapse_dashes_no_double by (simp add: slug_ok_def slugify_def Let_def)

lemma slugify_idempotent: "slugify (slugify s) = slugify s"
proof -
  let ?t = "slugify s"
  have ok: "list_all is_slug_char ?t" "\<not> sublist ''--'' ?t"
    using slugify_chars [of s] collapse_dashes_no_double by (simp_all add: slugify_def Let_def)
  have fx: "\<forall>c\<in>set ?t. is_ascii c \<and> (is_word_char c \<or> c = CHR ''-'') \<and> \<not> is_py_space c \<and> ascii_lower c = c"
    using ok(1) slug_char_fixed by (auto simp: list_all_iff)
  then have f1: "filter is_ascii ?t = ?t"
    and f2: "filter (\<lambda>c. is_word_char c \<or> is_py_space c \<or> c = CHR ''-'') ?t = ?t"
    and ns: "list_all (\<lambda>c. \<not> is_py_space c) ?t" and nx: "\<not> list_ex is_py_space ?t"
    and lw: "map ascii_lower ?t = ?t"
    by (auto simp: filter_id_conv list_all_iff list_ex_iff map_idI)
  show ?thesis
    unfolding slugify_def [of ?t] Let_def f1 f2 py_strip_no_space [OF ns] lw
    by (rule collapse_dashes_id [OF ok(2) nx])
qed



text \<open>
  Two evaluations.  A title with no letter, digit or underscore gives the empty slug.
  \<open>SlugModel.save\<close> stores it without complaint, although \<open>validate_slug\<close>
  (which \<open>save()\<close> does not run) rejects it.  The next save of the row recomputes
  it, since the slug is still empty.
\<close>

lemma slugify_examples:
  "slugify ''  Hello,  World -- 2013! '' = ''hello-world-2013''"
  "slugify ''!!!'' = []" "\<not> validate_slug (slugify ''!!!'')"
  by (code_simp, code_simp, simp add: validate_slug_def slugify_def is_ascii_def is_word_char_def is_digit_def py_strip_def)

end
