(* ===== verification/Tagging.thy ===== *)
theory Tagging
  imports Mixins Slugs
begin

text \<open>
  The tagging application, \<open>src/tunobase/tagging\<close>: the \<open>Tag\<close> and
  \<open>ContentObjectTag\<close> tables (\<open>models.py\<close>), the queries of
  \<open>ContentObjectTagManager\<close> (\<open>managers.py\<close>), the bulk replacement of an
  object's tags by \<open>TagUpdateForm.save\<close> (\<open>forms.py\<close>), the two JSON views
  (\<open>views.py\<close>) and the two inclusion tags (\<open>templatetags/tagging_widgets.py\<close>).
  A content type is its id; \<open>Site.objects.get_current()\<close> is the \<open>site\<close>
  argument.  A table is a list of rows in insertion order; a \<open>ContentObjectTag\<close>
  row is its primary key paired with its fields, so that the objects the form builds
  before \<open>bulk_create\<close> (which have no key) are the field records alone.  A Python
  \<open>set\<close> of strings is a list without duplicates, iterated in the order of
  the last occurrence (\<open>remdups\<close>): the model fixes one iteration order, and
  what is proved about sets does not depend on it.  The database backend is the
  record \<open>tag_backend\<close>: whether it enforces column lengths, types and foreign
  keys, and which content types exist.  Nothing runs in a transaction, so an error
  leaves the rows written before it.
\<close>

subsection \<open>Tables\<close>

record tag =
  tag_pk :: nat
  tag_title :: string
  tag_slug :: string
  tag_site :: "nat option"
  description :: "string option"

record content_object_tag =
  cot_ctype :: int
  object_pk :: int
  cot_site :: nat
  cot_tag :: nat

record tag_db =
  tag_rows :: "tag list"
  cot_rows :: "(nat \<times> content_object_tag) list"
  next_tag_pk :: nat
  next_cot_pk :: nat

text \<open>
  \<open>filter(...).select_related('tag')\<close>: the matching rows joined with their tag
  (an inner join).  \<open>filter(site=None)\<close> is \<open>site IS NULL\<close>, which no row
  satisfies since the column is not null.
\<close>

definition tag_join :: "tag_db \<Rightarrow> (content_object_tag \<Rightarrow> bool) \<Rightarrow> (content_object_tag \<times> tag) list" where
  "tag_join d P = [(c, t). (_, c) \<leftarrow> cot_rows d, P c, t \<leftarrow> tag_rows d, tag_pk t = cot_tag c]"

subsection \<open>\<open>ContentObjectTagManager\<close>\<close>

definition get_tags_for_object :: "int \<Rightarrow> int \<Rightarrow> nat option \<Rightarrow> tag_db \<Rightarrow> (content_object_tag \<times> tag) list" where
  "get_tags_for_object ctype obj_pk site d =
     tag_join d (\<lambda>c. cot_ctype c = ctype \<and> object_pk c = obj_pk \<and> Some (cot_site c) = site)"

text \<open>
  \<open>ContentType.objects.get_by_natural_key(app_label, model)\<close> looks the pair up in
  the content-type table \<open>cts\<close>, raising \<open>DoesNotExist\<close> when it is absent.
\<close>

definition get_by_natural_key :: "((string \<times> string) \<times> int) list \<Rightarrow> string \<Rightarrow> string \<Rightarrow> py_error + int" where
  "get_by_natural_key cts app_label model =
     (case map_of cts (app_label, model) of None \<Rightarrow> Inl DoesNotExist | Some ct \<Rightarrow> Inr ct)"

definition get_unique_tags_for_object_type ::
  "((string \<times> string) \<times> int) list \<Rightarrow> string \<Rightarrow> string \<Rightarrow> nat option \<Rightarrow> tag_db \<Rightarrow> py_error + string list" where
  "get_unique_tags_for_object_type cts app_label model site d =
     (case get_by_natural_key cts app_label model of
        Inl e \<Rightarrow> Inl e
      | Inr ct \<Rightarrow>
          Inr (remdups (map (\<lambda>(c, t). tag_title t)
                 (tag_join d (\<lambda>c. cot_ctype c = ct \<and> Some (cot_site c) = site)))))"

text \<open>
  \<open>get_tag_counts_for_object_type\<close> iterates over the set of titles, so each
  \<open>tag\<close> is a string and \<open>tag.title\<close> is the bound method \<open>str.title\<close> of
  that string, not a title.  The dictionary is keyed by these method objects.
\<close>

datatype title_attr = TitleMethod string

fun tag_count_loop :: "string list \<Rightarrow> (title_attr \<rightharpoonup> int) \<Rightarrow> (title_attr \<rightharpoonup> int)" where
  "tag_count_loop [] tag_counter_dict = tag_counter_dict"
| "tag_count_loop (tag # tags) tag_counter_dict =
     (let title = TitleMethod tag in
      tag_count_loop tags
        (case tag_counter_dict title of
           Some n \<Rightarrow> tag_counter_dict(title \<mapsto> n + 1)
         | None \<Rightarrow> tag_counter_dict(title \<mapsto> 1)))"

definition get_tag_counts_for_object_type ::
  "((string \<times> string) \<times> int) list \<Rightarrow> string \<Rightarrow> string \<Rightarrow> nat option \<Rightarrow> tag_db \<Rightarrow> py_error + (title_attr \<rightharpoonup> int)" where
  "get_tag_counts_for_object_type cts app_label model site d =
     (case get_unique_tags_for_object_type cts app_label model site d of
        Inl e \<Rightarrow> Inl e
      | Inr tags \<Rightarrow> Inr (tag_count_loop tags Map.empty))"

subsection \<open>\<open>TagUpdateForm.save\<close>\<close>

text \<open>
  The \<open>tag_object_pk\<close> form value is a string; filtering the integer column
  \<open>object_pk\<close> by it converts it with \<open>int()\<close>, raising \<open>ValueError\<close>
  before anything is deleted.
\<close>

definition delete_object_tags :: "nat \<Rightarrow> int \<Rightarrow> int \<Rightarrow> tag_db \<Rightarrow> tag_db" where
  "delete_object_tags site ct opk d =
     d\<lparr>cot_rows := filter (\<lambda>(_, c). \<not> (cot_site c = site \<and> cot_ctype c = ct \<and> object_pk c = opk)) (cot_rows d)\<rparr>"

text \<open>
  The database backend, as far as the tag form depends on it.  \<open>be_strict\<close>: the
  backend enforces column types and constraints (PostgreSQL does; SQLite, under
  Django 1.6, checks neither lengths, foreign keys nor \<open>PositiveIntegerField\<close>).
  \<open>be_unidecode\<close>: the transliteration \<open>SlugModel.save\<close> applies.
  \<open>be_ctypes\<close>: the keys of the \<open>django_content_type\<close> table.
\<close>

record tag_backend =
  be_strict :: bool
  be_unidecode :: "string \<Rightarrow> string"
  be_ctypes :: "int list"

text \<open>
  \<open>Tag\<close> is a \<open>SlugModel\<close>: \<open>title\<close> and \<open>slug\<close> are
  \<open>varchar(255)\<close>, and \<open>save()\<close> fills the slug with
  \<open>slugify(unidecode(title))\<close>.  A strict backend refuses a longer value with
  \<open>DataError\<close>.
\<close>

definition varchar_fits :: "tag_backend \<Rightarrow> string \<Rightarrow> bool" where
  "varchar_fits be s \<longleftrightarrow> \<not> be_strict be \<or> length s \<le> 255"

definition tag_fits :: "tag_backend \<Rightarrow> string \<Rightarrow> bool" where
  "tag_fits be title \<longleftrightarrow>
     varchar_fits be title \<and> varchar_fits be (slug_model_save (be_unidecode be) False title [])"

text \<open>
  \<open>Tag.objects.get_or_create(site=site, title=tag)\<close>: the lookup, and on
  \<open>DoesNotExist\<close> the \<open>save()\<close> of a new tag with the next key, which a strict
  backend refuses when the title or its slug is too long.
\<close>

definition tag_get_or_create :: "tag_backend \<Rightarrow> nat \<Rightarrow> string \<Rightarrow> (tag_db, tag) exc" where
  "tag_get_or_create be site title d =
     (case objects_get (\<lambda>t. tag_site t = Some site \<and> tag_title t = title) (tag_rows d) of
        Inr t \<Rightarrow> (Inr t, d)
      | Inl DoesNotExist \<Rightarrow>
          (let slug = slug_model_save (be_unidecode be) False title [];
               t = \<lparr>tag_pk = next_tag_pk d, tag_title = title, tag_slug = slug, tag_site = Some site,
                    description = None\<rparr>
           in if varchar_fits be title \<and> varchar_fits be slug
              then (Inr t, d\<lparr>tag_rows := tag_rows d @ [t], next_tag_pk := Suc (next_tag_pk d)\<rparr>)
              else (Inl DataError, d))
      | Inl e \<Rightarrow> (Inl e, d))"

fun tag_save_loop :: "tag_backend \<Rightarrow> nat \<Rightarrow> int \<Rightarrow> int \<Rightarrow> string list \<Rightarrow> content_object_tag list \<Rightarrow> (tag_db, content_object_tag list) exc" where
  "tag_save_loop be site ct opk [] content_object_tags = ret content_object_tags"
| "tag_save_loop be site ct opk (tag # tags) content_object_tags =
     ebind (tag_get_or_create be site tag) (\<lambda>tag_model.
     tag_save_loop be site ct opk tags
       (content_object_tags @ [\<lparr>cot_ctype = ct, object_pk = opk, cot_site = site, cot_tag = tag_pk tag_model\<rparr>]))"

text \<open>
  The columns of a \<open>ContentObjectTag\<close> row a strict backend checks on insertion:
  \<open>content_type_id\<close> and \<open>object_pk\<close> are 32-bit \<open>integer\<close> columns
  (\<open>DataError\<close> out of range), \<open>object_pk\<close> carries
  \<open>CHECK (object_pk >= 0)\<close> and \<open>content_type_id\<close> a foreign key
  (\<open>IntegrityError\<close>).  The site and the tag exist by construction.
\<close>

definition pg_int_fits :: "int \<Rightarrow> bool" where
  "pg_int_fits i \<longleftrightarrow> -2147483648 \<le> i \<and> i \<le> 2147483647"

definition cot_key_error :: "tag_backend \<Rightarrow> int \<Rightarrow> int \<Rightarrow> py_error option" where
  "cot_key_error be ct opk =
     (if \<not> be_strict be then None
      else if \<not> (pg_int_fits ct \<and> pg_int_fits opk) then Some DataError
      else if opk < 0 \<or> ct \<notin> set (be_ctypes be) then Some IntegrityError
      else None)"

text \<open>
  \<open>bulk_create\<close> is one \<open>INSERT\<close> of all rows inside an atomic block: it
  fails as a whole on the first refused row, or inserts the rows with fresh keys
  (\<open>cot_insert\<close>) without calling \<open>save()\<close>.
\<close>

definition cot_insert :: "content_object_tag list \<Rightarrow> tag_db \<Rightarrow> tag_db" where
  "cot_insert objs d =
     d\<lparr>cot_rows := cot_rows d @ zip [next_cot_pk d..<next_cot_pk d + length objs] objs,
       next_cot_pk := next_cot_pk d + length objs\<rparr>"

definition bulk_create :: "tag_backend \<Rightarrow> content_object_tag list \<Rightarrow> (tag_db, unit) exc" where
  "bulk_create be objs d =
     (case List.map_filter (\<lambda>ob. cot_key_error be (cot_ctype ob) (object_pk ob)) objs of
        e # _ \<Rightarrow> (Inl e, d)
      | [] \<Rightarrow> (Inr (), cot_insert objs d))"

text \<open>
  The part of \<open>save\<close> after the deletion: one \<open>get_or_create\<close> per distinct
  tag, then one \<open>bulk_create\<close> when there is a row to insert.  Nothing is rolled
  back: an error leaves the deletion and the tags created so far in place.
\<close>

definition tag_insert_phase :: "tag_backend \<Rightarrow> nat \<Rightarrow> int \<Rightarrow> int \<Rightarrow> string list \<Rightarrow> (tag_db, content_object_tag list) exc" where
  "tag_insert_phase be site ct opk tags =
     ebind (tag_save_loop be site ct opk (remdups tags) []) (\<lambda>content_object_tags.
     ebind (if content_object_tags \<noteq> [] then bulk_create be content_object_tags else ret ()) (\<lambda>_.
     ret content_object_tags))"

definition tag_update_save :: "tag_backend \<Rightarrow> nat \<Rightarrow> int \<Rightarrow> string \<Rightarrow> string list \<Rightarrow> (tag_db, content_object_tag list) exc" where
  "tag_update_save be site ct opk_str tags =
     (case py_int opk_str of
        None \<Rightarrow> raise ValueError
      | Some opk \<Rightarrow>
          ebind (modify (delete_object_tags site ct opk)) (\<lambda>_.
          tag_insert_phase be site ct opk tags))"

subsection \<open>Views\<close>

text \<open>
  \<open>RetrieveTags.get\<close>: the titles of the current site's tags that contain the
  \<open>term\<close> parameter case-insensitively (\<open>title__icontains\<close>, compared in lower
  case; the model lowers ASCII letters).
\<close>

definition icontains :: "string \<Rightarrow> string \<Rightarrow> bool" where
  "icontains s term = sublist (map ascii_lower term) (map ascii_lower s)"

definition retrieve_tags :: "nat \<Rightarrow> request \<Rightarrow> tag_db \<Rightarrow> string list" where
  "retrieve_tags site req d =
     (let term = (case qd_getitem (req_get req) ''term'' of Some t \<Rightarrow> t | None \<Rightarrow> '''')
      in [tag_title t. t \<leftarrow> tag_rows d, tag_site t = Some site, icontains (tag_title t) term])"

text \<open>
  \<open>UpdateTags\<close> (a \<open>FormView\<close> with \<open>form_class = TagUpdateForm\<close>): the
  form is valid when \<open>tag_content_type_id\<close> is an integer and
  \<open>tag_object_pk\<close> is a non-empty string; \<open>form_valid\<close> saves the list
  \<open>POST.getlist('tags')\<close> and answers \<open>{'success': True}\<close>,
  \<open>form_invalid\<close> answers \<open>{'success': False}\<close>.
\<close>

definition qd_getlist :: "(string \<times> string) list \<Rightarrow> string \<Rightarrow> string list" where
  "qd_getlist post k = [v. (k', v) \<leftarrow> post, k' = k]"

definition tag_form_clean :: "(string \<times> string) list \<Rightarrow> (int \<times> string) option" where
  "tag_form_clean post =
     (case (qd_getitem post ''tag_content_type_id'', qd_getitem post ''tag_object_pk'') of
        (Some ct, Some opk) \<Rightarrow>
          (case py_int ct of Some n \<Rightarrow> if opk = [] then None else Some (n, opk) | None \<Rightarrow> None)
      | _ \<Rightarrow> None)"

definition update_tags_post :: "tag_backend \<Rightarrow> nat \<Rightarrow> (string \<times> string) list \<Rightarrow> (tag_db, bool) exc" where
  "update_tags_post be site post =
     (case tag_form_clean post of
        None \<Rightarrow> ret False
      | Some (ct, opk) \<Rightarrow> ebind (tag_update_save be site ct opk (qd_getlist post ''tags'')) (\<lambda>_. ret True))"

subsection \<open>Inclusion tags\<close>

text \<open>\<open>tags_widget\<close>: the content type id and the titles of the object's tags on the site.\<close>

definition tags_widget :: "int \<Rightarrow> int \<Rightarrow> nat \<Rightarrow> tag_db \<Rightarrow> int \<times> string list" where
  "tags_widget ctype obj_pk site d =
     (ctype, map (\<lambda>(c, t). tag_title t) (get_tags_for_object ctype obj_pk (Some site) d))"

text \<open>
  \<open>tag_cloud_widget\<close>: the queryset is the set of title strings, so
  \<open>tag_obj.title\<close> is again the bound method of each string.
\<close>

definition tag_cloud_widget ::
  "((string \<times> string) \<times> int) list \<Rightarrow> string \<Rightarrow> string \<Rightarrow> nat \<Rightarrow> tag_db \<Rightarrow> py_error + title_attr list" where
  "tag_cloud_widget cts app_label model site d =
     (case get_unique_tags_for_object_type cts app_label model (Some site) d of
        Inl e \<Rightarrow> Inl e
      | Inr queryset \<Rightarrow> Inr (map TitleMethod queryset))"

subsection \<open>Invariant and abstraction\<close>

text \<open>
  The database invariant: tag keys are distinct and below the next key,
  \<open>unique_together = [('title', 'site')]\<close> holds, every \<open>ContentObjectTag\<close>
  references an existing tag (the foreign key) and has a distinct key below the next one.
\<close>

definition tag_inv :: "tag_db \<Rightarrow> bool" where
  "tag_inv d \<longleftrightarrow>
     distinct (map tag_pk (tag_rows d)) \<and> (\<forall>t\<in>set (tag_rows d). tag_pk t < next_tag_pk d) \<and>
     distinct (map (\<lambda>t. (tag_title t, tag_site t)) (tag_rows d)) \<and>
     (\<forall>(k, c)\<in>set (cot_rows d). cot_tag c \<in> tag_pk ` set (tag_rows d) \<and> k < next_cot_pk d) \<and>
     distinct (map fst (cot_rows d))"

text \<open>
  The abstract view the spec describes: the set of tag titles attached to an object,
  identified by site, content type and key, as \<open>get_tags_for_object\<close> reads it.
\<close>

definition object_tags :: "tag_db \<Rightarrow> nat \<times> int \<times> int \<Rightarrow> string set" where
  "object_tags d = (\<lambda>(site, ct, opk). (\<lambda>(c, t). tag_title t) ` set (get_tags_for_object ct opk (Some site) d))"

text \<open>
  \<open>tag_ext d d'\<close>: the tags table of \<open>d'\<close> extends that of \<open>d\<close> with rows
  whose keys are fresh, and the other table is untouched; \<open>get_or_create\<close> and
  the loop of \<open>save\<close> only do this.
\<close>

definition tag_ext :: "tag_db \<Rightarrow> tag_db \<Rightarrow> bool" where
  "tag_ext d d' \<longleftrightarrow>
     (\<exists>new. tag_rows d' = tag_rows d @ new \<and> (\<forall>t\<in>set new. next_tag_pk d \<le> tag_pk t)) \<and>
     cot_rows d' = cot_rows d \<and> next_cot_pk d' = next_cot_pk d \<and> next_tag_pk d \<le> next_tag_pk d'"

subsection \<open>Concurrent updates\<close>

text \<open>
  Two \<open>UpdateTags\<close> requests on the same object run without a transaction, so
  their two phases (the deletion, then the \<open>get_or_create\<close> loop and
  \<open>bulk_create\<close>) may interleave.  A schedule is a list of phases, each with the
  tags of the request that runs it.
\<close>

datatype save_phase = DeletePhase | InsertPhase

fun run_save_phases :: "tag_backend \<Rightarrow> nat \<Rightarrow> int \<Rightarrow> int \<Rightarrow> (string list \<times> save_phase) list \<Rightarrow> tag_db \<Rightarrow> tag_db" where
  "run_save_phases be site ct opk [] d = d"
| "run_save_phases be site ct opk ((tags, DeletePhase) # ps) d =
     run_save_phases be site ct opk ps (delete_object_tags site ct opk d)"
| "run_save_phases be site ct opk ((tags, InsertPhase) # ps) d =
     run_save_phases be site ct opk ps (snd (tag_insert_phase be site ct opk tags d))"

text \<open>
  The row the loop of \<open>save\<close> builds for tag title \<open>tg\<close>, read in \<open>d\<close>.
\<close>

abbreviation tag_row_for :: "int \<Rightarrow> int \<Rightarrow> nat \<Rightarrow> tag_db \<Rightarrow> string \<Rightarrow> content_object_tag \<Rightarrow> bool" where
  "tag_row_for ct opk site d tg ob \<equiv>
     cot_ctype ob = ct \<and> object_pk ob = opk \<and> cot_site ob = site \<and>
     (\<exists>t\<in>set (tag_rows d). tag_pk t = cot_tag ob \<and> tag_title t = tg)"

text \<open>A PostgreSQL backend whose content-type table holds the key 7.\<close>

definition example_backend :: tag_backend where
  "example_backend = \<lparr>be_strict = True, be_unidecode = id, be_ctypes = [7]\<rparr>"

definition example_tag_db :: tag_db where
  "example_tag_db =
     \<lparr>tag_rows = [\<lparr>tag_pk = 1, tag_title = ''news'', tag_slug = ''news'', tag_site = Some 1, description = None\<rparr>,
                 \<lparr>tag_pk = 2, tag_title = ''sport'', tag_slug = ''sport'', tag_site = Some 1, description = None\<rparr>],
      cot_rows = [(1, \<lparr>cot_ctype = 7, object_pk = 5, cot_site = 1, cot_tag = 1\<rparr>),
                  (2, \<lparr>cot_ctype = 7, object_pk = 6, cot_site = 1, cot_tag = 1\<rparr>)],
      next_tag_pk = 3, next_cot_pk = 3\<rparr>"

subsection \<open>Lemmas\<close>

lemma example_tag_db_inv: "tag_inv example_tag_db"
  by code_simp

lemma mem_tag_join:
  "(c, t) \<in> set (tag_join d P) \<longleftrightarrow>
     (\<exists>k. (k, c) \<in> set (cot_rows d)) \<and> P c \<and> t \<in> set (tag_rows d) \<and> tag_pk t = cot_tag c"
  by (auto simp: tag_join_def)

lemma object_tags_iff:
  "x \<in> object_tags d (site, ct, opk) \<longleftrightarrow>
     (\<exists>k c t. (k, c) \<in> set (cot_rows d) \<and> cot_site c = site \<and> cot_ctype c = ct \<and> object_pk c = opk \<and>
              t \<in> set (tag_rows d) \<and> tag_pk t = cot_tag c \<and> tag_title t = x)"
proof
  assume "x \<in> object_tags d (site, ct, opk)"
  then obtain c t where ct: "(c, t) \<in> set (get_tags_for_object ct opk (Some site) d)" "x = tag_title t"
    by (auto simp: object_tags_def)
  then show "\<exists>k c t. (k, c) \<in> set (cot_rows d) \<and> cot_site c = site \<and> cot_ctype c = ct \<and> object_pk c = opk \<and>
              t \<in> set (tag_rows d) \<and> tag_pk t = cot_tag c \<and> tag_title t = x"
    by (auto simp: get_tags_for_object_def mem_tag_join)
next
  assume "\<exists>k c t. (k, c) \<in> set (cot_rows d) \<and> cot_site c = site \<and> cot_ctype c = ct \<and> object_pk c = opk \<and>
              t \<in> set (tag_rows d) \<and> tag_pk t = cot_tag c \<and> tag_title t = x"
  then obtain k c t where h: "(k, c) \<in> set (cot_rows d)" "cot_site c = site" "cot_ctype c = ct" "object_pk c = opk"
    "t \<in> set (tag_rows d)" "tag_pk t = cot_tag c" "tag_title t = x" by blast
  then have "(c, t) \<in> set (get_tags_for_object ct opk (Some site) d)"
    by (auto simp: get_tags_for_object_def mem_tag_join)
  then show "x \<in> object_tags d (site, ct, opk)" using h(7) by (force simp: object_tags_def)
qed

lemma tag_ext_refl: "tag_ext d d"
  by (auto simp: tag_ext_def)

lemma tag_ext_trans: "tag_ext d1 d2 \<Longrightarrow> tag_ext d2 d3 \<Longrightarrow> tag_ext d1 d3"
  unfolding tag_ext_def by (metis (no_types, lifting) Un_iff append.assoc order_trans set_append)

lemma distinct_map_filter_le1:
  "distinct (map f xs) \<Longrightarrow> length (filter (\<lambda>x. f x = v) xs) \<le> 1"
  by (induction xs) (auto simp: filter_empty_conv image_iff)

lemma tag_get_or_create_run:
  assumes inv: "tag_inv d"
  shows "\<exists>r d'. tag_get_or_create be site title d = (r, d') \<and> tag_ext d d' \<and> tag_inv d' \<and>
           (\<forall>t. r = Inr t \<longrightarrow> t \<in> set (tag_rows d') \<and> tag_title t = title \<and> tag_site t = Some site) \<and>
           (tag_fits be title \<longrightarrow> (\<exists>t. r = Inr t))"
proof -
  let ?P = "\<lambda>t. tag_site t = Some site \<and> tag_title t = title"
  have "length (filter (\<lambda>t. (tag_title t, tag_site t) = (title, Some site)) (tag_rows d)) \<le> 1"
    using inv by (intro distinct_map_filter_le1) (simp add: tag_inv_def)
  then have le1: "length (filter ?P (tag_rows d)) \<le> 1"
    by (simp add: conj_commute)
  consider "filter ?P (tag_rows d) = []" | t where "filter ?P (tag_rows d) = [t]"
    using le1 by (cases "filter ?P (tag_rows d)") auto
  then show ?thesis
  proof cases
    case 1
    show ?thesis
    proof (cases "tag_fits be title")
      case True
      let ?t = "\<lparr>tag_pk = next_tag_pk d, tag_title = title,
                 tag_slug = slug_model_save (be_unidecode be) False title [], tag_site = Some site,
                 description = None\<rparr>"
      let ?d = "d\<lparr>tag_rows := tag_rows d @ [?t], next_tag_pk := Suc (next_tag_pk d)\<rparr>"
      have run: "tag_get_or_create be site title d = (Inr ?t, ?d)"
        using 1 True by (simp add: tag_get_or_create_def objects_get_def Let_def tag_fits_def)
      have "tag_ext d ?d" by (auto simp: tag_ext_def)
      moreover have "tag_inv ?d"
        using inv 1 by (fastforce simp: tag_inv_def filter_empty_conv)
      ultimately show ?thesis using run by auto
    next
      case False
      then have "tag_get_or_create be site title d = (Inl DataError, d)"
        using 1 by (simp add: tag_get_or_create_def objects_get_def Let_def tag_fits_def)
      then show ?thesis using inv tag_ext_refl False by auto
    qed
  next
    case (2 t)
    then have "t \<in> set (filter ?P (tag_rows d))" by simp
    then have "t \<in> set (tag_rows d)" "?P t" by simp_all
    moreover have "tag_get_or_create be site title d = (Inr t, d)"
      using 2 by (simp add: tag_get_or_create_def objects_get_def)
    ultimately show ?thesis using inv tag_ext_refl by auto
  qed
qed

lemma tag_ext_rows: "tag_ext d d' \<Longrightarrow> set (tag_rows d) \<subseteq> set (tag_rows d')"
  by (auto simp: tag_ext_def)

lemma list_all2_rows_mono:
  "list_all2 (tag_row_for ct opk site d) tags objs \<Longrightarrow> tag_ext d d' \<Longrightarrow>
     list_all2 (tag_row_for ct opk site d') tags objs"
  by (erule list_all2_mono) (use tag_ext_rows in blast)

lemma tag_save_loop_run:
  assumes "tag_inv d"
  shows "\<exists>r d'. tag_save_loop be site ct opk tags acc d = (r, d') \<and> tag_ext d d' \<and> tag_inv d' \<and>
           (\<forall>objs. r = Inr objs \<longrightarrow> (\<exists>objs'. objs = acc @ objs' \<and> list_all2 (tag_row_for ct opk site d') tags objs')) \<and>
           (list_all (tag_fits be) tags \<longrightarrow> (\<exists>objs. r = Inr objs))"
  using assms
proof (induction tags arbitrary: acc d)
  case Nil
  then show ?case by (simp add: ret_def tag_ext_refl)
next
  case (Cons tg tags)
  obtain r1 d1 where g: "tag_get_or_create be site tg d = (r1, d1)" "tag_ext d d1" "tag_inv d1"
    "\<forall>t. r1 = Inr t \<longrightarrow> t \<in> set (tag_rows d1) \<and> tag_title t = tg"
    "tag_fits be tg \<longrightarrow> (\<exists>t. r1 = Inr t)"
    using tag_get_or_create_run [OF Cons.prems, of be site tg] by blast
  show ?case
  proof (cases r1)
    case (Inl e)
    then show ?thesis using g by (auto simp: ebind_def)
  next
    case (Inr t)
    let ?ob = "\<lparr>cot_ctype = ct, object_pk = opk, cot_site = site, cot_tag = tag_pk t\<rparr>"
    obtain r d' where r: "tag_save_loop be site ct opk tags (acc @ [?ob]) d1 = (r, d')"
      "tag_ext d1 d'" "tag_inv d'"
      "\<forall>objs. r = Inr objs \<longrightarrow> (\<exists>objs'. objs = (acc @ [?ob]) @ objs' \<and> list_all2 (tag_row_for ct opk site d') tags objs')"
      "list_all (tag_fits be) tags \<longrightarrow> (\<exists>objs. r = Inr objs)"
      using Cons.IH [OF g(3), of "acc @ [?ob]"] by blast
    have "t \<in> set (tag_rows d')" using g(4) Inr tag_ext_rows [OF r(2)] by blast
    then have "tag_row_for ct opk site d' tg ?ob" using g(4) Inr by auto
    then show ?thesis
      using g(1,2) r Inr tag_ext_trans by (fastforce simp: ebind_def)
  qed
qed

lemma mem_zip_upt: "(k, ob) \<in> set (zip [n..<n + length objs] objs) \<Longrightarrow> n \<le> k \<and> k < n + length objs \<and> ob \<in> set objs"
  by (auto dest: set_zip_leftD set_zip_rightD)

lemma cot_insert_inv:
  assumes "tag_inv d" "\<forall>ob\<in>set objs. cot_tag ob \<in> tag_pk ` set (tag_rows d)"
  shows "tag_inv (cot_insert objs d)"
proof -
  have "distinct (map fst (cot_rows d) @ [next_cot_pk d..<next_cot_pk d + length objs])"
    using assms(1) by (fastforce simp: tag_inv_def)
  then show ?thesis
    using assms by (fastforce simp: tag_inv_def cot_insert_def dest: mem_zip_upt)
qed

lemma tag_inv_fk:
  assumes "tag_inv d" "(k, c) \<in> set (cot_rows d)"
  shows "\<exists>t\<in>set (tag_rows d). tag_pk t = cot_tag c"
proof -
  have "\<forall>(k, c)\<in>set (cot_rows d). cot_tag c \<in> tag_pk ` set (tag_rows d) \<and> k < next_cot_pk d"
    using assms(1) by (simp add: tag_inv_def)
  then have "cot_tag c \<in> tag_pk ` set (tag_rows d)" using assms(2) by (drule_tac bspec) auto
  then show ?thesis by auto
qed

lemma object_tags_rows:
  "x \<in> object_tags d (site, ct, opk) \<longleftrightarrow>
     (\<exists>c\<in>snd ` set (cot_rows d). cot_site c = site \<and> cot_ctype c = ct \<and> object_pk c = opk \<and>
        (\<exists>t\<in>set (tag_rows d). tag_pk t = cot_tag c \<and> tag_title t = x))"
  unfolding object_tags_iff by force

lemma object_tags_ext:
  assumes "tag_inv d" "tag_ext d d'"
  shows "object_tags d' = object_tags d"
proof (rule ext, clarify)
  fix site ct opk
  obtain new where e: "tag_rows d' = tag_rows d @ new" "\<forall>t\<in>set new. next_tag_pk d \<le> tag_pk t"
    "cot_rows d' = cot_rows d" using assms(2) by (auto simp: tag_ext_def)
  have old: "t \<in> set (tag_rows d)"
    if cin: "c \<in> snd ` set (cot_rows d)" and tin: "t \<in> set (tag_rows d')" and pk: "tag_pk t = cot_tag c" for c t
  proof (rule ccontr)
    assume "t \<notin> set (tag_rows d)"
    then have ge: "next_tag_pk d \<le> tag_pk t" using tin e by auto
    obtain p where "p \<in> set (cot_rows d)" "c = snd p" using cin by blast
    then have "(fst p, c) \<in> set (cot_rows d)" by simp
    then obtain t0 where "t0 \<in> set (tag_rows d)" "tag_pk t0 = cot_tag c"
      using tag_inv_fk [OF assms(1)] by blast
    moreover have "tag_pk t0 < next_tag_pk d" using assms(1) calculation(1) by (simp add: tag_inv_def)
    ultimately show False using ge pk by simp
  qed
  have sub: "set (tag_rows d) \<subseteq> set (tag_rows d')" using e(1) by simp
  show "object_tags d' (site, ct, opk) = object_tags d (site, ct, opk)"
  proof (rule set_eqI)
    fix x
    show "x \<in> object_tags d' (site, ct, opk) \<longleftrightarrow> x \<in> object_tags d (site, ct, opk)"
    proof
      assume "x \<in> object_tags d' (site, ct, opk)"
      then obtain c t where c: "c \<in> snd ` set (cot_rows d)" "cot_site c = site" "cot_ctype c = ct"
        "object_pk c = opk" "t \<in> set (tag_rows d')" "tag_pk t = cot_tag c" "tag_title t = x"
        unfolding object_tags_rows e(3) by blast
      then have "t \<in> set (tag_rows d)" using old by blast
      with c show "x \<in> object_tags d (site, ct, opk)" unfolding object_tags_rows by blast
    next
      assume "x \<in> object_tags d (site, ct, opk)"
      then obtain c t where c: "c \<in> snd ` set (cot_rows d)" "cot_site c = site" "cot_ctype c = ct"
        "object_pk c = opk" "t \<in> set (tag_rows d)" "tag_pk t = cot_tag c" "tag_title t = x"
        unfolding object_tags_rows by blast
      with sub show "x \<in> object_tags d' (site, ct, opk)" unfolding object_tags_rows e(3) by blast
    qed
  qed
qed

lemma snd_zip_upt: "snd ` set (zip [n..<n + length objs] objs) = set objs"
  by (metis length_upt add_diff_cancel_left' set_map map_snd_zip)

lemma rows_cot_insert:
  "snd ` set (cot_rows (cot_insert objs d)) = snd ` set (cot_rows d) \<union> set objs"
  by (simp add: cot_insert_def image_Un snd_zip_upt)

lemma object_tags_eq:
  "object_tags d K = {tag_title t |c t. c \<in> snd ` set (cot_rows d) \<and> (cot_site c, cot_ctype c, object_pk c) = K \<and>
                                          t \<in> set (tag_rows d) \<and> tag_pk t = cot_tag c}"
proof -
  obtain site ct opk where K: "K = (site, ct, opk)" by (cases K) auto
  show ?thesis unfolding K set_eq_iff object_tags_rows by blast
qed

lemma object_tags_cot_insert:
  assumes "\<forall>ob\<in>set objs. (cot_site ob, cot_ctype ob, object_pk ob) = K"
  shows "object_tags (cot_insert objs d) =
           (object_tags d)(K := object_tags d K \<union>
              {tag_title t |ob t. ob \<in> set objs \<and> t \<in> set (tag_rows d) \<and> tag_pk t = cot_tag ob})"
proof
  fix K'
  have tr: "tag_rows (cot_insert objs d) = tag_rows d" by (simp add: cot_insert_def)
  have split: "object_tags (cot_insert objs d) K' = object_tags d K' \<union>
      {tag_title t |ob t. ob \<in> set objs \<and> (cot_site ob, cot_ctype ob, object_pk ob) = K' \<and>
                          t \<in> set (tag_rows d) \<and> tag_pk t = cot_tag ob}"
    unfolding object_tags_eq [of _ K'] rows_cot_insert tr by blast
  show "object_tags (cot_insert objs d) K' =
          ((object_tags d)(K := object_tags d K \<union>
              {tag_title t |ob t. ob \<in> set objs \<and> t \<in> set (tag_rows d) \<and> tag_pk t = cot_tag ob})) K'"
  proof (cases "K' = K")
    case True
    then show ?thesis unfolding split using assms by auto
  next
    case False
    then show ?thesis unfolding split using assms by auto
  qed
qed

lemma loop_titles:
  assumes "distinct (map tag_pk (tag_rows d))"
    and "list_all2 (\<lambda>tg ob. cot_ctype ob = ct \<and> object_pk ob = opk \<and> cot_site ob = site \<and>
                       (\<exists>t\<in>set (tag_rows d). tag_pk t = cot_tag ob \<and> tag_title t = tg)) tags objs"
  shows "{tag_title t |ob t. ob \<in> set objs \<and> t \<in> set (tag_rows d) \<and> tag_pk t = cot_tag ob} = set tags"
proof (rule set_eqI, rule iffI)
  fix x
  assume "x \<in> {tag_title t |ob t. ob \<in> set objs \<and> t \<in> set (tag_rows d) \<and> tag_pk t = cot_tag ob}"
  then obtain ob t where h: "ob \<in> set objs" "t \<in> set (tag_rows d)" "tag_pk t = cot_tag ob" "x = tag_title t" by blast
  obtain i where i: "i < length objs" "objs ! i = ob" using h(1) by (auto simp: in_set_conv_nth)
  then obtain t0 where t0: "t0 \<in> set (tag_rows d)" "tag_pk t0 = cot_tag ob" "tag_title t0 = tags ! i"
    using assms(2) by (auto simp: list_all2_conv_all_nth)
  have "t = t0" using distinct_map_eq [OF assms(1) h(2) t0(1)] h(3) t0(2) by simp
  then show "x \<in> set tags" using h(4) t0(3) i(1) assms(2) by (auto simp: list_all2_conv_all_nth)
next
  fix x
  assume "x \<in> set tags"
  then obtain i where i: "i < length tags" "tags ! i = x" by (auto simp: in_set_conv_nth)
  then obtain t where "t \<in> set (tag_rows d)" "tag_pk t = cot_tag (objs ! i)" "tag_title t = x"
    using assms(2) by (auto simp: list_all2_conv_all_nth)
  moreover have "objs ! i \<in> set objs" using i(1) assms(2) by (auto simp: list_all2_conv_all_nth)
  ultimately show "x \<in> {tag_title t |ob t. ob \<in> set objs \<and> t \<in> set (tag_rows d) \<and> tag_pk t = cot_tag ob}"
    by blast
qed

lemma delete_object_tags_inv: "tag_inv d \<Longrightarrow> tag_inv (delete_object_tags site ct opk d)"
  by (auto simp: tag_inv_def delete_object_tags_def distinct_map_filter)

lemma delete_object_tags_effect:
  "object_tags (delete_object_tags site ct opk d) = (object_tags d)((site, ct, opk) := {})"
proof
  fix K
  have "object_tags (delete_object_tags site ct opk d) K =
          {tag_title t |c t. c \<in> snd ` set (cot_rows d) \<and> (cot_site c, cot_ctype c, object_pk c) = K \<and>
             (cot_site c, cot_ctype c, object_pk c) \<noteq> (site, ct, opk) \<and> t \<in> set (tag_rows d) \<and> tag_pk t = cot_tag c}"
    unfolding object_tags_eq [of _ K] by (auto simp: delete_object_tags_def) force+
  then show "object_tags (delete_object_tags site ct opk d) K = ((object_tags d)((site, ct, opk) := {})) K"
    by (cases "K = (site, ct, opk)") (auto simp: object_tags_eq [of d K])
qed

lemma bulk_create_cases:
  "bulk_create be objs d = (r, d') \<Longrightarrow> (r = Inr () \<and> d' = cot_insert objs d) \<or> (\<exists>e. r = Inl e \<and> d' = d)"
  by (auto simp: bulk_create_def split: list.splits)

lemma bulk_create_key_ok:
  "\<forall>ob\<in>set objs. cot_ctype ob = ct \<and> object_pk ob = opk \<Longrightarrow> cot_key_error be ct opk = None \<Longrightarrow>
     bulk_create be objs d = (Inr (), cot_insert objs d)"
  by (simp add: bulk_create_def List.map_filter_def)

lemma bulk_create_run:
  assumes inv: "tag_inv d" and rows: "list_all2 (tag_row_for ct opk site d) tags objs"
  shows "\<exists>r d'. bulk_create be objs d = (r, d') \<and> tag_inv d' \<and>
           (case r of Inl e \<Rightarrow> d' = d
            | Inr _ \<Rightarrow> object_tags d' = (object_tags d)((site, ct, opk) := object_tags d (site, ct, opk) \<union> set tags)) \<and>
           (cot_key_error be ct opk = None \<longrightarrow> r = Inr ())"
proof -
  have keys: "\<forall>ob\<in>set objs. (cot_site ob, cot_ctype ob, object_pk ob) = (site, ct, opk)"
    using rows by (auto simp: list_all2_conv_all_nth in_set_conv_nth)
  have fk: "\<forall>ob\<in>set objs. cot_tag ob \<in> tag_pk ` set (tag_rows d)"
  proof
    fix ob assume "ob \<in> set objs"
    then obtain i where "i < length objs" "objs ! i = ob" by (auto simp: in_set_conv_nth)
    then obtain t where "t \<in> set (tag_rows d)" "tag_pk t = cot_tag ob"
      using rows by (auto simp: list_all2_conv_all_nth)
    then show "cot_tag ob \<in> tag_pk ` set (tag_rows d)" by (metis image_eqI)
  qed
  have dist: "distinct (map tag_pk (tag_rows d))" using inv by (simp add: tag_inv_def)
  obtain r d' where run: "bulk_create be objs d = (r, d')" by (metis prod.exhaust)
  have ok: "cot_key_error be ct opk = None \<longrightarrow> r = Inr ()"
    using run bulk_create_key_ok [of objs ct opk be d] keys by auto
  from bulk_create_cases [OF run] show ?thesis
  proof
    assume "r = Inr () \<and> d' = cot_insert objs d"
    then show ?thesis
      using run ok cot_insert_inv [OF inv fk] object_tags_cot_insert [OF keys, of d]
            loop_titles [OF dist rows] by simp
  qed (use run ok inv in auto)
qed

lemma list_all_remdups [simp]: "list_all P (remdups xs) = list_all P xs"
  by (simp add: list_all_iff)

lemma tag_insert_phase_run:
  assumes inv: "tag_inv d"
  shows "\<exists>r d'. tag_insert_phase be site ct opk tags d = (r, d') \<and> tag_inv d' \<and>
           object_tags d' = (case r of Inl e \<Rightarrow> object_tags d
             | Inr _ \<Rightarrow> (object_tags d)((site, ct, opk) := object_tags d (site, ct, opk) \<union> set tags)) \<and>
           (list_all (tag_fits be) tags \<and> cot_key_error be ct opk = None \<longrightarrow> (\<exists>objs. r = Inr objs))"
proof -
  obtain r1 d2 where l: "tag_save_loop be site ct opk (remdups tags) [] d = (r1, d2)" "tag_ext d d2" "tag_inv d2"
    "\<forall>objs. r1 = Inr objs \<longrightarrow> list_all2 (tag_row_for ct opk site d2) (remdups tags) objs"
    "list_all (tag_fits be) tags \<longrightarrow> (\<exists>objs. r1 = Inr objs)"
    using tag_save_loop_run [OF inv, of be site ct opk "remdups tags" "[]"] by auto
  have ot: "object_tags d2 = object_tags d" by (rule object_tags_ext [OF inv l(2)])
  show ?thesis
  proof (cases r1)
    case (Inl e)
    then show ?thesis using l ot by (auto simp: tag_insert_phase_def ebind_def)
  next
    case (Inr objs)
    then have rows: "list_all2 (tag_row_for ct opk site d2) (remdups tags) objs" using l(4) by simp
    show ?thesis
    proof (cases "objs = []")
      case True
      then have "tags = []" using rows by (simp add: list_all2_Nil2)
      then show ?thesis using True Inr l ot by (simp add: tag_insert_phase_def ebind_def ret_def)
    next
      case False
      obtain rb db where b: "bulk_create be objs d2 = (rb, db)" "tag_inv db"
        "case rb of Inl e \<Rightarrow> db = d2
         | Inr _ \<Rightarrow> object_tags db = (object_tags d2)((site, ct, opk) := object_tags d2 (site, ct, opk) \<union> set tags)"
        "cot_key_error be ct opk = None \<longrightarrow> rb = Inr ()"
        using bulk_create_run [OF l(3) rows, of be] unfolding set_remdups by (elim exE conjE) (rule that)
      show ?thesis
        using Inr l(1) False b ot by (cases rb) (auto simp: tag_insert_phase_def ebind_def ret_def)
    qed
  qed
qed

lemma tag_update_save_run:
  assumes "tag_inv d" "py_int opk_str = Some opk"
  shows "\<exists>r d'. tag_update_save be site ct opk_str tags d = (r, d') \<and> tag_inv d' \<and>
           object_tags d' = (object_tags d)((site, ct, opk) := (case r of Inl e \<Rightarrow> {} | Inr _ \<Rightarrow> set tags)) \<and>
           (list_all (tag_fits be) tags \<and> cot_key_error be ct opk = None \<longrightarrow> (\<exists>objs. r = Inr objs))"
proof -
  let ?d1 = "delete_object_tags site ct opk d"
  obtain r d' where r: "tag_insert_phase be site ct opk tags ?d1 = (r, d')" "tag_inv d'"
    "object_tags d' = (case r of Inl e \<Rightarrow> object_tags ?d1
       | Inr _ \<Rightarrow> (object_tags ?d1)((site, ct, opk) := object_tags ?d1 (site, ct, opk) \<union> set tags))"
    "list_all (tag_fits be) tags \<and> cot_key_error be ct opk = None \<longrightarrow> (\<exists>objs. r = Inr objs)"
    using tag_insert_phase_run [OF delete_object_tags_inv [OF assms(1)]] by blast
  have run: "tag_update_save be site ct opk_str tags d = (r, d')"
    using assms(2) r(1) by (simp add: tag_update_save_def ebind_def modify_def)
  show ?thesis
    using run r(2,4) r(3) by (cases r) (simp_all add: delete_object_tags_effect)
qed

text \<open>
  C21. \<open>UpdateTags\<close> with a valid form, whose tags the backend can store (on a strict
  backend each title and its slug fit \<open>varchar(255)\<close>) and whose content type and
  object key pass the backend's checks, replaces the tags of the object by the set of
  posted tags and leaves the tags of every other object as they were, answering
  \<open>success\<close>; the database invariant is kept.
\<close>

theorem update_tags_post_refines:
  assumes "tag_inv d" "tag_form_clean post = Some (ct, opk_str)" "py_int opk_str = Some opk"
    and "list_all (tag_fits be) (qd_getlist post ''tags'')" "cot_key_error be ct opk = None"
  shows "\<exists>d'. update_tags_post be site post d = (Inr True, d') \<and> tag_inv d' \<and>
           object_tags d' = (object_tags d)((site, ct, opk) := set (qd_getlist post ''tags''))"
proof -
  obtain r d' where r: "tag_update_save be site ct opk_str (qd_getlist post ''tags'') d = (r, d')" "tag_inv d'"
    "object_tags d' = (object_tags d)((site, ct, opk) :=
       (case r of Inl e \<Rightarrow> {} | Inr _ \<Rightarrow> set (qd_getlist post ''tags'')))"
    "\<exists>objs. r = Inr objs"
    using tag_update_save_run [OF assms(1,3), of be site ct "qd_getlist post ''tags''"] assms(4,5) by blast
  then obtain objs where "r = Inr objs" by blast
  then show ?thesis using r assms(2) by (auto simp: update_tags_post_def ebind_def ret_def)
qed

theorem update_tags_post_refines_witness:
  "\<exists>d'. update_tags_post example_backend 1 [(''tag_content_type_id'', ''7''), (''tag_object_pk'', ''5''),
                            (''tags'', ''sport''), (''tags'', ''Cat'')] example_tag_db = (Inr True, d')
        \<and> tag_inv d' \<and> object_tags d' (1, 7, 5) = {''sport'', ''Cat''}
        \<and> object_tags d' (1, 7, 6) = {''news''}"
proof -
  have c: "tag_form_clean [(''tag_content_type_id'', ''7''), (''tag_object_pk'', ''5''),
                           (''tags'', ''sport''), (''tags'', ''Cat'')] = Some (7, ''5'')"
    by code_simp
  have p: "py_int ''5'' = Some 5" by code_simp
  have g: "qd_getlist [(''tag_content_type_id'', ''7''), (''tag_object_pk'', ''5''),
                       (''tags'', ''sport''), (''tags'', ''Cat'')] ''tags'' = [''sport'', ''Cat'']"
    by (simp add: qd_getlist_def)
  have f: "list_all (tag_fits example_backend) [''sport'', ''Cat'']" by code_simp
  have k: "cot_key_error example_backend 7 5 = None" by code_simp
  have o: "object_tags example_tag_db (1, 7, 6) = {''news''}"
    by (simp add: object_tags_def get_tags_for_object_def tag_join_def example_tag_db_def)
  obtain d' where r: "update_tags_post example_backend 1 [(''tag_content_type_id'', ''7''), (''tag_object_pk'', ''5''),
                            (''tags'', ''sport''), (''tags'', ''Cat'')] example_tag_db = (Inr True, d')"
    "tag_inv d'" "object_tags d' = (object_tags example_tag_db)((1, 7, 5) := {''sport'', ''Cat''})"
    using update_tags_post_refines [OF example_tag_db_inv c p, of example_backend 1] g f k by auto
  have "object_tags d' (1, 7, 5) = {''sport'', ''Cat''}" "object_tags d' (1, 7, 6) = {''news''}"
    using r(3) o by simp_all
  with r(1,2) show ?thesis by blast
qed

text \<open>
  C22. Every \<open>UpdateTags\<close> request, valid or not, on any backend, keeps the
  database invariant: tag keys distinct and fresh, one tag per title and site, every
  \<open>ContentObjectTag\<close> referencing an existing tag with a distinct fresh key.
\<close>

theorem update_tags_post_inv:
  assumes "tag_inv d" "update_tags_post be site post d = (r, d')"
  shows "tag_inv d'"
proof (cases "tag_form_clean post")
  case None
  then show ?thesis using assms by (simp add: update_tags_post_def ret_def)
next
  case (Some a)
  obtain ct opk_str where a: "a = (ct, opk_str)" by (cases a)
  show ?thesis
  proof (cases "py_int opk_str")
    case None
    then show ?thesis using assms Some a
      by (simp add: update_tags_post_def tag_update_save_def ebind_def raise_def)
  next
    case (Some opk)
    obtain r1 d1 where u: "tag_update_save be site ct opk_str (qd_getlist post ''tags'') d = (r1, d1)" "tag_inv d1"
      using tag_update_save_run [OF assms(1) Some, of be site ct "qd_getlist post ''tags''"] by blast
    then show ?thesis
      using assms \<open>tag_form_clean post = Some a\<close> a
      by (cases r1) (auto simp: update_tags_post_def ebind_def ret_def)
  qed
qed

theorem update_tags_post_inv_witness:
  "tag_inv (snd (update_tags_post example_backend 1 [(''tag_content_type_id'', ''7''), (''tag_object_pk'', ''x'')] example_tag_db))"
  using update_tags_post_inv [OF example_tag_db_inv, of example_backend 1 "[(''tag_content_type_id'', ''7''), (''tag_object_pk'', ''x'')]"]
  by (metis prod.collapse)

text \<open>
  C23. When \<open>UpdateTags\<close> fails after its form was validated, whatever the error
  (a title or slug too long for the column, a content type with no row, a negative or
  out-of-range key), the object is left with no tags at all: the deletion has run and
  nothing is rolled back.  The tags of every other object are untouched.
\<close>

theorem update_tags_post_error_drops_tags:
  assumes "tag_inv d" "tag_form_clean post = Some (ct, opk_str)" "py_int opk_str = Some opk"
    and "update_tags_post be site post d = (Inl e, d')"
  shows "object_tags d' = (object_tags d)((site, ct, opk) := {})"
proof -
  obtain r d1 where u: "tag_update_save be site ct opk_str (qd_getlist post ''tags'') d = (r, d1)"
    "object_tags d1 = (object_tags d)((site, ct, opk) :=
       (case r of Inl e \<Rightarrow> {} | Inr _ \<Rightarrow> set (qd_getlist post ''tags'')))"
    using tag_update_save_run [OF assms(1,3), of be site ct "qd_getlist post ''tags''"] by blast
  show ?thesis
    using u assms(2,4) by (cases r) (auto simp: update_tags_post_def ebind_def ret_def)
qed

theorem update_tags_post_error_drops_tags_witness:
  "\<exists>d'. update_tags_post example_backend 1 [(''tag_content_type_id'', ''7''), (''tag_object_pk'', ''5''),
                            (''tags'', ''sport''), (''tags'', replicate 256 CHR ''x'')] example_tag_db = (Inl DataError, d')
        \<and> object_tags example_tag_db (1, 7, 5) = {''news''} \<and> object_tags d' (1, 7, 5) = {}
        \<and> object_tags d' (1, 7, 6) = {''news''}"
proof -
  let ?post = "[(''tag_content_type_id'', ''7''), (''tag_object_pk'', ''5''),
                (''tags'', ''sport''), (''tags'', replicate 256 CHR ''x'')]"
  have c: "tag_form_clean ?post = Some (7, ''5'')" by code_simp
  have p: "py_int ''5'' = Some 5" by code_simp
  have r: "fst (update_tags_post example_backend 1 ?post example_tag_db) = Inl DataError" by code_simp
  have o: "object_tags example_tag_db (1, 7, 5) = {''news''}" "object_tags example_tag_db (1, 7, 6) = {''news''}"
    by (simp_all add: object_tags_def get_tags_for_object_def tag_join_def example_tag_db_def)
  obtain d' where d': "update_tags_post example_backend 1 ?post example_tag_db = (Inl DataError, d')"
    using r by (metis prod.collapse)
  have "object_tags d' = (object_tags example_tag_db)((1, 7, 5) := {})"
    by (rule update_tags_post_error_drops_tags [OF example_tag_db_inv c p d'])
  with d' o show ?thesis by auto
qed

lemma run_save_phases_effect:
  "tag_inv d \<Longrightarrow> list_all (\<lambda>(tags, ph). list_all (tag_fits be) tags) ps \<Longrightarrow> cot_key_error be ct opk = None \<Longrightarrow>
     tag_inv (run_save_phases be site ct opk ps d) \<and>
     object_tags (run_save_phases be site ct opk ps d) (site, ct, opk) =
       foldl (\<lambda>S (tags, ph). case ph of DeletePhase \<Rightarrow> {} | InsertPhase \<Rightarrow> S \<union> set tags)
             (object_tags d (site, ct, opk)) ps"
proof (induction ps arbitrary: d)
  case (Cons p ps)
  obtain tags ph where p: "p = (tags, ph)" by (cases p)
  show ?case
  proof (cases ph)
    case DeletePhase
    then show ?thesis
      using Cons.IH [OF delete_object_tags_inv [OF Cons.prems(1)]] Cons.prems(2,3) p
      by (simp add: delete_object_tags_effect)
  next
    case InsertPhase
    obtain r d' where r: "tag_insert_phase be site ct opk tags d = (r, d')" "tag_inv d'"
      "object_tags d' = (case r of Inl e \<Rightarrow> object_tags d
         | Inr _ \<Rightarrow> (object_tags d)((site, ct, opk) := object_tags d (site, ct, opk) \<union> set tags))"
      "\<exists>objs. r = Inr objs"
      using tag_insert_phase_run [OF Cons.prems(1), of be site ct opk tags] Cons.prems(2,3) p by auto
    then obtain objs where "r = Inr objs" by blast
    then show ?thesis using Cons.IH [OF r(2)] Cons.prems(2,3) r p InsertPhase by simp
  qed
qed simp

text \<open>
  C24. Two \<open>UpdateTags\<close> requests on the same object, with tags the backend
  accepts, whose deletions both run before either request inserts leave the union of
  the two tag sets, not the tags of the last writer; run one after the other, the
  second request's tags win.
\<close>

theorem concurrent_tag_updates_merge:
  assumes "tag_inv d" "list_all (tag_fits be) A" "list_all (tag_fits be) B" "cot_key_error be ct opk = None"
  shows "object_tags (run_save_phases be site ct opk
            [(A, DeletePhase), (B, DeletePhase), (A, InsertPhase), (B, InsertPhase)] d) (site, ct, opk) = set A \<union> set B
       \<and> object_tags (run_save_phases be site ct opk
            [(A, DeletePhase), (A, InsertPhase), (B, DeletePhase), (B, InsertPhase)] d) (site, ct, opk) = set B"
  using conjunct2 [OF run_save_phases_effect [OF assms(1) _ assms(4), of
          "[(A, DeletePhase), (B, DeletePhase), (A, InsertPhase), (B, InsertPhase)]" site]]
        conjunct2 [OF run_save_phases_effect [OF assms(1) _ assms(4), of
          "[(A, DeletePhase), (A, InsertPhase), (B, DeletePhase), (B, InsertPhase)]" site]]
        assms(2,3)
  by (simp del: run_save_phases.simps)

theorem concurrent_tag_updates_merge_witness:
  "object_tags (run_save_phases example_backend 1 7 5
      [([''news''], DeletePhase), ([''sport''], DeletePhase), ([''news''], InsertPhase), ([''sport''], InsertPhase)]
      example_tag_db) (1, 7, 5) = {''news'', ''sport''}
   \<and> object_tags (run_save_phases example_backend 1 7 5
      [([''news''], DeletePhase), ([''news''], InsertPhase), ([''sport''], DeletePhase), ([''sport''], InsertPhase)]
      example_tag_db) (1, 7, 5) = {''sport''}"
proof -
  have f: "list_all (tag_fits example_backend) [''news'']" "list_all (tag_fits example_backend) [''sport'']"
    by code_simp+
  have k: "cot_key_error example_backend 7 5 = None" by code_simp
  show ?thesis
    using concurrent_tag_updates_merge [OF example_tag_db_inv f k, of 1] by auto
qed

lemma tag_count_loop_distinct:
  "distinct tags \<Longrightarrow> (\<forall>s\<in>set tags. m (TitleMethod s) = None) \<Longrightarrow>
     tag_count_loop tags m = (\<lambda>k. case k of TitleMethod s \<Rightarrow> if s \<in> set tags then Some 1 else m k)"
proof (induction tags arbitrary: m)
  case Nil
  then show ?case by (simp add: fun_eq_iff split: title_attr.splits)
next
  case (Cons tg tags)
  have "tag_count_loop tags (m(TitleMethod tg \<mapsto> 1)) =
          (\<lambda>k. case k of TitleMethod s \<Rightarrow> if s \<in> set tags then Some 1 else (m(TitleMethod tg \<mapsto> 1)) k)"
    using Cons by (intro Cons.IH) auto
  then show ?case using Cons.prems by (auto simp: fun_eq_iff split: title_attr.splits)
qed

text \<open>
  \<open>get_tag_counts_for_object_type\<close> gives every tag of the content type the
  count 1, however many objects carry it, and its keys are the \<open>str.title\<close>
  methods of the titles, not the titles.
\<close>

theorem get_tag_counts_all_one:
  assumes "get_unique_tags_for_object_type cts app_label model site d = Inr tags"
  shows "get_tag_counts_for_object_type cts app_label model site d =
           Inr (\<lambda>k. case k of TitleMethod s \<Rightarrow> if s \<in> set tags then Some 1 else None)"
proof -
  have "distinct tags" using assms
    by (auto simp: get_unique_tags_for_object_type_def split: sum.splits)
  then show ?thesis using assms
    by (simp add: get_tag_counts_for_object_type_def tag_count_loop_distinct)
qed

theorem get_tag_counts_all_one_witness:
  "get_tag_counts_for_object_type [((''blog'', ''entry''), 7)] ''blog'' ''entry'' (Some 1) example_tag_db
     = Inr (\<lambda>k. case k of TitleMethod s \<Rightarrow> if s \<in> set [''news''] then Some 1 else None)
   \<and> length (get_tags_for_object 7 5 (Some 1) example_tag_db) = 1
   \<and> length (get_tags_for_object 7 6 (Some 1) example_tag_db) = 1"
proof -
  have u: "get_unique_tags_for_object_type [((''blog'', ''entry''), 7)] ''blog'' ''entry'' (Some 1) example_tag_db = Inr [''news'']"
    by code_simp
  have "length (get_tags_for_object 7 5 (Some 1) example_tag_db) = 1"
       "length (get_tags_for_object 7 6 (Some 1) example_tag_db) = 1" by code_simp+
  with get_tag_counts_all_one [OF u] show ?thesis by simp
qed

lemma comprehension_filter2: "[f x. x \<leftarrow> xs, P x, Q x] = map f (filter (\<lambda>x. P x \<and> Q x) xs)"
  by (induction xs) auto

text \<open>
  \<open>RetrieveTags\<close> answers exactly the titles of the current site's tags that
  contain the \<open>term\<close> parameter ignoring case (all of them without the
  parameter), each title once.
\<close>

theorem retrieve_tags_distinct:
  assumes "tag_inv d"
  shows "distinct (retrieve_tags site req d) \<and>
         set (retrieve_tags site req d) =
           {tag_title t |t. t \<in> set (tag_rows d) \<and> tag_site t = Some site \<and>
              icontains (tag_title t) (case qd_getitem (req_get req) ''term'' of Some x \<Rightarrow> x | None \<Rightarrow> '''')}"
proof -
  have d: "distinct (map (\<lambda>t. (tag_title t, tag_site t)) (tag_rows d))" using assms by (simp add: tag_inv_def)
  have "distinct (map tag_title (filter (\<lambda>t. tag_site t = Some site \<and> P t) xs))"
    if "distinct (map (\<lambda>t. (tag_title t, tag_site t)) xs)" for P xs
    using that by (induction xs) (auto simp: image_iff)
  from this [OF d] show ?thesis by (simp add: retrieve_tags_def Let_def comprehension_filter2) blast
qed

theorem retrieve_tags_distinct_witness:
  "retrieve_tags 1 \<lparr>req_user = AnonymousUser, req_method = ''GET'', full_path = ''/retrieve-tags/'',
                    req_get = [(''term'', ''SP'')]\<rparr> example_tag_db = [''sport'']
   \<and> distinct (retrieve_tags 1 \<lparr>req_user = AnonymousUser, req_method = ''GET'', full_path = ''/retrieve-tags/'',
                    req_get = [(''term'', ''SP'')]\<rparr> example_tag_db)"
proof -
  have r: "retrieve_tags 1 \<lparr>req_user = AnonymousUser, req_method = ''GET'', full_path = ''/retrieve-tags/'',
                    req_get = [(''term'', ''SP'')]\<rparr> example_tag_db = [''sport'']" by code_simp
  with retrieve_tags_distinct [OF example_tag_db_inv, of 1 "\<lparr>req_user = AnonymousUser, req_method = ''GET'',
         full_path = ''/retrieve-tags/'', req_get = [(''term'', ''SP'')]\<rparr>"]
  show ?thesis by simp
qed

end
