(* ===== verification/Mailer.thy ===== *)
theory Mailer
  imports Prelude
begin

text \<open>
  The mailer application, \<open>src/tunobase/mailer\<close>: \<open>send_mail\<close> and the helpers of
  \<open>utils.py\<close> it composes, and the \<open>OutboundEmail\<close> tracking table of
  \<open>models.py\<close>.  The settings the code reads are a record; Django's template engine
  is not modelled: \<open>render_to_string\<close> is a template loader (a map from template
  names to rendering functions, a missing name raising \<open>TemplateDoesNotExist\<close>)
  and \<open>render_string_to_string\<close> a rendering function, both parameters.  The state
  is the list of messages the mail connection has sent and the tracking table.
\<close>

subsection \<open>Settings, context and messages\<close>

record mail_settings =
  email_enabled :: bool
  default_from_email :: string
  extra_bcc_list :: "string list"
  static_url :: string
  app_name :: string
  current_site :: nat

datatype ctx_val = CtxSite nat | CtxUser "nat option" | CtxStr string

type_synonym ctx = "string \<rightharpoonup> ctx_val"

record email_message =
  em_subject :: string
  em_body :: string
  em_from :: string
  em_to :: "string list"
  em_bcc :: "string list"
  em_alternatives :: "(string \<times> string) list"
  em_attachments :: "(string \<times> string) list"

text \<open>
  An \<open>OutboundEmail\<close> instance; \<open>message\<close> holds whatever the caller passed,
  \<open>None\<close> included, until the row is written.
\<close>

record outbound_email =
  oe_user :: "nat option"
  oe_to :: string
  oe_bcc :: string
  oe_subject :: string
  oe_message :: "string option"
  oe_site :: nat
  oe_sent :: nat

record mail_state =
  outbox :: "email_message list"
  outbound_rows :: "(nat \<times> outbound_email) list"
  next_oe_pk :: nat

type_synonym loader = "string \<rightharpoonup> (ctx \<Rightarrow> string)"

subsection \<open>\<open>send_messages\<close> and \<open>render_content\<close>\<close>

definition send_messages :: "mail_settings \<Rightarrow> email_message list \<Rightarrow> (mail_state, unit) exc" where
  "send_messages conf messages =
     (if email_enabled conf then modify (\<lambda>s. s\<lparr>outbox := outbox s @ messages\<rparr>) else ret ())"

text \<open>
  One piece of content: the template of that name rendered with the context; when
  there is no such template, the string itself, rendered as a template only with
  \<open>apply_context_to_string\<close>.
\<close>

definition render_one :: "loader \<Rightarrow> (string \<Rightarrow> ctx \<Rightarrow> string) \<Rightarrow> string \<Rightarrow> ctx \<Rightarrow> bool \<Rightarrow> string" where
  "render_one templates render_string s context apply_context_to_string =
     (case templates s of
        Some t \<Rightarrow> t context
      | None \<Rightarrow> if apply_context_to_string then render_string s context else s)"

definition render_content ::
  "loader \<Rightarrow> (string \<Rightarrow> ctx \<Rightarrow> string) \<Rightarrow> string \<Rightarrow> string \<Rightarrow> string option \<Rightarrow> ctx \<Rightarrow> bool
   \<Rightarrow> string \<times> string \<times> string option" where
  "render_content templates render_string subject text_content html_content context apply_context_to_string =
     (render_one templates render_string subject context apply_context_to_string,
      render_one templates render_string text_content context apply_context_to_string,
      map_option (\<lambda>h. render_one templates render_string h context apply_context_to_string) html_content)"

subsection \<open>\<open>create_message\<close>\<close>

text \<open>
  \<open>site\<close> and \<open>user\<close> are added to the context when absent, \<open>STATIC_URL\<close>
  and \<open>app_name\<close> always; the extra BCC addresses of the settings are appended to
  the caller's (or replace an empty list); an attachment is added when it is true,
  which for a Django \<open>File\<close> means it has a non-empty name.
\<close>

definition message_context :: "mail_settings \<Rightarrow> ctx \<Rightarrow> nat option \<Rightarrow> ctx" where
  "message_context conf context user =
     (let context = (if ''site'' \<notin> dom context then context(''site'' \<mapsto> CtxSite (current_site conf)) else context);
          context = (if ''user'' \<notin> dom context then context(''user'' \<mapsto> CtxUser user) else context)
      in context(''STATIC_URL'' \<mapsto> CtxStr (static_url conf), ''app_name'' \<mapsto> CtxStr (app_name conf)))"

definition message_bcc :: "mail_settings \<Rightarrow> string list \<Rightarrow> string list" where
  "message_bcc conf bcc_addresses =
     (if bcc_addresses \<noteq> [] then bcc_addresses @ extra_bcc_list conf else extra_bcc_list conf)"

definition attachment_true :: "(string \<times> string) option \<Rightarrow> bool" where
  "attachment_true a = (case a of Some (name, _) \<Rightarrow> name \<noteq> [] | None \<Rightarrow> False)"

definition create_message ::
  "mail_settings \<Rightarrow> loader \<Rightarrow> (string \<Rightarrow> ctx \<Rightarrow> string) \<Rightarrow> string \<Rightarrow> string \<Rightarrow> string list \<Rightarrow> string
   \<Rightarrow> string list \<Rightarrow> string option \<Rightarrow> ctx \<Rightarrow> (string \<times> string) option list \<Rightarrow> nat option \<Rightarrow> bool
   \<Rightarrow> email_message \<times> ctx" where
  "create_message conf templates render_string subject text_content to_addresses from_address
                  bcc_addresses html_content context attachments user apply_context_to_string =
     (let context = message_context conf context user;
          (subject, text_content, html_content) =
            render_content templates render_string subject text_content html_content context apply_context_to_string
      in (\<lparr>em_subject = subject, em_body = text_content, em_from = from_address, em_to = to_addresses,
           em_bcc = message_bcc conf bcc_addresses,
           em_alternatives = (case html_content of Some h \<Rightarrow> [(h, ''text/html'')] | None \<Rightarrow> []),
           em_attachments = map the (filter attachment_true attachments)\<rparr>,
          context))"

subsection \<open>Tracking\<close>

text \<open>
  The \<open>OutboundEmail\<close> constructor: \<open>site\<close> must be a \<open>Site\<close> instance,
  anything else is refused with \<open>ValueError\<close>; \<open>sent_timestamp\<close> is set when
  the row is created (\<open>auto_now_add\<close>).
\<close>

definition create_outbound_email ::
  "string \<Rightarrow> string list \<Rightarrow> string option \<Rightarrow> string list option \<Rightarrow> ctx_val \<Rightarrow> nat option \<Rightarrow> nat
   \<Rightarrow> py_error + outbound_email" where
  "create_outbound_email subject to_addresses html_content bcc_addresses site user now =
     (case site of
        CtxSite n \<Rightarrow>
          Inr \<lparr>oe_user = user, oe_to = py_join CHR ''\<newline>'' to_addresses,
               oe_bcc = (case bcc_addresses of Some b \<Rightarrow> py_join CHR ''\<newline>'' b | None \<Rightarrow> ''''),
               oe_subject = subject, oe_message = html_content, oe_site = n, oe_sent = now\<rparr>
      | _ \<Rightarrow> Inl ValueError)"

text \<open>
  \<open>OutboundEmail.save()\<close>: \<open>message\<close> is a text column without \<open>null=True\<close>,
  so writing \<open>None\<close> fails with the database's \<open>IntegrityError\<close>.
\<close>

definition outbound_email_save :: "outbound_email \<Rightarrow> (mail_state, unit) exc" where
  "outbound_email_save oe s =
     (if oe_message oe = None then (Inl IntegrityError, s)
      else (Inr (), s\<lparr>outbound_rows := outbound_rows s @ [(next_oe_pk s, oe)], next_oe_pk := Suc (next_oe_pk s)\<rparr>))"

definition save_outbound_emails :: "mail_settings \<Rightarrow> outbound_email list \<Rightarrow> (mail_state, unit) exc" where
  "save_outbound_emails conf outbound_emails s =
     (if email_enabled conf then
        (if list_ex (\<lambda>oe. oe_message oe = None) outbound_emails then (Inl IntegrityError, s)
         else (Inr (), s\<lparr>outbound_rows := outbound_rows s @ zip [next_oe_pk s..<next_oe_pk s + length outbound_emails] outbound_emails,
                          next_oe_pk := next_oe_pk s + length outbound_emails\<rparr>))
      else (Inr (), s))"

definition track_mail ::
  "mail_settings \<Rightarrow> string \<Rightarrow> string list \<Rightarrow> string option \<Rightarrow> string list option \<Rightarrow> ctx_val \<Rightarrow> nat option \<Rightarrow> nat
   \<Rightarrow> (mail_state, unit) exc" where
  "track_mail conf subject to_addresses html_content bcc_addresses site user now =
     (if email_enabled conf then
        ebind (lift (create_outbound_email subject to_addresses html_content bcc_addresses site user now))
          outbound_email_save
      else ret ())"

subsection \<open>\<open>send_mail\<close>\<close>

text \<open>
  \<open>send_mail\<close> builds and sends the message, renders the caller's arguments a second
  time with the context \<open>create_message\<close> returned, and tracks the mail with the
  caller's BCC list and the context's site.  \<open>bcc_addresses\<close> is \<open>None\<close> when
  the caller gives none.
\<close>

definition ctx_getitem :: "ctx \<Rightarrow> string \<Rightarrow> py_error + ctx_val" where
  "ctx_getitem context k = (case context k of Some v \<Rightarrow> Inr v | None \<Rightarrow> Inl KeyError)"

definition send_mail ::
  "mail_settings \<Rightarrow> loader \<Rightarrow> (string \<Rightarrow> ctx \<Rightarrow> string) \<Rightarrow> nat \<Rightarrow> string \<Rightarrow> string \<Rightarrow> string list \<Rightarrow> string
   \<Rightarrow> string list option \<Rightarrow> string option \<Rightarrow> ctx \<Rightarrow> (string \<times> string) option list \<Rightarrow> nat option \<Rightarrow> bool
   \<Rightarrow> (mail_state, unit) exc" where
  "send_mail conf templates render_string now subject text_content to_addresses from_address bcc_addresses
             html_content context attachments user apply_context_to_string =
     (let (message, context) =
            create_message conf templates render_string subject text_content to_addresses from_address
              (case bcc_addresses of Some b \<Rightarrow> b | None \<Rightarrow> []) html_content context attachments user
              apply_context_to_string;
          (subject, text_content, html_content) =
            render_content templates render_string subject text_content html_content context apply_context_to_string
      in ebind (send_messages conf [message]) (\<lambda>_.
         ebind (lift (ctx_getitem context ''site'')) (\<lambda>site.
         track_mail conf subject to_addresses html_content bcc_addresses site user now)))"

text \<open>
  The \<open>test_email\<close> management command (\<open>management/commands/test_email.py\<close>):
  the first argument is the address (\<open>IndexError\<close> without one); the printed
  line is not modelled.
\<close>

definition test_email_handle ::
  "mail_settings \<Rightarrow> loader \<Rightarrow> (string \<Rightarrow> ctx \<Rightarrow> string) \<Rightarrow> nat \<Rightarrow> string list \<Rightarrow> (mail_state, unit) exc" where
  "test_email_handle conf templates render_string now args =
     (case args of
        [] \<Rightarrow> raise IndexError
      | email_address # _ \<Rightarrow>
          send_mail conf templates render_string now ''Test message'' ''Test message'' [email_address]
            (default_from_email conf) None (Some ''Test Message'') Map.empty [] None False)"

definition example_mail_settings :: mail_settings where
  "example_mail_settings = \<lparr>email_enabled = True, default_from_email = ''noreply@x'', extra_bcc_list = [''audit@x''],
      static_url = ''/static/'', app_name = ''app'', current_site = 1\<rparr>"

definition example_mail_state :: mail_state where
  "example_mail_state = \<lparr>outbox = [], outbound_rows = [], next_oe_pk = 1\<rparr>"

subsection \<open>Lemmas\<close>

lemma message_context_site:
  "message_context conf context user ''site'' =
     (case context ''site'' of None \<Rightarrow> Some (CtxSite (current_site conf)) | Some v \<Rightarrow> Some v)"
  by (auto simp: message_context_def Let_def dom_def split: option.splits)

lemma send_mail_unfold:
  "send_mail conf templates render_string now subject text_content to_addresses from_address bcc_addresses
             html_content context attachments user apply_context_to_string =
     (let context' = message_context conf context user;
          message = fst (create_message conf templates render_string subject text_content to_addresses from_address
              (case bcc_addresses of Some b \<Rightarrow> b | None \<Rightarrow> []) html_content context attachments user
              apply_context_to_string);
          r = render_content templates render_string subject text_content html_content context' apply_context_to_string
      in ebind (send_messages conf [message]) (\<lambda>_.
         ebind (lift (ctx_getitem context' ''site'')) (\<lambda>site.
         track_mail conf (fst r) to_addresses (snd (snd r)) bcc_addresses site user now)))"
  by (simp add: send_mail_def create_message_def Let_def split_beta)

lemma site_ok_context:
  assumes "\<forall>v. context ''site'' = Some v \<longrightarrow> (\<exists>n. v = CtxSite n)"
  obtains n where "message_context conf context user ''site'' = Some (CtxSite n)"
  using assms by (cases "context ''site''") (auto simp: message_context_site)

text \<open>
  With \<open>EMAIL_ENABLED\<close> false, \<open>send_mail\<close> sends nothing, writes no
  tracking row and returns normally, whatever its arguments.
\<close>

theorem send_mail_disabled:
  "\<not> email_enabled conf \<Longrightarrow>
   send_mail conf templates render_string now subject text_content to_addresses from_address bcc_addresses
             html_content context attachments user apply_context_to_string s = (Inr (), s)"
  by (simp add: send_mail_unfold Let_def send_messages_def track_mail_def ctx_getitem_def
                message_context_site ebind_def ret_def lift_def split: option.splits)

theorem send_mail_disabled_witness:
  "send_mail (example_mail_settings\<lparr>email_enabled := False\<rparr>) Map.empty (\<lambda>s c. s) 9 ''Hi'' ''Body'' [''a@x'']
     ''noreply@x'' None None Map.empty [] None False example_mail_state = (Inr (), example_mail_state)"
  using send_mail_disabled [of "example_mail_settings\<lparr>email_enabled := False\<rparr>"] by simp

text \<open>
  C36. With \<open>EMAIL_ENABLED\<close> and no \<open>html_content\<close> (the default),
  \<open>send_mail\<close> sends the message and then raises \<open>IntegrityError\<close>, because
  the tracking row's \<open>message\<close> column is not nullable; no row is written.
\<close>

theorem send_mail_without_html_fails:
  assumes "email_enabled conf" and "\<forall>v. context ''site'' = Some v \<longrightarrow> (\<exists>n. v = CtxSite n)"
  shows "send_mail conf templates render_string now subject text_content to_addresses from_address bcc_addresses
             None context attachments user apply_context_to_string s =
           (Inl IntegrityError,
            s\<lparr>outbox := outbox s @ [fst (create_message conf templates render_string subject text_content to_addresses
                 from_address (case bcc_addresses of Some b \<Rightarrow> b | None \<Rightarrow> []) None context attachments user
                 apply_context_to_string)]\<rparr>)"
proof -
  obtain n where "message_context conf context user ''site'' = Some (CtxSite n)"
    using site_ok_context [of "context" conf user, OF assms(2)] by blast
  then show ?thesis using assms(1)
    by (simp add: send_mail_unfold Let_def send_messages_def track_mail_def ctx_getitem_def render_content_def
                  create_outbound_email_def outbound_email_save_def ebind_def modify_def lift_def)
qed

theorem send_mail_without_html_fails_witness:
  "fst (send_mail example_mail_settings Map.empty (\<lambda>s c. s) 9 ''Hi'' ''Body'' [''a@x''] ''noreply@x'' None None
          Map.empty [] None False example_mail_state) = Inl IntegrityError
   \<and> length (outbox (snd (send_mail example_mail_settings Map.empty (\<lambda>s c. s) 9 ''Hi'' ''Body'' [''a@x'']
          ''noreply@x'' None None Map.empty [] None False example_mail_state))) = 1
   \<and> outbound_rows (snd (send_mail example_mail_settings Map.empty (\<lambda>s c. s) 9 ''Hi'' ''Body'' [''a@x'']
          ''noreply@x'' None None Map.empty [] None False example_mail_state)) = []"
  using send_mail_without_html_fails [of example_mail_settings Map.empty Map.empty "\<lambda>s c. s" 9 "''Hi''" "''Body''"
          "[''a@x'']" "''noreply@x''" None "[]" None False example_mail_state]
  by (simp add: example_mail_settings_def example_mail_state_def)

text \<open>
  C37. With \<open>EMAIL_ENABLED\<close> and an HTML part, \<open>send_mail\<close> sends one message
  and writes one tracking row whose subject and message are the sent subject and HTML
  part and whose recipients are the \<open>to\<close> addresses joined by newlines; the row's
  BCC is the caller's list only, while the message also went to
  \<open>EMAIL_EXTRA_BCC_LIST\<close>.
\<close>

theorem send_mail_tracks:
  assumes "email_enabled conf" and "\<forall>v. context ''site'' = Some v \<longrightarrow> (\<exists>n. v = CtxSite n)"
    and "fst (create_message conf templates render_string subject text_content to_addresses from_address
               (case bcc_addresses of Some b \<Rightarrow> b | None \<Rightarrow> []) (Some h) context attachments user
               apply_context_to_string) = msg"
  shows "\<exists>row. send_mail conf templates render_string now subject text_content to_addresses from_address bcc_addresses
                 (Some h) context attachments user apply_context_to_string s =
               (Inr (), s\<lparr>outbox := outbox s @ [msg], outbound_rows := outbound_rows s @ [(next_oe_pk s, row)],
                          next_oe_pk := Suc (next_oe_pk s)\<rparr>)
          \<and> oe_subject row = em_subject msg \<and> em_alternatives msg = [(the (oe_message row), ''text/html'')]
          \<and> oe_to row = py_join CHR ''\<newline>'' to_addresses
          \<and> em_bcc msg = message_bcc conf (case bcc_addresses of Some b \<Rightarrow> b | None \<Rightarrow> [])
          \<and> oe_bcc row = (case bcc_addresses of Some b \<Rightarrow> py_join CHR ''\<newline>'' b | None \<Rightarrow> '''')"
proof -
  obtain n where "message_context conf context user ''site'' = Some (CtxSite n)"
    using site_ok_context [of "context" conf user, OF assms(2)] by blast
  then show ?thesis using assms(1) assms(3) [symmetric]
    apply (simp add: send_mail_unfold Let_def send_messages_def track_mail_def ctx_getitem_def render_content_def
                  create_outbound_email_def outbound_email_save_def ebind_def modify_def lift_def create_message_def)
    apply (rule exI, intro conjI, rule refl)
    apply simp_all
    done
qed

theorem send_mail_tracks_witness:
  "\<exists>row. snd (send_mail example_mail_settings Map.empty (\<lambda>s c. s) 9 ''Hi'' ''Body'' [''a@x'', ''b@x''] ''noreply@x''
               (Some [''c@x'']) (Some ''<p>Body</p>'') Map.empty [] None False example_mail_state)
             = example_mail_state\<lparr>outbox := [fst (create_message example_mail_settings Map.empty (\<lambda>s c. s)
                   ''Hi'' ''Body'' [''a@x'', ''b@x''] ''noreply@x'' [''c@x''] (Some ''<p>Body</p>'') Map.empty [] None False)],
                 outbound_rows := [(1, row)], next_oe_pk := 2\<rparr>
         \<and> oe_bcc row = ''c@x''
         \<and> em_bcc (fst (create_message example_mail_settings Map.empty (\<lambda>s c. s)
                   ''Hi'' ''Body'' [''a@x'', ''b@x''] ''noreply@x'' [''c@x''] (Some ''<p>Body</p>'') Map.empty [] None False))
           = [''c@x'', ''audit@x'']"
proof -
  obtain row where r: "send_mail example_mail_settings Map.empty (\<lambda>s c. s) 9 ''Hi'' ''Body'' [''a@x'', ''b@x''] ''noreply@x''
               (Some [''c@x'']) (Some ''<p>Body</p>'') Map.empty [] None False example_mail_state =
       (Inr (), example_mail_state\<lparr>outbox := outbox example_mail_state @ [fst (create_message example_mail_settings Map.empty (\<lambda>s c. s)
                   ''Hi'' ''Body'' [''a@x'', ''b@x''] ''noreply@x'' [''c@x''] (Some ''<p>Body</p>'') Map.empty [] None False)],
            outbound_rows := outbound_rows example_mail_state @ [(next_oe_pk example_mail_state, row)],
            next_oe_pk := Suc (next_oe_pk example_mail_state)\<rparr>)"
    "oe_bcc row = py_join CHR ''\<newline>'' [''c@x'']"
    "em_bcc (fst (create_message example_mail_settings Map.empty (\<lambda>s c. s)
                   ''Hi'' ''Body'' [''a@x'', ''b@x''] ''noreply@x'' [''c@x''] (Some ''<p>Body</p>'') Map.empty [] None False))
       = message_bcc example_mail_settings [''c@x'']"
    using send_mail_tracks [of example_mail_settings Map.empty Map.empty "\<lambda>s c. s" "''Hi''" "''Body''" "[''a@x'', ''b@x'']"
            "''noreply@x''" "Some [''c@x'']" "''<p>Body</p>''" "[]" None False _ 9 example_mail_state]
    by (auto simp: example_mail_settings_def)
  then show ?thesis
    by (simp add: example_mail_state_def example_mail_settings_def message_bcc_def)
qed

text \<open>
  The recipients of a tracking row read back: splitting its \<open>to_addresses\<close>
  at newlines gives the addresses the mail was sent to, when there is at least one
  and none contains a newline.
\<close>

theorem tracked_to_addresses_roundtrip:
  assumes "create_outbound_email subject to_addresses html_content bcc_addresses site user now = Inr oe"
    and "to_addresses \<noteq> []" and "\<forall>a\<in>set to_addresses. CHR ''\<newline>'' \<notin> set a"
  shows "py_split CHR ''\<newline>'' (oe_to oe) = to_addresses"
  using assms by (auto simp: create_outbound_email_def py_split_join split: ctx_val.splits)

theorem tracked_to_addresses_roundtrip_witness:
  "create_outbound_email ''Hi'' [''a@x'', ''b@x''] (Some ''m'') None (CtxSite 1) None 9
     = Inr (projr (create_outbound_email ''Hi'' [''a@x'', ''b@x''] (Some ''m'') None (CtxSite 1) None 9))
   \<and> py_split CHR ''\<newline>''
       (oe_to (projr (create_outbound_email ''Hi'' [''a@x'', ''b@x''] (Some ''m'') None (CtxSite 1) None 9)))
     = [''a@x'', ''b@x'']"
proof -
  have c: "create_outbound_email ''Hi'' [''a@x'', ''b@x''] (Some ''m'') None (CtxSite 1) None 9
     = Inr (projr (create_outbound_email ''Hi'' [''a@x'', ''b@x''] (Some ''m'') None (CtxSite 1) None 9))"
    by (simp add: create_outbound_email_def)
  show ?thesis using tracked_to_addresses_roundtrip [OF c] c by simp
qed

end
