(* ===== verification/ContentModels.thy ===== *)
theory ContentModels
  imports Query Slugs Widgets
begin

text \<open>
  The content models of \<open>src/tunobase/core/models.py\<close> beyond the versioning
  columns: \<open>ContentModel\<close> with the fields its \<open>save\<close> chain writes, the
  \<open>DefaultImage\<close> table and its query set (\<open>DefaultImageQuerySet\<close> of
  \<open>query.py\<close>), \<open>ContentModel.as_leaf_class\<close> and \<open>GalleryImage.gallery\<close>.
  Python's class inheritance is record extension: a \<open>content_model\<close> and a
  \<open>default_image\<close> are \<open>content\<close> rows (the \<open>StateModel\<close> columns of
  \<open>Models\<close>) with more fields, so \<open>state_save\<close> applies to both.  The
  \<open>contents\<close> table of \<open>db\<close> holds the \<open>content\<close> columns of each row; a save
  writes that projection (\<open>content.truncate\<close>) and returns the instance with its
  other fields as the \<open>save\<close> methods left them.
\<close>

record content_model = content +
  cm_title :: string
  override_slug_save :: bool
  image :: string
  image_name :: "string option"
  leaf_content_type :: "nat option"

record default_image = content +
  di_category :: string
  di_image :: string

subsection \<open>\<open>DefaultImageQuerySet\<close>\<close>

text \<open>
  \<open>DefaultImage.objects.permitted()\<close>: the manager's query set is a
  \<open>DefaultImageQuerySet\<close>, whose \<open>permitted\<close> is the one it inherits from
  \<open>CoreStateQuerySet\<close>: the rows of the model's content type whose pk is the
  \<open>object_id\<close> of a \<open>Version\<close> in the site state, minus the deleted rows.
  \<open>permitted_rows\<close> is that query over any table of \<open>StateModel\<close> rows;
  \<open>permitted_rows_eq\<close> below shows that it is \<open>Query.permitted\<close> on the content
  table.
\<close>

definition permitted_rows ::
  "bool \<Rightarrow> nat \<Rightarrow> version list \<Rightarrow> 'a content_scheme list \<Rightarrow> 'a content_scheme list" where
  "permitted_rows staging ct vs rows =
     (let model_pks = map object_id (filter (\<lambda>v. v_ctype v = ct \<and> v_state v = site_state staging) vs)
      in filter (\<lambda>c. c_pk c \<in> set model_pks \<and> c_state c \<noteq> STATE_DELETED)
           (filter (\<lambda>c. c_ctype c = ct) rows))"

text \<open>
  \<open>get_random(category)\<close>: the rows of the category; when there is one,
  \<open>random.choice\<close> picks one and its \<open>image\<close> is returned, else \<open>None\<close>.  The
  random index is the parameter \<open>k\<close>, taken modulo the number of rows: every row
  can be the choice.
\<close>

definition get_random :: "nat \<Rightarrow> string \<Rightarrow> default_image list \<Rightarrow> string option" where
  "get_random k category qs =
     (let pre_def_images = filter (\<lambda>i. di_category i = category) qs
      in if pre_def_images \<noteq> [] then Some (di_image (pre_def_images ! (k mod length pre_def_images)))
         else None)"

subsection \<open>\<open>ImageModel.save\<close>\<close>

text \<open>
  \<open>timezone.now().strftime('%Y-%m-%d')\<close>: Python 2's \<open>strftime\<close> raises
  \<open>ValueError\<close> for a year before 1900; otherwise the year is printed in full and
  the month and day with two digits.
\<close>

definition pad2 :: "int \<Rightarrow> string" where
  "pad2 n = (if n < 10 then ''0'' @ py_str_int n else py_str_int n)"

definition strftime_ymd :: "date \<Rightarrow> py_error + string" where
  "strftime_ymd dt =
     (if year dt < 1900 then Inl ValueError
      else Inr (py_str_int (year dt) @ ''-'' @ pad2 (month dt) @ ''-'' @ pad2 (day dt)))"

text \<open>
  \<open>ImageModel.save\<close>: an instance without an image takes a random permitted default
  image of the class's \<open>default_image_category\<close> (\<open>None\<close> is the empty file
  name); an instance with an image and no image name is named after the image and the
  date.  \<open>random_image\<close> is the value of \<open>get_random\<close>.
\<close>

definition image_model_save ::
  "string option \<Rightarrow> date \<Rightarrow> content_model \<Rightarrow> py_error + content_model" where
  "image_model_save random_image today c =
     (let c = (if image c = [] then c\<lparr>image := (case random_image of None \<Rightarrow> [] | Some i \<Rightarrow> i)\<rparr> else c)
      in if image c \<noteq> [] \<and> (image_name c = None \<or> image_name c = Some [])
         then (case strftime_ymd today of
                 Inl e \<Rightarrow> Inl e
               | Inr s \<Rightarrow> Inr (c\<lparr>image_name := Some (image c @ '' '' @ s)\<rparr>))
         else Inr c)"

subsection \<open>\<open>ContentModel.save\<close>\<close>

text \<open>
  The class of a model: its content type (\<open>ContentType.objects.get_for_model\<close>) and
  its \<open>default_image_category\<close> (\<open>'content'\<close> for \<open>BaseContentModel\<close>,
  \<open>'gallery'\<close> for \<open>Gallery\<close>).  The row's \<open>c_ctype\<close> is the content type of
  its class.
\<close>

record model_class =
  mc_ctype :: nat
  default_image_category :: string

text \<open>
  \<open>ContentModel.save\<close> sets \<open>leaf_content_type\<close> when it is unset and calls
  \<open>super().save()\<close>, which runs along the method resolution order of
  \<open>BaseContentModel(ImageModel, StateModel, SlugModel, AuditModel, SEOModel)\<close>:
  \<open>ImageModel.save\<close>, photologue's \<open>ImageModel.save\<close> (EXIF date and cache, no
  field of this model), \<open>StateModel.save\<close>, \<open>SlugModel.save\<close>, then
  \<open>Model.save\<close>, which writes the row.  The clock is read twice: \<open>now\<close> by
  \<open>StateModel.save\<close>, \<open>today\<close> (its date) by \<open>ImageModel.save\<close>.
  \<open>images\<close> is the \<open>DefaultImage\<close> table, \<open>di_ct\<close> its content type, and
  \<open>k\<close> the random choice.
\<close>

definition content_model_save ::
  "model_class \<Rightarrow> bool \<Rightarrow> nat \<Rightarrow> default_image list \<Rightarrow> nat \<Rightarrow> (string \<Rightarrow> string) \<Rightarrow> nat \<Rightarrow> date
   \<Rightarrow> content_model \<Rightarrow> (db, content_model) exc" where
  "content_model_save cls staging di_ct images k unidecode now today c d =
     (let c = c\<lparr>leaf_content_type :=
                  (case leaf_content_type c of None \<Rightarrow> Some (mc_ctype cls) | Some l \<Rightarrow> Some l)\<rparr>;
          random_image = (if image c = []
                          then get_random k (default_image_category cls)
                                 (permitted_rows staging di_ct (versions d) images)
                          else None)
      in case image_model_save random_image today c of
           Inl e \<Rightarrow> (Inl e, d)
         | Inr c \<Rightarrow>
             let c = state_save now c;
                 c = c\<lparr>c_slug := slug_model_save unidecode (override_slug_save c) (cm_title c) (c_slug c)\<rparr>
             in (Inr c, d\<lparr>contents := save_row content_key (content.truncate c) (contents d)\<rparr>))"

text \<open>
  \<open>as_leaf_class\<close>: \<open>self.leaf_content_type.model_class().objects.get(id=self.id)\<close>.
  An unset \<open>leaf_content_type\<close> is \<open>None\<close>, whose \<open>model_class\<close> raises
  \<open>AttributeError\<close>; otherwise the leaf model's manager (a
  \<open>CoreStateManager\<close>, unfiltered) looks the pk up among the rows of that type.
\<close>

definition as_leaf_class :: "content_model \<Rightarrow> (db, content) exc" where
  "as_leaf_class c d =
     (case leaf_content_type c of
        None \<Rightarrow> (Inl AttributeError, d)
      | Some ct \<Rightarrow> (objects_get (\<lambda>r. c_pk r = c_pk c) (model_objects ct d), d))"

subsection \<open>\<open>GalleryImage.gallery\<close>\<close>

text \<open>
  \<open>self.galleries.all()[0]\<close>, \<open>None\<close> on \<open>IndexError\<close>: the first gallery, in
  the gallery table's order, whose \<open>images\<close> relation (\<open>images_m2m\<close>, pairs of
  gallery pk and image pk) holds the image.
\<close>

definition gallery :: "(nat \<times> nat) list \<Rightarrow> 'a content_scheme list \<Rightarrow> nat \<Rightarrow> 'a content_scheme option" where
  "gallery images_m2m galleries img_pk =
     (case py_nth (filter (\<lambda>g. (c_pk g, img_pk) \<in> set images_m2m) galleries) 0 of
        Inl _ \<Rightarrow> None
      | Inr g \<Rightarrow> Some g)"

subsection \<open>Sample instances\<close>

text \<open>
  A \<open>ContentModel\<close> instance of content type 7 with pk 12 (not yet in
  \<open>example_db\<close>), an image file and no image name; a \<open>DefaultImage\<close> row of
  category \<open>'content'\<close> with content type 8; the date 28 October 2013.
\<close>


subsection \<open>\<open>ImageBanner.save\<close> and \<open>GalleryImage.save\<close>\<close>

text \<open>
  Neither class overrides \<open>save\<close>; the inherited one runs along the method
  resolution order.  \<open>ImageBanner(Banner, ImageModel)\<close> with
  \<open>Banner(StateModel)\<close> runs \<open>StateModel.save\<close> first, then
  \<open>ImageModel.save\<close>; \<open>GalleryImage(ImageModel, StateModel)\<close> runs
  \<open>ImageModel.save\<close> first (photologue's \<open>save\<close> in between changes no field of
  the row), then \<open>StateModel.save\<close>.  Both take the default image of category
  \<open>'image'\<close>.  The row is represented by the fields the saves read and write
  (\<open>state\<close>, \<open>publish_at\<close>, \<open>image\<close>, \<open>image_name\<close>) of a
  \<open>content_model\<close>; the result is the row \<open>Model.save\<close> writes.
\<close>

definition image_banner_save :: "string option \<Rightarrow> nat \<Rightarrow> date \<Rightarrow> content_model \<Rightarrow> py_error + content_model" where
  "image_banner_save random_image now today c = image_model_save random_image today (state_save now c)"

definition gallery_image_save :: "string option \<Rightarrow> nat \<Rightarrow> date \<Rightarrow> content_model \<Rightarrow> py_error + content_model" where
  "gallery_image_save random_image now today c =
     (case image_model_save random_image today c of Inl e \<Rightarrow> Inl e | Inr c \<Rightarrow> Inr (state_save now c))"

definition example_content_model :: content_model where
  "example_content_model =
     \<lparr>c_ctype = 7, c_pk = 12, c_state = STATE_PUBLISHED, publish_at = None, retract_at = None,
      c_sites = [1], c_site_id = None, c_slug = [], cm_title = ''About us'', override_slug_save = False,
      image = ''pic.jpg'', image_name = None, leaf_content_type = None\<rparr>"

definition example_default_image :: default_image where
  "example_default_image =
     \<lparr>c_ctype = 8, c_pk = 1, c_state = STATE_PUBLISHED, publish_at = Some 1, retract_at = None,
      c_sites = [], c_site_id = None, c_slug = [], di_category = ''content'', di_image = ''default.jpg''\<rparr>"

definition example_class :: model_class where
  "example_class = \<lparr>mc_ctype = 7, default_image_category = ''content''\<rparr>"

definition example_date :: date where
  "example_date = \<lparr>year = 2013, month = 10, day = 28\<rparr>"

subsection \<open>Lemmas\<close>

lemma permitted_rows_eq: "permitted_rows staging ct (versions d) (contents d) = permitted staging ct d"
  by (simp add: permitted_rows_def permitted_def model_objects_def Let_def)

lemma permitted_rows_unversioned:
  "\<forall>v\<in>set vs. v_ctype v \<noteq> ct \<Longrightarrow> permitted_rows staging ct vs rows = []"
  by (simp add: permitted_rows_def Let_def filter_empty_conv)

lemma image_model_save_fields:
  assumes "image_model_save r t c = Inr c'"
  shows "content.truncate c' = content.truncate c" "leaf_content_type c' = leaf_content_type c"
    "cm_title c' = cm_title c" "override_slug_save c' = override_slug_save c"
  using assms by (auto simp: image_model_save_def Let_def content.truncate_def split: if_splits sum.splits)

lemma state_save_cm_fields [simp]:
  "cm_title (state_save now c) = cm_title c" "override_slug_save (state_save now c) = override_slug_save c"
  "c_slug (state_save now c) = c_slug c" "image (state_save now c) = image c"
  "image_name (state_save now c) = image_name c" "leaf_content_type (state_save now c) = leaf_content_type c"
  "c_ctype (state_save now c) = c_ctype c" "c_pk (state_save now c) = c_pk c"
  by (simp_all add: state_save_def)

lemma content_model_save_Inr:
  assumes "content_model_save cls staging di_ct images k unidecode now today c d = (Inr c', d')"
  obtains c1 where "image_model_save
                      (if image c = [] then get_random k (default_image_category cls)
                                               (permitted_rows staging di_ct (versions d) images)
                       else None) today
                      (c\<lparr>leaf_content_type := (case leaf_content_type c of None \<Rightarrow> Some (mc_ctype cls) | Some l \<Rightarrow> Some l)\<rparr>)
                    = Inr c1"
    and "c' = (state_save now c1)\<lparr>c_slug := slug_model_save unidecode (override_slug_save c1) (cm_title c1) (c_slug c1)\<rparr>"
    and "d' = d\<lparr>contents := save_row content_key (content.truncate c') (contents d)\<rparr>"
  using assms by (auto simp: content_model_save_def Let_def split: sum.splits)

lemma content_model_save_Inl:
  "content_model_save cls staging di_ct images k unidecode now today c d = (Inl e, d') \<Longrightarrow> d' = d"
  by (auto simp: content_model_save_def Let_def split: sum.splits)

lemma digits_value_zero_Cons: "digits_value (CHR ''0'' # ds) = digits_value ds"
  by (simp add: digits_value_def)

lemma py_str_int_nonneg:
  "0 \<le> n \<Longrightarrow> py_str_int n \<noteq> [] \<and> list_all is_digit (py_str_int n) \<and> digits_value (py_str_int n) = n"
  using nat_digits_props [of "nat n"] by (simp add: py_str_int_def)

lemma pad2_props:
  assumes "0 \<le> n"
  shows "py_int (pad2 n) = Some n" "CHR ''-'' \<notin> set (pad2 n)"
proof -
  have p: "py_str_int n \<noteq> []" "list_all is_digit (py_str_int n)" "digits_value (py_str_int n) = n"
    using py_str_int_nonneg [OF assms] by simp_all
  have nd: "CHR ''-'' \<notin> set (py_str_int n)"
    using p(2) is_digit_not_sign by (auto simp: list_all_iff)
  show "CHR ''-'' \<notin> set (pad2 n)" using nd by (simp add: pad2_def)
  have ns: "list_all (\<lambda>c. \<not> is_py_space c) (CHR ''0'' # py_str_int n)"
    using p(2) is_digit_not_sign by (auto simp: list_all_iff is_py_space_def)
  have z: "is_digit (CHR ''0'')" by (simp add: is_digit_def)
  show "py_int (pad2 n) = Some n"
  proof (cases "n < 10")
    case True
    then show ?thesis
      using p z py_strip_no_space [OF ns]
      by (simp add: pad2_def py_int_def unsigned_int_def digits_value_zero_Cons)
  next
    case False
    then show ?thesis by (simp add: pad2_def py_int_str)
  qed
qed

lemma strftime_ymd_split:
  assumes "strftime_ymd dt = Inr s" "0 \<le> month dt" "0 \<le> day dt"
  shows "map py_int (py_split CHR ''-'' s) = [Some (year dt), Some (month dt), Some (day dt)]"
proof -
  have y: "1900 \<le> year dt" and s: "s = py_join CHR ''-'' [py_str_int (year dt), pad2 (month dt), pad2 (day dt)]"
    using assms(1) by (simp_all add: strftime_ymd_def split: if_splits)
  have "CHR ''-'' \<notin> set (py_str_int (year dt))"
    using py_str_int_nonneg [of "year dt"] y is_digit_not_sign by (auto simp: list_all_iff)
  then have "py_split CHR ''-'' s = [py_str_int (year dt), pad2 (month dt), pad2 (day dt)]"
    unfolding s using pad2_props(2) assms(2,3) by (intro py_split_join) auto
  then show ?thesis using pad2_props(1) assms(2,3) by (simp add: py_int_str)
qed

text \<open>
  C12. \<open>ContentModel.save\<close> followed by \<open>as_leaf_class\<close> on the saved instance: on a
  table with unique keys and an instance whose leaf content type is unset, the save
  either raises and leaves the database as it was, or returns the instance, and
  \<open>as_leaf_class\<close> then finds exactly the row that was written.
\<close>

theorem content_model_save_leaf_roundtrip:
  assumes keys: "distinct (map content_key (contents d))"
    and leaf: "leaf_content_type c = None" and cls: "mc_ctype cls = c_ctype c"
  shows "case content_model_save cls staging di_ct images k unidecode now today c d of
           (Inr c', d') \<Rightarrow> as_leaf_class c' d' = (Inr (content.truncate c'), d')
         | (Inl e, d') \<Rightarrow> d' = d"
proof (cases "content_model_save cls staging di_ct images k unidecode now today c d")
  case (Pair r d')
  show ?thesis
  proof (cases r)
    case (Inl e)
    with Pair show ?thesis using content_model_save_Inl by simp
  next
    case (Inr c')
    with Pair obtain c1 where im: "image_model_save
                      (if image c = [] then get_random k (default_image_category cls)
                                               (permitted_rows staging di_ct (versions d) images)
                       else None) today
                      (c\<lparr>leaf_content_type := (case leaf_content_type c of None \<Rightarrow> Some (mc_ctype cls) | Some l \<Rightarrow> Some l)\<rparr>)
                    = Inr c1"
      and c': "c' = (state_save now c1)\<lparr>c_slug := slug_model_save unidecode (override_slug_save c1) (cm_title c1) (c_slug c1)\<rparr>"
      and d': "d' = d\<lparr>contents := save_row content_key (content.truncate c') (contents d)\<rparr>"
      by (auto elim: content_model_save_Inr)
    have f: "content.truncate c1 = content.truncate c" "leaf_content_type c1 = Some (c_ctype c)"
      using image_model_save_fields [OF im] leaf cls by (simp_all add: content.truncate_def)
    then have kc: "c_ctype c1 = c_ctype c" "c_pk c1 = c_pk c"
      by (auto simp: content.truncate_def)
    have k': "c_ctype c' = c_ctype c" "c_pk c' = c_pk c" "leaf_content_type c' = Some (c_ctype c)"
      using kc f(2) by (simp_all add: c')
    have "filter (\<lambda>r. c_pk r = c_pk c') (filter (\<lambda>r. c_ctype r = c_ctype c) (contents d'))
          = filter (\<lambda>x. content_key x = content_key (content.truncate c'))
              (save_row content_key (content.truncate c') (contents d))"
      unfolding d' by (auto simp: k' content_key_def content.truncate_def intro: filter_cong)
    also have "\<dots> = [content.truncate c']" by (rule filter_key_save_row [OF keys])
    finally show ?thesis
      using Pair Inr k'(3) by (simp add: as_leaf_class_def model_objects_def objects_get_def)
  qed
qed

text \<open>
  C13. \<open>ImageModel.save\<close> draws its default image from
  \<open>DefaultImage.objects.permitted()\<close>, which keeps only the rows that have a
  \<open>Version\<close> in the site state.  When the \<open>Version\<close> table has no row for the
  \<open>DefaultImage\<close> content type, a content row saved without an image keeps an
  empty image and gets no image name, whatever \<open>DefaultImage\<close> rows exist.
\<close>

theorem content_model_save_no_default_image:
  assumes "\<forall>v\<in>set (versions d). v_ctype v \<noteq> di_ct" and "image c = []"
  shows "\<exists>c'. fst (content_model_save cls staging di_ct images k unidecode now today c d) = Inr c'
              \<and> image c' = [] \<and> image_name c' = image_name c"
proof -
  have "get_random k (default_image_category cls) (permitted_rows staging di_ct (versions d) images) = None"
    by (simp add: get_random_def permitted_rows_unversioned [OF assms(1)])
  then show ?thesis
    using assms(2) by (simp add: content_model_save_def image_model_save_def Let_def)
qed

text \<open>
  C14. When \<open>ImageModel.save\<close> names an image, the name is the image's file name, a
  space and the date of the save, and splitting the date at its dashes and reading each
  part with \<open>int()\<close> gives back the year, month and day.
\<close>

theorem image_model_save_name_date:
  assumes "image_model_save r today c = Inr c'" and "image c \<noteq> []" and "image_name c = None"
    and "1 \<le> month today" and "1 \<le> day today"
  shows "\<exists>s. image_name c' = Some (image c @ '' '' @ s)
             \<and> map py_int (py_split CHR ''-'' s) = [Some (year today), Some (month today), Some (day today)]"
proof -
  obtain s where s: "strftime_ymd today = Inr s" and n: "image_name c' = Some (image c @ '' '' @ s)"
    using assms(1-3) by (auto simp: image_model_save_def split: sum.splits)
  show ?thesis using n strftime_ymd_split [OF s] assms(4,5) by auto
qed

subsection \<open>Witnesses\<close>

theorem content_model_save_leaf_roundtrip_witness:
  "distinct (map content_key (contents (example_db STATE_PUBLISHED)))
   \<and> leaf_content_type example_content_model = None
   \<and> mc_ctype example_class = c_ctype example_content_model
   \<and> (case content_model_save example_class False 8 [example_default_image] 0 (\<lambda>s. s) 9 example_date
            example_content_model (example_db STATE_PUBLISHED) of
        (Inr c', d') \<Rightarrow> as_leaf_class c' d' = (Inr (content.truncate c'), d')
      | (Inl e, d') \<Rightarrow> d' = example_db STATE_PUBLISHED)"
  using content_model_save_leaf_roundtrip [of "example_db STATE_PUBLISHED" example_content_model example_class
          False 8 "[example_default_image]" 0 "\<lambda>s. s" 9 example_date]
  by (simp add: example_db_def example_content_def example_content_model_def example_class_def content_key_def)

theorem content_model_save_no_default_image_witness:
  "list_all (\<lambda>v. v_ctype v \<noteq> 8) (versions (example_db STATE_PUBLISHED))
   \<and> image (example_content_model\<lparr>image := []\<rparr>) = []
   \<and> (\<exists>c'. fst (content_model_save example_class False 8 [example_default_image] 0 (\<lambda>s. s) 9 example_date
                   (example_content_model\<lparr>image := []\<rparr>) (example_db STATE_PUBLISHED)) = Inr c'
           \<and> image c' = [] \<and> image_name c' = image_name (example_content_model\<lparr>image := []\<rparr>))"
  using content_model_save_no_default_image [of "example_db STATE_PUBLISHED" 8 "example_content_model\<lparr>image := []\<rparr>"
          example_class False "[example_default_image]" 0 "\<lambda>s. s" 9 example_date]
  by (simp add: example_db_def example_version_def)

theorem image_model_save_name_date_witness:
  "image_model_save None example_date example_content_model
     = Inr (example_content_model\<lparr>image_name := Some ''pic.jpg 2013-10-28''\<rparr>)
   \<and> image example_content_model \<noteq> [] \<and> image_name example_content_model = None
   \<and> 1 \<le> month example_date \<and> 1 \<le> day example_date
   \<and> (\<exists>s. image_name (example_content_model\<lparr>image_name := Some ''pic.jpg 2013-10-28''\<rparr>)
            = Some (image example_content_model @ '' '' @ s)
          \<and> map py_int (py_split CHR ''-'' s) = [Some (year example_date), Some (month example_date), Some (day example_date)])"
proof -
  have run: "image_model_save None example_date example_content_model
               = Inr (example_content_model\<lparr>image_name := Some ''pic.jpg 2013-10-28''\<rparr>)"
    by code_simp
  show ?thesis
    using image_model_save_name_date [OF run] run by (simp add: example_content_model_def example_date_def)
qed

subsection \<open>Order of the inherited saves\<close>

lemma image_model_save_publish_at:
  "image_model_save r today (c\<lparr>publish_at := p\<rparr>) =
   (case image_model_save r today c of Inl e \<Rightarrow> Inl e | Inr c' \<Rightarrow> Inr (c'\<lparr>publish_at := p\<rparr>))"
  by (cases "image_name c"; simp add: image_model_save_def Let_def split: sum.split)

lemma image_model_save_state_fields:
  "image_model_save r today c = Inr c' \<Longrightarrow> publish_at c' = publish_at c \<and> c_state c' = c_state c"
  by (auto simp: image_model_save_def Let_def split: if_splits sum.splits)

lemma state_save_as_update:
  "state_save now c = c\<lparr>publish_at := (if publish_at c = None \<and> c_state c = STATE_PUBLISHED then Some now else publish_at c)\<rparr>"
  by (simp add: state_save_def)

lemma image_model_save_state_save:
  "image_model_save r today (state_save now c) =
   (case image_model_save r today c of Inl e \<Rightarrow> Inl e | Inr c' \<Rightarrow> Inr (state_save now c'))"
proof (cases "image_model_save r today c")
  case (Inr c')
  then show ?thesis
    using image_model_save_state_fields [OF Inr]
    by (simp add: state_save_as_update [of now c] image_model_save_publish_at)
       (simp add: state_save_as_update)
qed (simp add: state_save_as_update [of now c] image_model_save_publish_at)

text \<open>
  So the two orders of the inherited saves raise in the same cases and store the
  same row:
\<close>

lemma gallery_image_save_eq_banner:
  "gallery_image_save random_image now today c = image_banner_save random_image now today c"
  by (simp add: gallery_image_save_def image_banner_save_def image_model_save_state_save)

end
