(* ===== verification/Scheduler.thy ===== *)
theory Scheduler
  imports Managers
begin

text \<open>
  The periodic task of \<open>src/tunobase/core/tasks.py\<close>: \<open>publish_objects\<close> runs
  \<open>Version.objects.publish_objects()\<close> (\<open>Managers.publish_objects\<close>).  The spec
  describes it as an idempotent endpoint.  The theory shows that a second run at the same
  time leaves the database as the first run left it, whether the first run returned
  or raised.  The argument: the loop of \<open>publish_objects\<close> only ever changes the
  state of a content row to \<open>PUBLISHED\<close> (\<open>pub_rel\<close>), and only for a row whose
  \<open>publish_at\<close> has passed; every decision of a second run therefore repeats or
  skips what the first run did.
\<close>

definition publish_objects_task :: "nat \<Rightarrow> (db, unit) exc" where
  "publish_objects_task now = publish_objects now"

text \<open>A content row before and after the loop: unchanged, or published.\<close>

definition pub_rel :: "content \<Rightarrow> content \<Rightarrow> bool" where
  "pub_rel c c' \<longleftrightarrow> c' = c \<or> c' = c\<lparr>c_state := STATE_PUBLISHED\<rparr>"

subsection \<open>Lemmas\<close>

lemma pub_rel_refl [simp]: "pub_rel c c"
  by (simp add: pub_rel_def)

lemma pub_rel_trans: "pub_rel a b \<Longrightarrow> pub_rel b c \<Longrightarrow> pub_rel a c"
  by (auto simp: pub_rel_def)

lemma pub_rel_fields: "pub_rel c c' \<Longrightarrow> content_key c' = content_key c \<and> publish_at c' = publish_at c"
  by (auto simp: pub_rel_def content_key_def)

lemma list_all2_pub_rel_keys:
  "list_all2 pub_rel xs ys \<Longrightarrow> map content_key ys = map content_key xs"
  by (induction rule: list_all2_induct) (auto dest: pub_rel_fields)

lemma find_pub_rel:
  "list_all2 pub_rel xs ys \<Longrightarrow>
     rel_option pub_rel (find (\<lambda>c. content_key c = k) xs) (find (\<lambda>c. content_key c = k) ys)"
  by (induction rule: list_all2_induct) (auto dest: pub_rel_fields)

lemma content_object_pub_rel:
  "list_all2 pub_rel (contents d) (contents d') \<Longrightarrow>
     rel_option pub_rel (content_object v d) (content_object v d')"
  unfolding content_object_def by (rule find_pub_rel)

lemma save_row_same:
  assumes "distinct (map key xs)" and "r \<in> set xs"
  shows "save_row key r xs = xs"
proof -
  have "map (\<lambda>x. if key x = key r then r else x) xs = xs"
    by (rule map_idI) (use distinct_map_eq [OF assms(1) _ assms(2)] in auto)
  with assms(2) show ?thesis by (simp add: save_row_map)
qed

lemma content_object_mem: "content_object v d = Some c \<Longrightarrow> c \<in> set (contents d)"
  by (auto simp: content_object_def dest: find_Some_iff [THEN iffD1])

lemma content_object_key: "content_object v d = Some c \<Longrightarrow> content_key c = (v_ctype v, object_id v)"
  unfolding content_object_def by (auto simp: find_Some_iff)

lemma publish_row_rel:
  assumes "distinct (map content_key xs)" and "c \<in> set xs"
  shows "list_all2 pub_rel xs (save_row content_key (c\<lparr>c_state := STATE_PUBLISHED\<rparr>) xs)"
proof -
  have "save_row content_key (c\<lparr>c_state := STATE_PUBLISHED\<rparr>) xs =
        map (\<lambda>x. if content_key x = content_key c then c\<lparr>c_state := STATE_PUBLISHED\<rparr> else x) xs"
    using assms(2) by (simp add: save_row_map content_key_def)
  moreover have "x = c" if "x \<in> set xs" "content_key x = content_key c" for x
    using distinct_map_eq [OF assms(1) that(1) assms(2) that(2)] .
  ultimately show ?thesis by (auto simp: list_all2_map2 list_all2_same pub_rel_def)
qed

text \<open>One step of the loop that publishes a row: \<open>state_save\<close> leaves it as it is.\<close>

lemma po_loop_save:
  "publish_at c = Some t \<Longrightarrow>
     content_save now (c\<lparr>c_state := STATE_PUBLISHED\<rparr>) d =
       (Inr (), d\<lparr>contents := save_row content_key (c\<lparr>c_state := STATE_PUBLISHED\<rparr>) (contents d)\<rparr>)"
  by (simp add: content_save_def state_save_def exc_simps)

lemma po_loop_step:
  "po_loop now (obj # qs) acc d =
     (if list_ex (in_series_state (v_series obj) STATE_PUBLISHED) (versions d) then po_loop now qs acc d
      else case content_object obj d of
             None \<Rightarrow> (Inl AttributeError, d)
           | Some c \<Rightarrow>
               (case publish_at c of
                  None \<Rightarrow> (Inl TypeError, d)
                | Some t \<Rightarrow>
                    if t \<le> now
                    then po_loop now qs (acc @ [v_id obj])
                           (d\<lparr>contents := save_row content_key (c\<lparr>c_state := STATE_PUBLISHED\<rparr>) (contents d)\<rparr>)
                    else po_loop now qs acc d))"
  by (simp add: get_content_object_def po_loop_save exc_simps ebind_def split: option.splits)

text \<open>The loop keeps every table but the content rows, and only publishes those.\<close>

lemma po_loop_effect:
  assumes "distinct (map content_key (contents d))" and "po_loop now qs acc d = (r, d')"
  shows "d' = d\<lparr>contents := contents d'\<rparr> \<and> list_all2 pub_rel (contents d) (contents d')"
  using assms
proof (induction qs arbitrary: acc d)
  case Nil
  then show ?case by (simp add: exc_simps list_all2_refl)
next
  case (Cons obj qs)
  show ?case
  proof (cases "list_ex (in_series_state (v_series obj) STATE_PUBLISHED) (versions d)
                \<or> content_object obj d = None \<or> (\<exists>c. content_object obj d = Some c \<and> publish_at c = None)
                \<or> (\<exists>c t. content_object obj d = Some c \<and> publish_at c = Some t \<and> now < t)")
    case True
    then have "po_loop now qs acc d = (r, d') \<or> d' = d"
      using Cons.prems(2) unfolding po_loop_step by (auto split: option.splits if_splits)
    then show ?thesis
    proof
      assume "po_loop now qs acc d = (r, d')"
      then show ?thesis by (rule Cons.IH [OF Cons.prems(1)])
    qed (simp add: list_all2_refl)
  next
    case False
    then have np: "\<not> list_ex (in_series_state (v_series obj) STATE_PUBLISHED) (versions d)"
      and "content_object obj d \<noteq> None" by auto
    then obtain c where c0: "content_object obj d = Some c" by auto
    with False obtain t where "publish_at c = Some t" "t \<le> now"
      by (cases "publish_at c") (auto simp: not_less)
    note c = c0 this
    let ?da = "d\<lparr>contents := save_row content_key (c\<lparr>c_state := STATE_PUBLISHED\<rparr>) (contents d)\<rparr>"
    have run: "po_loop now qs (acc @ [v_id obj]) ?da = (r, d')"
      using Cons.prems(2) c np unfolding po_loop_step by simp
    have r1: "list_all2 pub_rel (contents d) (contents ?da)"
      using publish_row_rel [OF Cons.prems(1) content_object_mem [OF c(1)]] by simp
    have "distinct (map content_key (contents ?da))"
      using Cons.prems(1) list_all2_pub_rel_keys [OF r1] by simp
    from Cons.IH [OF this run] r1 show ?thesis
      by (auto intro: list_all2_trans pub_rel_trans)
  qed
qed

lemma rel_option_pub_rel_Some:
  "rel_option pub_rel a b \<Longrightarrow> a = Some c \<Longrightarrow> \<exists>c'. b = Some c' \<and> pub_rel c c'"
  "rel_option pub_rel a b \<Longrightarrow> b = Some c' \<Longrightarrow> \<exists>c. a = Some c \<and> pub_rel c c'"
  by (cases b, simp_all) (cases a, simp_all)

lemma po_loop_versions:
  assumes "distinct (map content_key (contents d))" and "po_loop now qs acc d = (r, d')"
  shows "versions d' = versions d" "list_all2 pub_rel (contents d) (contents d')"
    "distinct (map content_key (contents d'))"
proof -
  have e: "d' = d\<lparr>contents := contents d'\<rparr>" "list_all2 pub_rel (contents d) (contents d')"
    using po_loop_effect [OF assms] by simp_all
  show "versions d' = versions d" using arg_cong [OF e(1), of versions] by simp
  show "list_all2 pub_rel (contents d) (contents d')" by (rule e(2))
  show "distinct (map content_key (contents d'))"
    using assms(1) list_all2_pub_rel_keys [OF e(2)] by simp
qed

text \<open>
  Running the loop again over the same versions from the state it reached changes
  nothing, and raises where the first run raised.
\<close>

lemma po_loop_rerun:
  assumes "distinct (map content_key (contents d))" and "po_loop now qs acc d = (r, d')"
  shows "\<exists>r'. po_loop now qs acc' d' = (r', d') \<and> (\<forall>e. r = Inl e \<longrightarrow> r' = Inl e)"
  using assms
proof (induction qs arbitrary: acc acc' d)
  case Nil
  then show ?case by (auto simp: exc_simps)
next
  case (Cons obj qs)
  note vd = po_loop_versions [OF Cons.prems]
  let ?P = "list_ex (in_series_state (v_series obj) STATE_PUBLISHED) (versions d)"
  show ?case
  proof (cases "?P")
    case True
    have tail: "po_loop now qs acc d = (r, d')"
      using Cons.prems(2) True unfolding po_loop_step by simp
    obtain r' where r': "po_loop now qs acc' d' = (r', d')" "\<forall>e. r = Inl e \<longrightarrow> r' = Inl e"
      using Cons.IH [OF Cons.prems(1) tail] by blast
    have "list_ex (in_series_state (v_series obj) STATE_PUBLISHED) (versions d')"
      using True vd(1) by simp
    with r' show ?thesis unfolding po_loop_step by simp
  next
    case np: False
    then have np': "\<not> list_ex (in_series_state (v_series obj) STATE_PUBLISHED) (versions d')"
      using vd(1) by simp
    show ?thesis
    proof (cases "content_object obj d")
      case None
      then have "r = Inl AttributeError" "d' = d"
        using np Cons.prems(2) unfolding po_loop_step by simp_all
      with np None show ?thesis unfolding po_loop_step by simp
    next
      case (Some c)
      then obtain c' where c': "content_object obj d' = Some c'" "pub_rel c c'"
        using rel_option_pub_rel_Some(1) [OF content_object_pub_rel [OF vd(2)]] by blast
      have pc: "publish_at c' = publish_at c" using pub_rel_fields [OF c'(2)] by simp
      show ?thesis
      proof (cases "publish_at c")
        case None
        then have "r = Inl TypeError" "d' = d"
          using np Some Cons.prems(2) unfolding po_loop_step by simp_all
        with np Some None show ?thesis unfolding po_loop_step by simp
      next
        case (Some t)
        note c = \<open>content_object obj d = Some c\<close> this
        show ?thesis
        proof (cases "t \<le> now")
          case False
          have tail: "po_loop now qs acc d = (r, d')"
            using Cons.prems(2) np c False unfolding po_loop_step by simp
          obtain r' where r': "po_loop now qs acc' d' = (r', d')" "\<forall>e. r = Inl e \<longrightarrow> r' = Inl e"
            using Cons.IH [OF Cons.prems(1) tail] by blast
          with np' c'(1) pc c(2) False show ?thesis unfolding po_loop_step by simp
        next
          case True
          let ?p = "c\<lparr>c_state := STATE_PUBLISHED\<rparr>"
          let ?da = "d\<lparr>contents := save_row content_key ?p (contents d)\<rparr>"
          have tail: "po_loop now qs (acc @ [v_id obj]) ?da = (r, d')"
            using Cons.prems(2) np c True unfolding po_loop_step by simp
          have ra: "list_all2 pub_rel (contents d) (contents ?da)"
            using publish_row_rel [OF Cons.prems(1) content_object_mem [OF c(1)]] by simp
          have ka: "distinct (map content_key (contents ?da))"
            using Cons.prems(1) list_all2_pub_rel_keys [OF ra] by simp
          have "content_key c = (v_ctype obj, object_id obj)" by (rule content_object_key [OF c(1)])
          then have key: "content_key ?p = (v_ctype obj, object_id obj)" by (simp add: content_key_def)
          have "content_object obj ?da = Some ?p"
            using find_save_row [of content_key ?p "contents d"] key by (simp add: content_object_def)
          then obtain c'' where c'': "content_object obj d' = Some c''" "pub_rel ?p c''"
            using rel_option_pub_rel_Some(1) [OF content_object_pub_rel [OF po_loop_versions(2) [OF ka tail]]]
            by blast
          have pp: "c' = ?p" using c'(1) c''(1) c''(2) by (auto simp: pub_rel_def)
          have same: "save_row content_key (c'\<lparr>c_state := STATE_PUBLISHED\<rparr>) (contents d') = contents d'"
            using save_row_same [OF vd(3) content_object_mem [OF c'(1)]] pp by simp
          obtain r' where r': "po_loop now qs (acc' @ [v_id obj]) d' = (r', d')" "\<forall>e. r = Inl e \<longrightarrow> r' = Inl e"
            using Cons.IH [OF ka tail] by blast
          with np' c'(1) pc c(2) True same show ?thesis unfolding po_loop_step by simp
        qed
      qed
    qed
  qed
qed
text \<open>
  After a run that returns, every version of the queryset was published by it, has a
  published sibling, or has a content row that is not yet due.
\<close>

lemma po_loop_trace:
  assumes "distinct (map content_key (contents d))" and "po_loop now qs acc d = (Inr ids, d')"
  shows "set acc \<subseteq> set ids \<and>
         (\<forall>v\<in>set qs. v_id v \<in> set ids \<or> list_ex (in_series_state (v_series v) STATE_PUBLISHED) (versions d)
             \<or> (\<exists>c t. content_object v d = Some c \<and> publish_at c = Some t \<and> now < t))"
  using assms
proof (induction qs arbitrary: acc d)
  case Nil
  then show ?case by (simp add: exc_simps)
next
  case (Cons obj qs)
  let ?P = "list_ex (in_series_state (v_series obj) STATE_PUBLISHED) (versions d)"
  show ?case
  proof (cases "?P")
    case True
    then have "po_loop now qs acc d = (Inr ids, d')"
      using Cons.prems(2) unfolding po_loop_step by simp
    with Cons.IH [OF Cons.prems(1)] True show ?thesis by simp
  next
    case np: False
    obtain c t where c: "content_object obj d = Some c" "publish_at c = Some t"
      using Cons.prems(2) np unfolding po_loop_step by (auto split: option.splits)
    show ?thesis
    proof (cases "t \<le> now")
      case False
      then have "po_loop now qs acc d = (Inr ids, d')"
        using Cons.prems(2) np c unfolding po_loop_step by simp
      with Cons.IH [OF Cons.prems(1)] c False show ?thesis by (simp add: not_le)
    next
      case True
      let ?da = "d\<lparr>contents := save_row content_key (c\<lparr>c_state := STATE_PUBLISHED\<rparr>) (contents d)\<rparr>"
      have tail: "po_loop now qs (acc @ [v_id obj]) ?da = (Inr ids, d')"
        using Cons.prems(2) np c True unfolding po_loop_step by simp
      have ra: "list_all2 pub_rel (contents d) (contents ?da)"
        using publish_row_rel [OF Cons.prems(1) content_object_mem [OF c(1)]] by simp
      have ka: "distinct (map content_key (contents ?da))"
        using Cons.prems(1) list_all2_pub_rel_keys [OF ra] by simp
      have ih: "set (acc @ [v_id obj]) \<subseteq> set ids"
        "\<forall>v\<in>set qs. v_id v \<in> set ids \<or> list_ex (in_series_state (v_series v) STATE_PUBLISHED) (versions d)
             \<or> (\<exists>c t. content_object v ?da = Some c \<and> publish_at c = Some t \<and> now < t)"
        using Cons.IH [OF ka tail] by simp_all
      have due_back: "\<And>v x y. content_object v ?da = Some x \<Longrightarrow> publish_at x = Some y \<Longrightarrow> now < y \<Longrightarrow>
                    \<exists>c t. content_object v d = Some c \<and> publish_at c = Some t \<and> now < t"
        by (drule rel_option_pub_rel_Some(2) [OF content_object_pub_rel [OF ra]]) (auto dest: pub_rel_fields)
      show ?thesis using ih due_back by fastforce
    qed
  qed
qed

lemma po_loop_skip:
  "\<forall>v\<in>set qs. list_ex (in_series_state (v_series v) STATE_PUBLISHED) (versions d)
                \<or> (\<exists>c t. content_object v d = Some c \<and> publish_at c = Some t \<and> now < t)
   \<Longrightarrow> po_loop now qs acc d = (Inr acc, d)"
proof (induction qs)
  case Nil
  then show ?case by (simp add: exc_simps)
next
  case (Cons obj qs)
  then show ?case unfolding po_loop_step by (auto simp: not_le)
qed

lemma publish_objects_run:
  "publish_objects now e =
     (case po_loop now (filter (\<lambda>v. v_state v \<noteq> STATE_PUBLISHED) (versions e)) [] e of
        (Inl x, e') \<Rightarrow> (Inl x, e')
      | (Inr ids, e') \<Rightarrow>
          (Inr (), e'\<lparr>versions := map (\<lambda>v. if v_id v \<in> set ids then v\<lparr>v_state := STATE_PUBLISHED\<rparr> else v)
                                   (versions e')\<rparr>))"
  by (simp add: publish_objects_def update_versions_state_def ebind_def exc_simps split: prod.splits sum.splits)

text \<open>After a run that returned the published ids, every version still unpublished
  is skipped by a second run: its series has a published version, or it is not due.\<close>

lemma published_rerun_skips:
  assumes keys: "distinct (map content_key (contents d))"
    and loop: "po_loop now (filter (\<lambda>v. v_state v \<noteq> STATE_PUBLISHED) (versions d)) [] d = (Inr ids, d')"
  shows "\<forall>v\<in>set (filter (\<lambda>v. v_state v \<noteq> STATE_PUBLISHED) (versions (d'\<lparr>versions := map (\<lambda>v. if v_id v \<in> set ids then v\<lparr>v_state := STATE_PUBLISHED\<rparr> else v) (versions d')\<rparr>))).
           list_ex (in_series_state (v_series v) STATE_PUBLISHED) (versions (d'\<lparr>versions := map (\<lambda>v. if v_id v \<in> set ids then v\<lparr>v_state := STATE_PUBLISHED\<rparr> else v) (versions d')\<rparr>))
           \<or> (\<exists>c t. content_object v (d'\<lparr>versions := map (\<lambda>v. if v_id v \<in> set ids then v\<lparr>v_state := STATE_PUBLISHED\<rparr> else v) (versions d')\<rparr>) = Some c \<and> publish_at c = Some t \<and> now < t)"
proof -
  let ?qs = "filter (\<lambda>v. v_state v \<noteq> STATE_PUBLISHED) (versions d)"
  let ?upd = "\<lambda>v. if v_id v \<in> set ids then v\<lparr>v_state := STATE_PUBLISHED\<rparr> else v"
  let ?d1 = "d'\<lparr>versions := map (\<lambda>v. if v_id v \<in> set ids then v\<lparr>v_state := STATE_PUBLISHED\<rparr> else v) (versions d')\<rparr>"
  note vd = po_loop_versions [OF keys loop]
  have tr: "\<forall>v\<in>set ?qs. v_id v \<in> set ids \<or> list_ex (in_series_state (v_series v) STATE_PUBLISHED) (versions d)
              \<or> (\<exists>c t. content_object v d = Some c \<and> publish_at c = Some t \<and> now < t)"
    using po_loop_trace [OF keys loop] by simp
  have skip: "\<forall>v\<in>set (filter (\<lambda>v. v_state v \<noteq> STATE_PUBLISHED) (versions ?d1)).
                list_ex (in_series_state (v_series v) STATE_PUBLISHED) (versions ?d1)
                \<or> (\<exists>c t. content_object v ?d1 = Some c \<and> publish_at c = Some t \<and> now < t)"
  proof
    fix v2 assume "v2 \<in> set (filter (\<lambda>v. v_state v \<noteq> STATE_PUBLISHED) (versions ?d1))"
    then obtain v where v: "v \<in> set (versions d)" "v2 = ?upd v" "v_state v2 \<noteq> STATE_PUBLISHED"
      using vd(1) by auto
    then have nid: "v_id v \<notin> set ids" and v2: "v2 = v" by (auto split: if_splits)
    with v tr have "list_ex (in_series_state (v_series v) STATE_PUBLISHED) (versions d)
                    \<or> (\<exists>c t. content_object v d = Some c \<and> publish_at c = Some t \<and> now < t)"
      by auto
    then show "list_ex (in_series_state (v_series v2) STATE_PUBLISHED) (versions ?d1)
                \<or> (\<exists>c t. content_object v2 ?d1 = Some c \<and> publish_at c = Some t \<and> now < t)"
    proof
      assume "list_ex (in_series_state (v_series v) STATE_PUBLISHED) (versions d)"
      then obtain w where w: "w \<in> set (versions d)" "in_series_state (v_series v) STATE_PUBLISHED w"
        by (auto simp: list_ex_iff)
      then have "?upd w \<in> set (versions ?d1)" "in_series_state (v_series v) STATE_PUBLISHED (?upd w)"
        using vd(1) by (auto simp: in_series_state_def)
      then show ?thesis using v2 by (auto simp: list_ex_iff)
    next
      assume "\<exists>c t. content_object v d = Some c \<and> publish_at c = Some t \<and> now < t"
      then obtain c t where c: "content_object v d = Some c" "publish_at c = Some t" "now < t" by blast
      obtain c' where "content_object v d' = Some c'" "pub_rel c c'"
        using rel_option_pub_rel_Some(1) [OF content_object_pub_rel [OF vd(2)] c(1)] by blast
      then have "content_object v ?d1 = Some c'" "publish_at c' = Some t"
        using c(2) pub_rel_fields by (simp_all add: content_object_def)
      then show ?thesis using v2 c(3) by blast
    qed
  qed
  then show ?thesis .
qed

text \<open>
  C5. The periodic task \<open>publish_objects\<close> is idempotent, as the spec says: on a
  content table with unique keys, running it a second time at the same moment leaves the
  database exactly as the first run left it.  This holds also when the first run
  raised part-way through, after publishing some content rows.
\<close>

theorem publish_objects_task_idempotent:
  assumes keys: "distinct (map content_key (contents d))"
  shows "snd (publish_objects_task now (snd (publish_objects_task now d))) = snd (publish_objects_task now d)"
proof -
  let ?qs = "filter (\<lambda>v. v_state v \<noteq> STATE_PUBLISHED) (versions d)"
  obtain r d' where loop: "po_loop now ?qs [] d = (r, d')" by (cases "po_loop now ?qs [] d") blast
  note vd = po_loop_versions [OF keys loop]
  show ?thesis
  proof (cases r)
    case (Inl e)
    then have d1: "snd (publish_objects now d) = d'" using loop by (simp add: publish_objects_run)
    obtain r' where "po_loop now ?qs [] d' = (r', d')" "r' = Inl e"
      using po_loop_rerun [OF keys loop, of "[]"] Inl by blast
    then show ?thesis using d1 vd(1) by (simp add: publish_objects_task_def publish_objects_run)
  next
    case (Inr ids)
    let ?upd = "\<lambda>v. if v_id v \<in> set ids then v\<lparr>v_state := STATE_PUBLISHED\<rparr> else v"
    let ?d1 = "d'\<lparr>versions := map ?upd (versions d')\<rparr>"
    have d1: "snd (publish_objects now d) = ?d1" using loop Inr by (simp add: publish_objects_run)
    have "po_loop now (filter (\<lambda>v. v_state v \<noteq> STATE_PUBLISHED) (versions ?d1)) [] ?d1 = (Inr [], ?d1)"
      by (rule po_loop_skip [OF published_rerun_skips [OF keys loop [unfolded Inr]]])
    then have "snd (publish_objects now ?d1) = ?d1" by (simp add: publish_objects_run)
    with d1 show ?thesis by (simp add: publish_objects_task_def)
  qed
qed

text \<open>
  The loop returns when every version it visits has its content row and the row has a
  \<open>publish_at\<close>: saving a row keeps the \<open>publish_at\<close> of every row.
\<close>

lemma po_loop_returns:
  assumes "distinct (map content_key (contents d))"
    and "\<forall>v\<in>set qs. \<exists>c t. content_object v d = Some c \<and> publish_at c = Some t"
  shows "\<exists>ids d'. po_loop now qs acc d = (Inr ids, d')"
  using assms
proof (induction qs arbitrary: acc d)
  case Nil
  then show ?case by (simp add: exc_simps)
next
  case (Cons obj qs)
  obtain c t where c: "content_object obj d = Some c" "publish_at c = Some t" using Cons.prems(2) by auto
  let ?da = "d\<lparr>contents := save_row content_key (c\<lparr>c_state := STATE_PUBLISHED\<rparr>) (contents d)\<rparr>"
  have ra: "list_all2 pub_rel (contents d) (contents ?da)"
    using publish_row_rel [OF Cons.prems(1) content_object_mem [OF c(1)]] by simp
  have ka: "distinct (map content_key (contents ?da))"
    using Cons.prems(1) list_all2_pub_rel_keys [OF ra] by simp
  have "\<exists>c t. content_object v ?da = Some c \<and> publish_at c = Some t" if vq: "v \<in> set qs" for v
  proof -
    obtain c1 t1 where "content_object v d = Some c1" "publish_at c1 = Some t1" using Cons.prems(2) vq by auto
    then show ?thesis
      using rel_option_pub_rel_Some(1) [OF content_object_pub_rel [OF ra]] pub_rel_fields by fastforce
  qed
  then have "\<exists>ids d'. po_loop now qs acc' ?da = (Inr ids, d')" for acc'
    using Cons.IH [OF ka] by blast
  moreover have "\<exists>ids d'. po_loop now qs acc' d = (Inr ids, d')" for acc'
    using Cons.IH [OF Cons.prems(1)] Cons.prems(2) by simp
  ultimately show ?case using c unfolding po_loop_step by (simp split: if_splits)
qed

text \<open>
  After a run that returns, a due version of a series with no published version was
  published by it.
\<close>

lemma po_loop_publishes_due:
  assumes "distinct (map content_key (contents d))" and "po_loop now qs acc d = (Inr ids, d')"
    and "v \<in> set qs" "\<not> list_ex (in_series_state (v_series v) STATE_PUBLISHED) (versions d)"
    and "content_object v d = Some c" "publish_at c = Some t" "t \<le> now"
  shows "v_id v \<in> set ids"
  using po_loop_trace [OF assms(1,2)] assms(3-7) by fastforce

text \<open>
  C4. The scheduled \<open>publish_objects\<close> breaks the series invariant: it checks for a
  published sibling against the table, but writes the versions' new state only after
  the loop.  On any database where two versions of one series with no published version
  are due, and every unpublished version has a content row with a \<open>publish_at\<close>, the
  run returns and leaves both versions published.
\<close>

theorem publish_objects_breaks_series_inv:
  assumes keys: "distinct (map content_key (contents d))"
    and v: "v1 \<in> set (versions d)" "v2 \<in> set (versions d)" "v_id v1 \<noteq> v_id v2" "v_series v1 = v_series v2"
    and np: "\<not> list_ex (in_series_state (v_series v1) STATE_PUBLISHED) (versions d)"
    and rows: "\<forall>v\<in>set (versions d). v_state v \<noteq> STATE_PUBLISHED \<longrightarrow>
                 (\<exists>c t. content_object v d = Some c \<and> publish_at c = Some t)"
    and due1: "content_object v1 d = Some c1" "publish_at c1 = Some t1" "t1 \<le> now"
    and due2: "content_object v2 d = Some c2" "publish_at c2 = Some t2" "t2 \<le> now"
  shows "\<exists>d'. publish_objects now d = (Inr (), d') \<and> \<not> series_inv d'"
proof -
  let ?qs = "filter (\<lambda>v. v_state v \<noteq> STATE_PUBLISHED) (versions d)"
  obtain ids d' where loop: "po_loop now ?qs [] d = (Inr ids, d')"
    using po_loop_returns [OF keys, of ?qs now "[]"] rows by auto
  have st: "v_state v1 \<noteq> STATE_PUBLISHED" "v_state v2 \<noteq> STATE_PUBLISHED"
    using np v by (auto simp: list_ex_iff in_series_state_def)
  have ids: "v_id v1 \<in> set ids" "v_id v2 \<in> set ids"
    using po_loop_publishes_due [OF keys loop _ _ due1] po_loop_publishes_due [OF keys loop _ _ due2]
          v st np by simp_all
  let ?upd = "\<lambda>v. if v_id v \<in> set ids then v\<lparr>v_state := STATE_PUBLISHED\<rparr> else v"
  have vs: "versions d' = versions d" by (rule po_loop_versions(1) [OF keys loop])
  have "?upd v1 \<in> set (map ?upd (versions d'))" "?upd v2 \<in> set (map ?upd (versions d'))"
    using v vs by simp_all
  then have "\<not> at_most_one STATE_PUBLISHED (map ?upd (versions d'))"
    using ids v(3,4) unfolding at_most_one_def by fastforce
  then show ?thesis using loop by (simp add: publish_objects_run series_inv_def)
qed

theorem publish_objects_breaks_series_inv_witness:
  "map v_state (versions (example_db STATE_UNPUBLISHED)) = [STATE_UNPUBLISHED, STATE_UNPUBLISHED]
   \<and> (\<exists>d'. publish_objects 9 (example_db STATE_UNPUBLISHED) = (Inr (), d') \<and> \<not> series_inv d')"
proof -
  let ?d = "example_db STATE_UNPUBLISHED"
  let ?v1 = "example_version 1 10 STATE_UNPUBLISHED" and ?v2 = "example_version 2 11 STATE_UNPUBLISHED"
  have keys: "distinct (map content_key (contents ?d))" by (simp add: example_simps content_key_def)
  have v: "?v1 \<in> set (versions ?d)" "?v2 \<in> set (versions ?d)" "v_id ?v1 \<noteq> v_id ?v2" "v_series ?v1 = v_series ?v2"
    by (simp_all add: example_simps)
  have np: "\<not> list_ex (in_series_state (v_series ?v1) STATE_PUBLISHED) (versions ?d)"
    by (simp add: example_simps in_series_state_def)
  have rows: "\<forall>v\<in>set (versions ?d). v_state v \<noteq> STATE_PUBLISHED \<longrightarrow>
                 (\<exists>c t. content_object v ?d = Some c \<and> publish_at c = Some t)"
    by (simp add: example_simps content_object_def content_key_def)
  have d1: "content_object ?v1 ?d = Some (example_content 10 STATE_UNPUBLISHED)"
    "publish_at (example_content 10 STATE_UNPUBLISHED) = Some 5"
    and d2: "content_object ?v2 ?d = Some (example_content 11 STATE_UNPUBLISHED)"
    "publish_at (example_content 11 STATE_UNPUBLISHED) = Some 5"
    by (simp_all add: example_simps content_object_def content_key_def)
  show ?thesis
    using publish_objects_breaks_series_inv [OF keys v np rows d1 _ d2] by (simp add: example_simps)
qed

subsection \<open>Witness\<close>

theorem publish_objects_task_idempotent_witness:
  "distinct (map content_key (contents (example_db STATE_UNPUBLISHED)))
   \<and> snd (publish_objects_task 9 (snd (publish_objects_task 9 (example_db STATE_UNPUBLISHED))))
     = snd (publish_objects_task 9 (example_db STATE_UNPUBLISHED))"
  using publish_objects_task_idempotent [of "example_db STATE_UNPUBLISHED" 9]
  by (simp add: example_db_def example_content_def content_key_def)

end
