(* ===== verification/UuidField.thy ===== *)
theory UuidField
  imports Prelude
begin

text \<open>
  \<open>UUIDField\<close> of \<open>src/tunobase/core/fields.py\<close>: a \<open>CharField\<close> whose
  \<open>pre_save\<close> fills the column with a fresh \<open>uuid.uuid1()\<close> when the row is
  inserted.  The uuid is its 128-bit integer (\<open>UUID.int\<close>), drawn by the library
  from the clock and the node id: a parameter here.  Its two text forms are the
  library's: \<open>hex\<close> is \<open>'%032x' % self.int\<close>, and \<open>str()\<close> cuts that into the
  groups 8-4-4-4-12 joined by dashes.
\<close>

record uuid_field =
  uf_max_length :: nat
  uf_hex :: bool

text \<open>
  \<open>__init__\<close>: \<open>max_length\<close> defaults to 64, \<open>hex\<close> (popped from the keyword
  arguments) to \<open>False\<close>.
\<close>

definition uuid_field_init :: "nat option \<Rightarrow> bool option \<Rightarrow> uuid_field" where
  "uuid_field_init max_length hex =
     \<lparr>uf_max_length = (case max_length of None \<Rightarrow> 64 | Some n \<Rightarrow> n),
      uf_hex = (case hex of None \<Rightarrow> False | Some b \<Rightarrow> b)\<rparr>"

definition hex_char :: "nat \<Rightarrow> char" where
  "hex_char k = (if k < 10 then char_of (48 + k) else char_of (87 + k))"

text \<open>\<open>'%0wx' % n\<close> for \<open>n < 16^w\<close>: \<open>w\<close> lower-case hexadecimal digits.\<close>

fun hex_fixed :: "nat \<Rightarrow> nat \<Rightarrow> string" where
  "hex_fixed 0 n = []"
| "hex_fixed (Suc w) n = hex_fixed w (n div 16) @ [hex_char (n mod 16)]"

definition uuid_hex :: "nat \<Rightarrow> string" where
  "uuid_hex u = hex_fixed 32 u"

definition uuid_str :: "nat \<Rightarrow> string" where
  "uuid_str u =
     (let hex = uuid_hex u
      in take 8 hex @ ''-'' @ take 4 (drop 8 hex) @ ''-'' @ take 4 (drop 12 hex) @ ''-''
         @ take 4 (drop 16 hex) @ ''-'' @ drop 20 hex)"

text \<open>
  \<open>pre_save(model_instance, add)\<close>: on an insert the value is the hex or the dashed
  form of a new uuid (\<open>self.hex and str(uuid.uuid1().hex) or str(uuid.uuid1())\<close>;
  the hex string is never empty, so the \<open>or\<close> branch is only taken without
  \<open>hex\<close>), written to the instance's attribute and returned; on an update the
  attribute's current value is returned.  The result is the value saved and the
  attribute after the call.
\<close>

definition uuid_pre_save :: "uuid_field \<Rightarrow> bool \<Rightarrow> nat \<Rightarrow> string \<Rightarrow> string \<times> string" where
  "uuid_pre_save f add u attr =
     (if add then (let value = (if uf_hex f then uuid_hex u else uuid_str u) in (value, value))
      else (attr, attr))"

text \<open>Reading a hexadecimal string back: \<open>int(s, 16)\<close> on lower-case digits.\<close>

definition hex_digit_value :: "char \<Rightarrow> nat" where
  "hex_digit_value c = (if (of_char c :: nat) \<le> 57 then of_char c - 48 else of_char c - 87)"

definition hex_value :: "string \<Rightarrow> nat" where
  "hex_value s = foldl (\<lambda>acc c. 16 * acc + hex_digit_value c) 0 s"

subsection \<open>Lemmas\<close>

lemma hex_char_value: "k < 16 \<Longrightarrow> hex_digit_value (hex_char k) = k \<and> hex_char k \<noteq> CHR ''-''"
  by (auto simp: hex_char_def hex_digit_value_def dest: arg_cong [where f = "of_char :: char \<Rightarrow> nat"])

lemma length_hex_fixed [simp]: "length (hex_fixed w n) = w"
  by (induction w arbitrary: n) simp_all

lemma hex_value_snoc: "hex_value (xs @ [c]) = 16 * hex_value xs + hex_digit_value c"
  by (simp add: hex_value_def)

lemma hex_value_fixed: "hex_value (hex_fixed w n) = n mod 16 ^ w"
proof (induction w arbitrary: n)
  case 0
  then show ?case by (simp add: hex_value_def)
next
  case (Suc w)
  have "n mod 16 ^ Suc w = n mod 16 + 16 * (n div 16 mod 16 ^ w)"
    by (simp add: mod_mult2_eq)
  then show ?case
    using Suc [of "n div 16"] hex_char_value [of "n mod 16"] by (simp add: hex_value_snoc)
qed

lemma hex_fixed_no_dash: "CHR ''-'' \<notin> set (hex_fixed w n)"
proof (induction w arbitrary: n)
  case (Suc w)
  have "hex_char (n mod 16) \<noteq> CHR ''-''" using hex_char_value [of "n mod 16"] by simp
  with Suc show ?case by auto
qed simp

lemma take_drop_split: "take a (drop b xs) @ drop (a + b) xs = drop b xs"
  by (metis append_take_drop_id drop_drop)

lemma uuid_str_length: "length (uuid_str u) = 36"
  by (simp add: uuid_str_def uuid_hex_def Let_def)

lemma uuid_str_undash: "filter (\<lambda>c. c \<noteq> CHR ''-'') (uuid_str u) = uuid_hex u"
proof -
  let ?h = "uuid_hex u"
  have nd: "filter (\<lambda>c. c \<noteq> CHR ''-'') xs = xs" if "xs = take i (drop j ?h) \<or> xs = drop j ?h" for xs i j
    using that hex_fixed_no_dash [of 32 u] unfolding uuid_hex_def
    by (auto simp: filter_id_conv dest: in_set_takeD in_set_dropD)
  have "take 8 ?h @ take 4 (drop 8 ?h) @ take 4 (drop 12 ?h) @ take 4 (drop 16 ?h) @ drop 20 ?h = ?h"
    using take_drop_split [of 4 16 ?h] take_drop_split [of 4 12 ?h] take_drop_split [of 4 8 ?h]
          take_drop_split [of 8 0 ?h]
    by simp
  then show ?thesis
    unfolding uuid_str_def Let_def
    using nd [of "take 8 ?h" 8 0] nd [of "take 4 (drop 8 ?h)" 4 8] nd [of "take 4 (drop 12 ?h)" 4 12]
          nd [of "take 4 (drop 16 ?h)" 4 16] nd [of "drop 20 ?h" 0 20]
    by simp
qed

lemma uuid_hex_value: "u < 2 ^ 128 \<Longrightarrow> hex_value (uuid_hex u) = u"
proof -
  assume "u < 2 ^ 128"
  moreover have "(16::nat) ^ 32 = 2 ^ 128" by simp
  ultimately show ?thesis by (simp add: uuid_hex_def hex_value_fixed)
qed

lemma uuid_hex_undash: "filter (\<lambda>c. c \<noteq> CHR ''-'') (uuid_hex u) = uuid_hex u"
  using hex_fixed_no_dash [of 32 u] by (auto simp: uuid_hex_def filter_id_conv)

text \<open>
  C39. On an insert, \<open>UUIDField.pre_save\<close> with the default \<open>max_length\<close> stores a
  value that fits the column (32 or 36 characters, against 64).  The instance's
  attribute holds the same value.  With its dashes removed, the value reads back as
  the uuid's 128-bit integer, in the hex form and in the dashed form alike.
\<close>

theorem uuid_pre_save_fits:
  assumes "u < 2 ^ 128"
  shows "length (fst (uuid_pre_save (uuid_field_init None hex) True u attr))
           \<le> uf_max_length (uuid_field_init None hex)
         \<and> snd (uuid_pre_save (uuid_field_init None hex) True u attr)
           = fst (uuid_pre_save (uuid_field_init None hex) True u attr)
         \<and> hex_value (filter (\<lambda>c. c \<noteq> CHR ''-'') (fst (uuid_pre_save (uuid_field_init None hex) True u attr))) = u"
  using uuid_hex_value [OF assms] uuid_str_length [of u] uuid_str_undash [of u] uuid_hex_undash [of u]
  by (simp add: uuid_pre_save_def uuid_field_init_def uuid_hex_def Let_def)

theorem uuid_pre_save_fits_witness:
  "(305441741 :: nat) < 2 ^ 128
   \<and> length (fst (uuid_pre_save (uuid_field_init None (Some True)) True 305441741 []))
       \<le> uf_max_length (uuid_field_init None (Some True))
   \<and> snd (uuid_pre_save (uuid_field_init None (Some True)) True 305441741 [])
       = fst (uuid_pre_save (uuid_field_init None (Some True)) True 305441741 [])
   \<and> hex_value (filter (\<lambda>c. c \<noteq> CHR ''-'') (fst (uuid_pre_save (uuid_field_init None (Some True)) True 305441741 []))) = 305441741"
  using uuid_pre_save_fits [of 305441741 "Some True" "[]"] by simp

end
