(* ===== verification/Migrations.thy ===== *)
theory Migrations
  imports Prelude "HOL-Library.Multiset"
begin

text \<open>
  The South schema migrations of the repository:
  \<open>src/tunobase/tagging/migrations/0001_initial.py\<close>,
  \<open>0002_auto__add_field_tag_slug__chg_field_tag_title.py\<close> and
  \<open>src/tunobase/core/migrations/0002_auto__add_polymorphiccontentmodel__del_field_contentmodel_polymorphic_.py\<close>.
  Each \<open>forwards\<close> and \<open>backwards\<close> is a list of calls of South's \<open>db\<close> API
  (\<open>schema_op\<close>).  A schema maps table names
  to tables: columns in order, rows (each a list of column name and value, in column
  order) and unique constraints.  \<open>south_step\<close> gives each call the semantics of
  South's generic backend:
  \<^item> a table or column that exists already, or is missing, is a \<open>DatabaseError\<close>;
  \<^item> a foreign key \<open>name\<close> is stored in the column \<open>name_id\<close>;
  \<^item> \<open>add_column\<close> fills existing rows with the field's default, or \<open>NULL\<close>,
    and with \<open>keep_default=False\<close> drops the default from the column afterwards;
  \<^item> \<open>alter_column\<close> to a shorter \<open>CharField\<close> fails on longer values when the
    backend enforces lengths (\<open>strict\<close>: PostgreSQL does, SQLite does not);
  \<^item> \<open>create_unique\<close> fails on duplicate non-\<open>NULL\<close> tuples;
  \<^item> \<open>delete_unique\<close> of a constraint that does not exist raises \<open>ValueError\<close>.
  A migration runs in one transaction, so an error leaves the schema as it was: the
  result is the error alone.  The frozen \<open>models\<close> entries of the app's own tables
  are lists of fields (\<open>frozen_model\<close>), and \<open>frozen_matches\<close> compares them, as
  multisets of columns, with the tables the migrations build.
\<close>

datatype sql_value = SqlNull | SqlInt int | SqlStr string

datatype field_kind =
    AutoField | CharField nat | TextField | SlugField nat | PositiveIntegerField
  | PositiveSmallIntegerField | DateTimeField | ImageField nat | RichTextField
  | ForeignKey string | OneToOneField string | ManyToManyField string

record field =
  f_kind :: field_kind
  f_null :: bool
  f_default :: "sql_value option"

record column =
  col_name :: string
  col_field :: field

record table =
  t_columns :: "column list"
  t_rows :: "(string \<times> sql_value) list list"
  t_uniques :: "string list list"

type_synonym schema = "string \<Rightarrow> table option"

datatype schema_op =
    CreateTable string "(string \<times> field) list"
  | DeleteTable string
  | AddColumn string string field bool
  | DeleteColumn string string
  | AlterColumn string string field
  | CreateUnique string "string list"
  | DeleteUnique string "string list"
  | SendCreateSignal

text \<open>\<open>self.gf(path)(**kwargs)\<close>: a field without and with a default.\<close>

definition fld :: "field_kind \<Rightarrow> bool \<Rightarrow> field" where
  "fld k null = \<lparr>f_kind = k, f_null = null, f_default = None\<rparr>"

definition fld_default :: "field_kind \<Rightarrow> sql_value \<Rightarrow> field" where
  "fld_default k v = \<lparr>f_kind = k, f_null = False, f_default = Some v\<rparr>"

definition db_column_name :: "string \<Rightarrow> field \<Rightarrow> string" where
  "db_column_name name f =
     (case f_kind f of ForeignKey _ \<Rightarrow> name @ ''_id'' | OneToOneField _ \<Rightarrow> name @ ''_id'' | _ \<Rightarrow> name)"

definition col_names :: "table \<Rightarrow> string list" where
  "col_names t = map col_name (t_columns t)"

definition row_value :: "(string \<times> sql_value) list \<Rightarrow> string \<Rightarrow> sql_value" where
  "row_value r c = (case map_of r c of None \<Rightarrow> SqlNull | Some v \<Rightarrow> v)"

text \<open>A value longer than a \<open>CharField\<close> or \<open>SlugField\<close> allows.\<close>

fun too_long :: "field_kind \<Rightarrow> sql_value \<Rightarrow> bool" where
  "too_long (CharField n) (SqlStr x) \<longleftrightarrow> n < length x"
| "too_long (SlugField n) (SqlStr x) \<longleftrightarrow> n < length x"
| "too_long _ _ \<longleftrightarrow> False"

definition has_duplicates :: "string list \<Rightarrow> (string \<times> sql_value) list list \<Rightarrow> bool" where
  "has_duplicates cs rows \<longleftrightarrow>
     \<not> distinct (filter (\<lambda>k. SqlNull \<notin> set k) (map (\<lambda>r. map (row_value r) cs) rows))"

text \<open>The effect of \<open>db.add_column\<close>, \<open>db.delete_column\<close> and \<open>db.alter_column\<close> on a table.\<close>

definition tbl_add_column :: "string \<Rightarrow> field \<Rightarrow> sql_value \<Rightarrow> table \<Rightarrow> table" where
  "tbl_add_column c f v t =
     t\<lparr>t_columns := t_columns t @ [\<lparr>col_name = c, col_field = f\<rparr>],
       t_rows := map (\<lambda>r. r @ [(c, v)]) (t_rows t)\<rparr>"

definition tbl_delete_column :: "string \<Rightarrow> table \<Rightarrow> table" where
  "tbl_delete_column c t =
     t\<lparr>t_columns := filter (\<lambda>k. col_name k \<noteq> c) (t_columns t),
       t_rows := map (filter (\<lambda>(k, v). k \<noteq> c)) (t_rows t)\<rparr>"

definition tbl_alter_column :: "string \<Rightarrow> field \<Rightarrow> table \<Rightarrow> table" where
  "tbl_alter_column c f t =
     t\<lparr>t_columns := map (\<lambda>k. if col_name k = c then k\<lparr>col_field := f\<rparr> else k) (t_columns t)\<rparr>"

definition south_step :: "bool \<Rightarrow> schema_op \<Rightarrow> schema \<Rightarrow> py_error + schema" where
  "south_step strict op s =
     (case op of
        CreateTable name fs \<Rightarrow>
          (case s name of
             Some _ \<Rightarrow> Inl DatabaseError
           | None \<Rightarrow>
               if \<not> distinct (map (\<lambda>(n, f). db_column_name n f) fs) then Inl DatabaseError
               else Inr (s(name \<mapsto>
                      \<lparr>t_columns = map (\<lambda>(n, f). \<lparr>col_name = db_column_name n f, col_field = f\<rparr>) fs,
                       t_rows = [], t_uniques = []\<rparr>)))
      | DeleteTable name \<Rightarrow>
          (case s name of None \<Rightarrow> Inl DatabaseError | Some _ \<Rightarrow> Inr (s(name := None)))
      | AddColumn tbl name f keep_default \<Rightarrow>
          (case s tbl of
             None \<Rightarrow> Inl DatabaseError
           | Some t \<Rightarrow>
               if db_column_name name f \<in> set (col_names t) then Inl DatabaseError
               else if \<not> f_null f \<and> f_default f = None \<and> t_rows t \<noteq> [] then Inl IntegrityError
               else Inr (s(tbl \<mapsto> tbl_add_column (db_column_name name f)
                                     (if keep_default then f else f\<lparr>f_default := None\<rparr>)
                                     (case f_default f of None \<Rightarrow> SqlNull | Some v \<Rightarrow> v) t)))
      | DeleteColumn tbl c \<Rightarrow>
          (case s tbl of
             None \<Rightarrow> Inl DatabaseError
           | Some t \<Rightarrow>
               if c \<notin> set (col_names t) then Inl DatabaseError
               else Inr (s(tbl \<mapsto> tbl_delete_column c t)))
      | AlterColumn tbl name f \<Rightarrow>
          (case s tbl of
             None \<Rightarrow> Inl DatabaseError
           | Some t \<Rightarrow>
               if db_column_name name f \<notin> set (col_names t) then Inl DatabaseError
               else if strict \<and> list_ex (\<lambda>r. too_long (f_kind f) (row_value r (db_column_name name f))) (t_rows t)
               then Inl DataError
               else Inr (s(tbl \<mapsto> tbl_alter_column (db_column_name name f) f t)))
      | CreateUnique tbl cs \<Rightarrow>
          (case s tbl of
             None \<Rightarrow> Inl DatabaseError
           | Some t \<Rightarrow>
               if has_duplicates cs (t_rows t) then Inl IntegrityError
               else Inr (s(tbl \<mapsto> t\<lparr>t_uniques := t_uniques t @ [cs]\<rparr>)))
      | DeleteUnique tbl cs \<Rightarrow>
          (case s tbl of
             None \<Rightarrow> Inl DatabaseError
           | Some t \<Rightarrow>
               if cs \<notin> set (t_uniques t) then Inl ValueError
               else Inr (s(tbl \<mapsto> t\<lparr>t_uniques := remove1 cs (t_uniques t)\<rparr>)))
      | SendCreateSignal \<Rightarrow> Inr s)"

fun run_ops :: "bool \<Rightarrow> schema_op list \<Rightarrow> schema \<Rightarrow> py_error + schema" where
  "run_ops strict [] s = Inr s"
| "run_ops strict (op # ops) s =
     (case south_step strict op s of Inl e \<Rightarrow> Inl e | Inr s' \<Rightarrow> run_ops strict ops s')"

subsection \<open>The migrations\<close>

definition tagging_0001_forwards :: "schema_op list" where
  "tagging_0001_forwards =
     [CreateTable ''tagging_tag''
        [(''id'', fld AutoField False), (''title'', fld (CharField 32) False),
         (''description'', fld TextField True), (''site'', fld (ForeignKey ''sites.Site'') True)],
      SendCreateSignal,
      CreateUnique ''tagging_tag'' [''title'', ''site_id''],
      CreateTable ''tagging_contentobjecttag''
        [(''id'', fld AutoField False), (''content_type'', fld (ForeignKey ''contenttypes.ContentType'') False),
         (''object_pk'', fld PositiveIntegerField False), (''site'', fld (ForeignKey ''sites.Site'') False),
         (''tag'', fld (ForeignKey ''tagging.Tag'') False)],
      SendCreateSignal]"

definition tagging_0001_backwards :: "schema_op list" where
  "tagging_0001_backwards =
     [DeleteUnique ''tagging_tag'' [''title'', ''site_id''],
      DeleteTable ''tagging_tag'',
      DeleteTable ''tagging_contentobjecttag'']"

definition tagging_0002_forwards :: "schema_op list" where
  "tagging_0002_forwards =
     [AddColumn ''tagging_tag'' ''slug'' (fld_default (SlugField 255) (SqlStr [])) False,
      AlterColumn ''tagging_tag'' ''title'' (fld (CharField 255) False)]"

definition tagging_0002_backwards :: "schema_op list" where
  "tagging_0002_backwards =
     [DeleteColumn ''tagging_tag'' ''slug'',
      AlterColumn ''tagging_tag'' ''title'' (fld (CharField 32) False)]"

definition core_0002_forwards :: "schema_op list" where
  "core_0002_forwards =
     [CreateTable ''core_polymorphiccontentmodel''
        [(''id'', fld AutoField False),
         (''polymorphic_ctype'', fld (ForeignKey ''contenttypes.ContentType'') True),
         (''image'', fld (ImageField 100) False),
         (''date_taken'', fld DateTimeField True),
         (''view_count'', fld_default PositiveIntegerField (SqlInt 0)),
         (''crop_from'', fld_default (CharField 10) (SqlStr ''center'')),
         (''effect'', fld (ForeignKey ''photologue.PhotoEffect'') True),
         (''state'', fld_default PositiveSmallIntegerField (SqlInt 0)),
         (''publish_at'', fld DateTimeField True),
         (''retract_at'', fld DateTimeField True),
         (''title'', fld (CharField 255) False),
         (''slug'', fld (SlugField 255) False),
         (''created_at'', fld DateTimeField False),
         (''created_by'', fld (ForeignKey ''authentication.EndUser'') True),
         (''modified_at'', fld DateTimeField False),
         (''modified_by'', fld (ForeignKey ''authentication.EndUser'') True),
         (''image_name'', fld (CharField 512) True),
         (''plain_content'', fld TextField True),
         (''rich_content'', fld RichTextField True),
         (''order'', fld_default PositiveIntegerField (SqlInt 0))],
      SendCreateSignal,
      CreateTable ''core_polymorphiccontentmodel_sites''
        [(''id'', fld AutoField False),
         (''polymorphiccontentmodel'', fld (ForeignKey ''core.polymorphiccontentmodel'') False),
         (''site'', fld (ForeignKey ''sites.site'') False)],
      CreateUnique ''core_polymorphiccontentmodel_sites'' [''polymorphiccontentmodel_id'', ''site_id''],
      DeleteColumn ''core_contentmodel'' ''polymorphic_ctype_id'',
      AddColumn ''core_contentmodel'' ''leaf_content_type'' (fld (ForeignKey ''contenttypes.ContentType'') True) False]"

definition core_0002_backwards :: "schema_op list" where
  "core_0002_backwards =
     [DeleteTable ''core_polymorphiccontentmodel'',
      DeleteTable ''core_polymorphiccontentmodel_sites'',
      AddColumn ''core_contentmodel'' ''polymorphic_ctype'' (fld (ForeignKey ''contenttypes.ContentType'') True) False,
      DeleteColumn ''core_contentmodel'' ''leaf_content_type_id'']"

subsection \<open>Frozen models\<close>

text \<open>
  The \<open>models\<close> dictionary of a migration freezes the state of the app's models
  after it, which South compares with \<open>models.py\<close> to write the next migration.
  A frozen model is the list of its fields in the dictionary's order, keeping the field
  class, \<open>max_length\<close>, \<open>null\<close> and \<open>default\<close>; \<open>blank\<close>,
  \<open>db_index\<close>, \<open>related_name\<close> and \<open>auto_now_add\<close> do not change the
  columns of the model.  A many-to-many field has no column of its own.
\<close>

type_synonym frozen_model = "(string \<times> field) list"

fun is_m2m :: "field_kind \<Rightarrow> bool" where
  "is_m2m (ManyToManyField _) = True"
| "is_m2m _ = False"

definition frozen_columns :: "frozen_model \<Rightarrow> column list" where
  "frozen_columns fm =
     map (\<lambda>(n, f). \<lparr>col_name = db_column_name n f, col_field = f\<rparr>) (filter (\<lambda>(n, f). \<not> is_m2m (f_kind f)) fm)"

definition frozen_matches :: "frozen_model \<Rightarrow> table option \<Rightarrow> bool" where
  "frozen_matches fm t = (case t of None \<Rightarrow> False | Some t \<Rightarrow> mset (t_columns t) = mset (frozen_columns fm))"

definition tagging_0001_frozen_contentobjecttag :: frozen_model where
  "tagging_0001_frozen_contentobjecttag =
     [(''content_type'', fld (ForeignKey ''contenttypes.ContentType'') False),
      (''id'', fld AutoField False),
      (''object_pk'', fld PositiveIntegerField False),
      (''site'', fld (ForeignKey ''sites.Site'') False),
      (''tag'', fld (ForeignKey ''tagging.Tag'') False)]"

definition tagging_0001_frozen_tag :: frozen_model where
  "tagging_0001_frozen_tag =
     [(''description'', fld TextField True),
      (''id'', fld AutoField False),
      (''site'', fld (ForeignKey ''sites.Site'') True),
      (''title'', fld (CharField 32) False)]"

definition tagging_0002_frozen_contentobjecttag :: frozen_model where
  "tagging_0002_frozen_contentobjecttag =
     [(''content_type'', fld (ForeignKey ''contenttypes.ContentType'') False),
      (''id'', fld AutoField False),
      (''object_pk'', fld PositiveIntegerField False),
      (''site'', fld (ForeignKey ''sites.Site'') False),
      (''tag'', fld (ForeignKey ''tagging.Tag'') False)]"

definition tagging_0002_frozen_tag :: frozen_model where
  "tagging_0002_frozen_tag =
     [(''description'', fld TextField True),
      (''id'', fld AutoField False),
      (''site'', fld (ForeignKey ''sites.Site'') True),
      (''slug'', fld (SlugField 255) False),
      (''title'', fld (CharField 255) False)]"

definition core_0002_frozen_contentblock :: frozen_model where
  "core_0002_frozen_contentblock = [(''contentmodel_ptr'', fld (OneToOneField ''core.ContentModel'') False)]"

definition core_0002_frozen_contentmodel :: frozen_model where
  "core_0002_frozen_contentmodel =
     [(''created_at'', fld DateTimeField False),
      (''created_by'', fld (ForeignKey ''authentication.EndUser'') True),
      (''crop_from'', fld_default (CharField 10) (SqlStr ''center'')),
      (''date_taken'', fld DateTimeField True),
      (''effect'', fld (ForeignKey ''photologue.PhotoEffect'') True),
      (''id'', fld AutoField False),
      (''image'', fld (ImageField 100) False),
      (''image_name'', fld (CharField 512) True),
      (''leaf_content_type'', fld (ForeignKey ''contenttypes.ContentType'') True),
      (''modified_at'', fld DateTimeField False),
      (''modified_by'', fld (ForeignKey ''authentication.EndUser'') True),
      (''order'', fld_default PositiveIntegerField (SqlInt 0)),
      (''plain_content'', fld TextField True),
      (''publish_at'', fld DateTimeField True),
      (''retract_at'', fld DateTimeField True),
      (''rich_content'', fld RichTextField True),
      (''sites'', fld (ManyToManyField ''sites.Site'') True),
      (''slug'', fld (SlugField 255) False),
      (''state'', fld_default PositiveSmallIntegerField (SqlInt 0)),
      (''title'', fld (CharField 255) False),
      (''view_count'', fld_default PositiveIntegerField (SqlInt 0))]"

definition core_0002_frozen_polymorphiccontentmodel :: frozen_model where
  "core_0002_frozen_polymorphiccontentmodel =
     [(''created_at'', fld DateTimeField False),
      (''created_by'', fld (ForeignKey ''authentication.EndUser'') True),
      (''crop_from'', fld_default (CharField 10) (SqlStr ''center'')),
      (''date_taken'', fld DateTimeField True),
      (''effect'', fld (ForeignKey ''photologue.PhotoEffect'') True),
      (''id'', fld AutoField False),
      (''image'', fld (ImageField 100) False),
      (''image_name'', fld (CharField 512) True),
      (''modified_at'', fld DateTimeField False),
      (''modified_by'', fld (ForeignKey ''authentication.EndUser'') True),
      (''order'', fld_default PositiveIntegerField (SqlInt 0)),
      (''plain_content'', fld TextField True),
      (''polymorphic_ctype'', fld (ForeignKey ''contenttypes.ContentType'') True),
      (''publish_at'', fld DateTimeField True),
      (''retract_at'', fld DateTimeField True),
      (''rich_content'', fld RichTextField True),
      (''sites'', fld (ManyToManyField ''sites.Site'') True),
      (''slug'', fld (SlugField 255) False),
      (''state'', fld_default PositiveSmallIntegerField (SqlInt 0)),
      (''title'', fld (CharField 255) False),
      (''view_count'', fld_default PositiveIntegerField (SqlInt 0))]"

text \<open>The fields \<open>models.py\<close> declares for \<open>ContentBlock\<close>, with the parent link
  Django adds for multi-table inheritance from \<open>ContentModel\<close>.\<close>

definition content_block_declared :: frozen_model where
  "content_block_declared =
     [(''contentmodel_ptr'', fld (OneToOneField ''core.ContentModel'') False),
      (''alternative_title'', fld (CharField 255) False),
      (''content_block_parent'', fld (ForeignKey ''core.ContentBlockSet'') True)]"

subsection \<open>Example schemas\<close>

definition example_tag_table :: table where
  "example_tag_table =
     \<lparr>t_columns = [\<lparr>col_name = ''id'', col_field = fld AutoField False\<rparr>,
                   \<lparr>col_name = ''title'', col_field = fld (CharField 32) False\<rparr>,
                   \<lparr>col_name = ''description'', col_field = fld TextField True\<rparr>,
                   \<lparr>col_name = ''site_id'', col_field = fld (ForeignKey ''sites.Site'') True\<rparr>],
      t_rows = [[(''id'', SqlInt 1), (''title'', SqlStr ''news''), (''description'', SqlNull),
                 (''site_id'', SqlInt 1)]],
      t_uniques = [[''title'', ''site_id'']]\<rparr>"

definition example_long_tag_table :: table where
  "example_long_tag_table =
     \<lparr>t_columns = [\<lparr>col_name = ''id'', col_field = fld AutoField False\<rparr>,
                   \<lparr>col_name = ''title'', col_field = fld (CharField 255) False\<rparr>,
                   \<lparr>col_name = ''slug'', col_field = fld_default (SlugField 255) (SqlStr [])\<rparr>],
      t_rows = [[(''id'', SqlInt 1), (''title'', SqlStr (replicate 40 (CHR ''a''))), (''slug'', SqlStr [])]],
      t_uniques = []\<rparr>"

definition example_content_table :: table where
  "example_content_table =
     \<lparr>t_columns = [\<lparr>col_name = ''id'', col_field = fld AutoField False\<rparr>,
                   \<lparr>col_name = ''polymorphic_ctype_id'', col_field = fld (ForeignKey ''contenttypes.ContentType'') True\<rparr>,
                   \<lparr>col_name = ''title'', col_field = fld (CharField 255) False\<rparr>],
      t_rows = [[(''id'', SqlInt 1), (''polymorphic_ctype_id'', SqlInt 7), (''title'', SqlStr ''Home'')]],
      t_uniques = []\<rparr>"

text \<open>A content table as it was before \<open>core 0002\<close>: the frozen \<open>ContentModel\<close>
  with \<open>polymorphic_ctype\<close> in place of \<open>leaf_content_type\<close>.\<close>

definition example_old_content_table :: table where
  "example_old_content_table =
     \<lparr>t_columns = filter (\<lambda>k. col_name k \<noteq> ''leaf_content_type_id'') (frozen_columns core_0002_frozen_contentmodel) @
                  [\<lparr>col_name = ''polymorphic_ctype_id'', col_field = fld (ForeignKey ''contenttypes.ContentType'') True\<rparr>],
      t_rows = [], t_uniques = []\<rparr>"

definition example_old_content_schema :: schema where
  "example_old_content_schema = [''core_contentmodel'' \<mapsto> example_old_content_table]"

definition example_tag_schema :: schema where
  "example_tag_schema = [''tagging_tag'' \<mapsto> example_tag_table]"

definition example_long_tag_schema :: schema where
  "example_long_tag_schema = [''tagging_tag'' \<mapsto> example_long_tag_table]"

definition example_content_schema :: schema where
  "example_content_schema = [''core_contentmodel'' \<mapsto> example_content_table]"

definition table_wf :: "table \<Rightarrow> bool" where
  "table_wf t \<longleftrightarrow> distinct (col_names t) \<and> list_all (\<lambda>r. map fst r = col_names t) (t_rows t)"

definition schema_wf :: "schema \<Rightarrow> bool" where
  "schema_wf s \<longleftrightarrow> (\<forall>t\<in>ran s. table_wf t)"

subsection \<open>Rows, columns and tables\<close>

lemma fld_simps [simp]:
  "f_kind (fld k b) = k" "f_null (fld k b) = b" "f_default (fld k b) = None"
  "f_kind (fld_default k v) = k" "f_null (fld_default k v) = False" "f_default (fld_default k v) = Some v"
  by (simp_all add: fld_def fld_default_def)

lemma run_ops_append:
  "run_ops strict (xs @ ys) s =
     (case run_ops strict xs s of Inl e \<Rightarrow> Inl e | Inr s' \<Rightarrow> run_ops strict ys s')"
  by (induction xs arbitrary: s) (auto split: sum.split)

lemma row_value_snoc [simp]: "k \<noteq> c \<Longrightarrow> row_value (r @ [(c, v)]) k = row_value r k"
  by (simp add: row_value_def map_of_append map_add_def split: option.split)

lemma row_value_snoc_new: "c \<notin> set (map fst r) \<Longrightarrow> row_value (r @ [(c, v)]) c = v"
proof -
  assume "c \<notin> set (map fst r)"
  then have "map_of r c = None" by (simp add: map_of_eq_None_iff)
  then show ?thesis by (simp add: row_value_def map_of_append map_add_def)
qed

lemma row_value_filter [simp]: "k \<noteq> c \<Longrightarrow> row_value (filter (\<lambda>(k', v). k' \<noteq> c) r) k = row_value r k"
  by (induction r) (auto simp: row_value_def)

lemma map_fst_filter_key: "map fst (filter (\<lambda>(k, v). k \<noteq> c) r) = filter (\<lambda>k. k \<noteq> c) (map fst r)"
  by (induction r) auto

lemma filter_key_absent: "c \<notin> set (map fst r) \<Longrightarrow> filter (\<lambda>(k, v). k \<noteq> c) r = r"
  by (induction r) auto

lemma col_name_mem: "\<lparr>col_name = c, col_field = f\<rparr> \<in> set cs \<Longrightarrow> c \<in> col_name ` set cs"
  by force

lemma alter_absent:
  "c \<notin> set (map col_name cs) \<Longrightarrow> map (\<lambda>k. if col_name k = c then k\<lparr>col_field := f\<rparr> else k) cs = cs"
  by (induction cs) auto

lemma col_names_tbl_add [simp]: "col_names (tbl_add_column c f v t) = col_names t @ [c]"
  by (simp add: tbl_add_column_def col_names_def)

lemma col_names_tbl_delete [simp]: "col_names (tbl_delete_column c t) = filter (\<lambda>k. k \<noteq> c) (col_names t)"
  by (simp add: tbl_delete_column_def col_names_def filter_map comp_def)

lemma col_names_tbl_alter [simp]: "col_names (tbl_alter_column c f t) = col_names t"
proof -
  have "map col_name (map (\<lambda>k. if col_name k = c then k\<lparr>col_field := f\<rparr> else k) cs) = map col_name cs" for cs
    by (induction cs) auto
  then show ?thesis by (simp add: tbl_alter_column_def col_names_def del: map_map)
qed

lemma columns_tbl_add [simp]: "t_columns (tbl_add_column c f v t) = t_columns t @ [\<lparr>col_name = c, col_field = f\<rparr>]"
  by (simp add: tbl_add_column_def)

lemma columns_tbl_delete [simp]: "t_columns (tbl_delete_column c t) = filter (\<lambda>k. col_name k \<noteq> c) (t_columns t)"
  by (simp add: tbl_delete_column_def)

lemma rows_tbl_alter [simp]: "t_rows (tbl_alter_column c f t) = t_rows t"
  by (simp add: tbl_alter_column_def)

lemma rows_tbl_add [simp]: "t_rows (tbl_add_column c f v t) = map (\<lambda>r. r @ [(c, v)]) (t_rows t)"
  by (simp add: tbl_add_column_def)

lemma rows_tbl_delete [simp]: "t_rows (tbl_delete_column c t) = map (filter (\<lambda>(k, v). k \<noteq> c)) (t_rows t)"
  by (simp add: tbl_delete_column_def)

text \<open>Deleting a column just added restores a well-formed table.\<close>

lemma tbl_delete_add:
  assumes "table_wf t" and "c \<notin> set (col_names t)"
  shows "tbl_delete_column c (tbl_add_column c f v t) = t"
proof -
  have "filter (\<lambda>k. col_name k \<noteq> c) (t_columns t) = t_columns t"
    using assms(2) by (auto simp: col_names_def intro: filter_True)
  moreover have "map (filter (\<lambda>(k, v). k \<noteq> c) \<circ> (\<lambda>r. r @ [(c, x)])) (t_rows t) = t_rows t" for x
    using assms by (auto simp: table_wf_def list_all_iff intro!: map_idI filter_key_absent)
  ultimately show ?thesis
    by (simp add: tbl_delete_column_def tbl_add_column_def)
qed

lemma tbl_delete_alter:
  "c' \<noteq> c \<Longrightarrow> tbl_delete_column c' (tbl_alter_column c f t) = tbl_alter_column c f (tbl_delete_column c' t)"
proof -
  assume "c' \<noteq> c"
  then have eq: "filter (\<lambda>k. col_name k \<noteq> c') (map (\<lambda>k. if col_name k = c then k\<lparr>col_field := f\<rparr> else k) cs) =
             map (\<lambda>k. if col_name k = c then k\<lparr>col_field := f\<rparr> else k) (filter (\<lambda>k. col_name k \<noteq> c') cs)" for cs
    by (induction cs) auto
  show ?thesis by (simp add: tbl_delete_column_def tbl_alter_column_def eq del: map_map)
qed

lemma tbl_alter_alter [simp]: "tbl_alter_column c f (tbl_alter_column c g t) = tbl_alter_column c f t"
proof -
  have eq: "map (\<lambda>k. if col_name k = c then k\<lparr>col_field := f\<rparr> else k)
          (map (\<lambda>k. if col_name k = c then k\<lparr>col_field := g\<rparr> else k) cs) =
        map (\<lambda>k. if col_name k = c then k\<lparr>col_field := f\<rparr> else k) cs" for cs
    by (induction cs) auto
  show ?thesis by (simp add: tbl_alter_column_def eq del: map_map)
qed

lemma tbl_alter_same:
  assumes "table_wf t" and "\<lparr>col_name = c, col_field = f\<rparr> \<in> set (t_columns t)"
  shows "tbl_alter_column c f t = t"
proof -
  have "distinct (map col_name cs) \<Longrightarrow> \<lparr>col_name = c, col_field = f\<rparr> \<in> set cs \<Longrightarrow>
        map (\<lambda>k. if col_name k = c then k\<lparr>col_field := f\<rparr> else k) cs = cs" for cs
    by (induction cs) (auto simp: alter_absent dest: col_name_mem)
  then show ?thesis
    using assms by (simp add: tbl_alter_column_def table_wf_def col_names_def)
qed

lemma col_names_create:
  "map col_name (map (\<lambda>(n, f). \<lparr>col_name = db_column_name n f, col_field = f\<rparr>) fs) =
   map (\<lambda>(n, f). db_column_name n f) fs"
  by (induction fs) auto

subsection \<open>Well-formed schemas\<close>

lemma schema_wf_upd: "schema_wf s \<Longrightarrow> table_wf t \<Longrightarrow> schema_wf (s(n \<mapsto> t))"
  by (auto simp: schema_wf_def ran_def)

lemma schema_wf_del: "schema_wf s \<Longrightarrow> schema_wf (s(n := None))"
  by (auto simp: schema_wf_def ran_def)

lemma schema_wf_get: "schema_wf s \<Longrightarrow> s n = Some t \<Longrightarrow> table_wf t"
  by (auto simp: schema_wf_def ran_def)

lemma table_wf_create:
  "distinct (map (\<lambda>(n, f). db_column_name n f) fs) \<Longrightarrow>
   table_wf \<lparr>t_columns = map (\<lambda>(n, f). \<lparr>col_name = db_column_name n f, col_field = f\<rparr>) fs,
             t_rows = [], t_uniques = []\<rparr>"
  unfolding table_wf_def col_names_def by (simp only: table.simps col_names_create) simp

lemma table_wf_add: "table_wf t \<Longrightarrow> c \<notin> set (col_names t) \<Longrightarrow> table_wf (tbl_add_column c f v t)"
  by (auto simp: table_wf_def list_all_iff)

lemma table_wf_delete: "table_wf t \<Longrightarrow> table_wf (tbl_delete_column c t)"
  by (auto simp: table_wf_def list_all_iff map_fst_filter_key distinct_filter)

lemma table_wf_alter: "table_wf t \<Longrightarrow> table_wf (tbl_alter_column c f t)"
  by (simp add: table_wf_def)

lemma table_wf_unique: "table_wf t \<Longrightarrow> table_wf (t\<lparr>t_uniques := u\<rparr>)"
  by (simp add: table_wf_def col_names_def)

lemma south_step_wf:
  assumes "schema_wf s" and "south_step strict op s = Inr s'"
  shows "schema_wf s'"
  using assms
  by (cases op)
     (auto simp: south_step_def
           intro!: schema_wf_upd schema_wf_del table_wf_create table_wf_add table_wf_delete
                   table_wf_alter table_wf_unique
           dest: schema_wf_get split: option.splits if_splits)

lemma too_long_char_mono: "too_long (CharField n) v \<Longrightarrow> m \<le> n \<Longrightarrow> too_long (CharField m) v"
  by (cases v) auto

subsection \<open>The tagging migrations\<close>

text \<open>
  C16. Migration \<open>tagging 0002\<close> is reversible: on a well-formed \<open>tagging_tag\<close> table
  as \<open>0001\<close> leaves it, whose titles fit 32 characters, running \<open>forwards\<close> then
  \<open>backwards\<close> succeeds on every backend and gives back the same schema.\<close>

theorem tagging_0002_reversible:
  assumes s: "s ''tagging_tag'' = Some t" and wf: "table_wf t"
    and slug: "''slug'' \<notin> set (col_names t)"
    and title: "\<lparr>col_name = ''title'', col_field = fld (CharField 32) False\<rparr> \<in> set (t_columns t)"
    and short: "list_all (\<lambda>r. \<not> too_long (CharField 32) (row_value r ''title'')) (t_rows t)"
  shows "run_ops strict (tagging_0002_forwards @ tagging_0002_backwards) s = Inr s"
proof -
  have short255: "list_all (\<lambda>r. \<not> too_long (CharField 255) (row_value r ''title'')) (t_rows t)"
    using short by (auto simp: list_all_iff dest: too_long_char_mono [where m = 32])
  have title_in: "''title'' \<in> set (col_names t)"
    using title by (force simp: col_names_def)
  have restore: "tbl_delete_column ''slug'' (tbl_add_column ''slug'' f v t) = t" for f v
    using wf slug by (rule tbl_delete_add)
  have same: "tbl_alter_column ''title'' (fld (CharField 32) False) t = t"
    using wf title by (rule tbl_alter_same)
  show ?thesis
    using s slug short short255 title_in
    by (simp add: tagging_0002_forwards_def tagging_0002_backwards_def south_step_def
                  db_column_name_def list_ex_iff list_all_iff tbl_delete_alter restore same fun_upd_idem)
qed

text \<open>
  C18. Reverting \<open>tagging 0002\<close> once a tag title is longer than 32 characters
  fails with a \<open>DataError\<close> on a backend that enforces column lengths, while a backend
  that does not (SQLite) completes it and keeps the long title in a 32-character column.\<close>

theorem tagging_0002_backwards_long_title:
  assumes "s ''tagging_tag'' = Some t"
    and "''slug'' \<in> set (col_names t)" and "''title'' \<in> set (col_names t)"
    and "list_ex (\<lambda>r. too_long (CharField 32) (row_value r ''title'')) (t_rows t)"
  shows "run_ops True tagging_0002_backwards s = Inl DataError \<and>
         (\<exists>s'. run_ops False tagging_0002_backwards s = Inr s')"
  using assms
  by (simp add: tagging_0002_backwards_def south_step_def db_column_name_def list_ex_iff)

subsection \<open>The core migration\<close>

text \<open>The run of \<open>core 0002\<close> on a schema with the old content table.\<close>

lemma core_0002_forwards_rows:
  assumes "s ''core_polymorphiccontentmodel'' = None" and "s ''core_polymorphiccontentmodel_sites'' = None"
    and "s ''core_contentmodel'' = Some t"
    and "''polymorphic_ctype_id'' \<in> set (col_names t)"
    and "''leaf_content_type_id'' \<notin> set (col_names t)"
  shows "\<exists>s' t'. run_ops strict core_0002_forwards s = Inr s' \<and> s' ''core_contentmodel'' = Some t' \<and>
           t_rows t' = map (\<lambda>r. filter (\<lambda>(k, v). k \<noteq> ''polymorphic_ctype_id'') r @
                                   [(''leaf_content_type_id'', SqlNull)]) (t_rows t)"
  using assms
  by (simp add: core_0002_forwards_def south_step_def db_column_name_def has_duplicates_def)

text \<open>
  Migration \<open>core 0002\<close> succeeds on a schema with the old \<open>core_contentmodel\<close>
  table, drops every row's \<open>polymorphic_ctype_id\<close> and gives every existing row a
  \<open>NULL\<close> \<open>leaf_content_type_id\<close>.\<close>

theorem core_0002_leaf_null:
  assumes "s ''core_polymorphiccontentmodel'' = None" and "s ''core_polymorphiccontentmodel_sites'' = None"
    and "s ''core_contentmodel'' = Some t"
    and "''polymorphic_ctype_id'' \<in> set (col_names t)"
    and "''leaf_content_type_id'' \<notin> set (col_names t)"
  shows "\<exists>s' t'. run_ops strict core_0002_forwards s = Inr s' \<and> s' ''core_contentmodel'' = Some t' \<and>
           t_rows t' = map (\<lambda>r. filter (\<lambda>(k, v). k \<noteq> ''polymorphic_ctype_id'') r @
                                   [(''leaf_content_type_id'', SqlNull)]) (t_rows t)"
  using core_0002_forwards_rows [OF assms] .

text \<open>
  Every sequence of South operations that succeeds keeps every table of the
  schema well formed: distinct column names, and every row holding exactly the
  table's columns, in order.\<close>

theorem run_ops_preserves_wf:
  assumes "schema_wf s"
  shows "case_sum (\<lambda>e. True) schema_wf (run_ops strict ops s)"
  using assms
proof (induction ops arbitrary: s)
  case (Cons op ops)
  show ?case
  proof (cases "south_step strict op s")
    case (Inr s1)
    then have "schema_wf s1" using south_step_wf Cons.prems by blast
    then show ?thesis using Cons.IH [of s1] Inr by simp
  qed simp
qed simp

text \<open>
  Migration \<open>tagging 0001\<close> followed by its \<open>backwards\<close> on a schema without
  the tagging tables succeeds and gives back the schema.\<close>

theorem tagging_0001_roundtrip:
  assumes "s ''tagging_tag'' = None" and "s ''tagging_contentobjecttag'' = None"
  shows "run_ops strict (tagging_0001_forwards @ tagging_0001_backwards) s = Inr s"
  using assms
  by (simp add: tagging_0001_forwards_def tagging_0001_backwards_def south_step_def
                db_column_name_def has_duplicates_def fun_upd_twist fun_upd_idem)

subsection \<open>Migrations against their frozen models\<close>

lemma mset_filter_split:
  "mset xs = mset (filter (\<lambda>x. \<not> P x) xs) + mset (filter P xs)"
  by (induction xs) auto

text \<open>
  Run from an empty schema, \<open>tagging 0001\<close> creates exactly the two tables its
  frozen models describe, and \<open>tagging 0002\<close> then turns them into exactly the tables
  of its own frozen models, on every backend.
\<close>

theorem tagging_migrations_match_frozen:
  "\<exists>s1 s2. run_ops strict tagging_0001_forwards Map.empty = Inr s1 \<and>
     frozen_matches tagging_0001_frozen_tag (s1 ''tagging_tag'') \<and>
     frozen_matches tagging_0001_frozen_contentobjecttag (s1 ''tagging_contentobjecttag'') \<and>
     run_ops strict tagging_0002_forwards s1 = Inr s2 \<and>
     frozen_matches tagging_0002_frozen_tag (s2 ''tagging_tag'') \<and>
     frozen_matches tagging_0002_frozen_contentobjecttag (s2 ''tagging_contentobjecttag'')"
  by (simp add: tagging_0001_forwards_def tagging_0002_forwards_def south_step_def db_column_name_def
                has_duplicates_def col_names_def tbl_add_column_def tbl_alter_column_def frozen_matches_def
                frozen_columns_def tagging_0001_frozen_tag_def tagging_0001_frozen_contentobjecttag_def
                tagging_0002_frozen_tag_def tagging_0002_frozen_contentobjecttag_def fld_def fld_default_def)

text \<open>
  C19. On a content table that, apart from \<open>polymorphic_ctype_id\<close>, has the columns of
  the frozen \<open>ContentModel\<close> other than \<open>leaf_content_type_id\<close>, migration
  \<open>core 0002\<close> succeeds and leaves exactly the tables its frozen \<open>ContentModel\<close>
  and \<open>PolymorphicContentModel\<close> describe.
\<close>

theorem core_0002_matches_frozen:
  assumes "s ''core_polymorphiccontentmodel'' = None" and "s ''core_polymorphiccontentmodel_sites'' = None"
    and "s ''core_contentmodel'' = Some t"
    and "''polymorphic_ctype_id'' \<in> set (col_names t)"
    and "''leaf_content_type_id'' \<notin> set (col_names t)"
    and "mset (filter (\<lambda>k. col_name k \<noteq> ''polymorphic_ctype_id'') (t_columns t)) =
         mset (filter (\<lambda>k. col_name k \<noteq> ''leaf_content_type_id'') (frozen_columns core_0002_frozen_contentmodel))"
  shows "\<exists>s'. run_ops strict core_0002_forwards s = Inr s' \<and>
           frozen_matches core_0002_frozen_contentmodel (s' ''core_contentmodel'') \<and>
           frozen_matches core_0002_frozen_polymorphiccontentmodel (s' ''core_polymorphiccontentmodel'')"
proof -
  let ?leaf = "\<lambda>k. col_name k = ''leaf_content_type_id''"
  have leaf: "filter ?leaf (frozen_columns core_0002_frozen_contentmodel) =
      [\<lparr>col_name = ''leaf_content_type_id'', col_field = fld (ForeignKey ''contenttypes.ContentType'') True\<rparr>]"
    by (simp add: frozen_columns_def core_0002_frozen_contentmodel_def db_column_name_def)
  have cm: "mset (frozen_columns core_0002_frozen_contentmodel) =
      mset (filter (\<lambda>k. col_name k \<noteq> ''polymorphic_ctype_id'') (t_columns t)) +
      {#\<lparr>col_name = ''leaf_content_type_id'', col_field = fld (ForeignKey ''contenttypes.ContentType'') True\<rparr>#}"
    using mset_filter_split [where P = ?leaf and xs = "frozen_columns core_0002_frozen_contentmodel"] leaf assms(6)
    by simp
  show ?thesis
    using assms(1-5) cm
    by (simp add: core_0002_forwards_def south_step_def db_column_name_def has_duplicates_def
                  frozen_matches_def
                  frozen_columns_def core_0002_frozen_polymorphiccontentmodel_def fld_def fld_default_def)
qed

text \<open>The frozen \<open>ContentBlock\<close> of \<open>core 0002\<close> has only its parent link: the two
  columns \<open>models.py\<close> declares for it are missing from the migrations' state.\<close>

lemma core_0002_frozen_contentblock_stale:
  "filter (\<lambda>c. c \<notin> set (map col_name (frozen_columns core_0002_frozen_contentblock)))
          (map col_name (frozen_columns content_block_declared)) =
   [''alternative_title'', ''content_block_parent_id'']"
  by (simp add: frozen_columns_def core_0002_frozen_contentblock_def content_block_declared_def
                db_column_name_def)

subsection \<open>Witnesses\<close>

theorem run_ops_preserves_wf_witness:
  "schema_wf Map.empty \<and> case_sum (\<lambda>e. True) schema_wf (run_ops True tagging_0001_forwards Map.empty) \<and>
   (\<exists>s'. run_ops True tagging_0001_forwards Map.empty = Inr s')"
proof -
  have wf: "schema_wf Map.empty" by (simp add: schema_wf_def)
  show ?thesis
    using run_ops_preserves_wf [OF wf, of True tagging_0001_forwards] wf
    by (simp add: tagging_0001_forwards_def south_step_def db_column_name_def has_duplicates_def)
qed

theorem tagging_0001_roundtrip_witness:
  "example_content_schema ''tagging_tag'' = None \<and>
   example_content_schema ''tagging_contentobjecttag'' = None \<and>
   run_ops True (tagging_0001_forwards @ tagging_0001_backwards) example_content_schema =
   Inr example_content_schema"
  using tagging_0001_roundtrip [of example_content_schema] by (simp add: example_content_schema_def)

theorem tagging_0002_reversible_witness:
  "example_tag_schema ''tagging_tag'' = Some example_tag_table \<and>
   table_wf example_tag_table \<and> ''slug'' \<notin> set (col_names example_tag_table) \<and>
   \<lparr>col_name = ''title'', col_field = fld (CharField 32) False\<rparr> \<in> set (t_columns example_tag_table) \<and>
   list_all (\<lambda>r. \<not> too_long (CharField 32) (row_value r ''title'')) (t_rows example_tag_table) \<and>
   run_ops True (tagging_0002_forwards @ tagging_0002_backwards) example_tag_schema =
   Inr example_tag_schema"
proof -
  have h: "table_wf example_tag_table" "''slug'' \<notin> set (col_names example_tag_table)"
    "\<lparr>col_name = ''title'', col_field = fld (CharField 32) False\<rparr> \<in> set (t_columns example_tag_table)"
    "list_all (\<lambda>r. \<not> too_long (CharField 32) (row_value r ''title'')) (t_rows example_tag_table)"
    by (simp_all add: example_tag_table_def table_wf_def col_names_def row_value_def)
  show ?thesis
    using tagging_0002_reversible [of example_tag_schema example_tag_table True] h
    by (simp add: example_tag_schema_def)
qed

theorem tagging_0002_backwards_long_title_witness:
  "example_long_tag_schema ''tagging_tag'' = Some example_long_tag_table \<and>
   ''slug'' \<in> set (col_names example_long_tag_table) \<and> ''title'' \<in> set (col_names example_long_tag_table) \<and>
   list_ex (\<lambda>r. too_long (CharField 32) (row_value r ''title'')) (t_rows example_long_tag_table) \<and>
   run_ops True tagging_0002_backwards example_long_tag_schema = Inl DataError \<and>
   (\<exists>s'. run_ops False tagging_0002_backwards example_long_tag_schema = Inr s')"
proof -
  have h: "''slug'' \<in> set (col_names example_long_tag_table)" "''title'' \<in> set (col_names example_long_tag_table)"
    "list_ex (\<lambda>r. too_long (CharField 32) (row_value r ''title'')) (t_rows example_long_tag_table)"
    by (simp_all add: example_long_tag_table_def col_names_def row_value_def)
  show ?thesis
    using tagging_0002_backwards_long_title [of example_long_tag_schema
                                                example_long_tag_table] h
    by (simp add: example_long_tag_schema_def)
qed

theorem core_0002_leaf_null_witness:
  "example_content_schema ''core_polymorphiccontentmodel'' = None \<and>
   example_content_schema ''core_polymorphiccontentmodel_sites'' = None \<and>
   example_content_schema ''core_contentmodel'' = Some example_content_table \<and>
   ''polymorphic_ctype_id'' \<in> set (col_names example_content_table) \<and>
   ''leaf_content_type_id'' \<notin> set (col_names example_content_table) \<and>
   (\<exists>s' t'. run_ops True core_0002_forwards example_content_schema = Inr s' \<and>
       s' ''core_contentmodel'' = Some t' \<and>
       t_rows t' = [[(''id'', SqlInt 1), (''title'', SqlStr ''Home''), (''leaf_content_type_id'', SqlNull)]])"
proof -
  have h: "''polymorphic_ctype_id'' \<in> set (col_names example_content_table)"
    "''leaf_content_type_id'' \<notin> set (col_names example_content_table)"
    by (simp_all add: example_content_table_def col_names_def)
  show ?thesis
    using core_0002_leaf_null [of example_content_schema
                                  example_content_table True] h
    by (simp add: example_content_schema_def example_content_table_def)
qed

theorem core_0002_matches_frozen_witness:
  "example_old_content_schema ''core_polymorphiccontentmodel'' = None \<and>
   example_old_content_schema ''core_polymorphiccontentmodel_sites'' = None \<and>
   example_old_content_schema ''core_contentmodel'' = Some example_old_content_table \<and>
   ''polymorphic_ctype_id'' \<in> set (col_names example_old_content_table) \<and>
   ''leaf_content_type_id'' \<notin> set (col_names example_old_content_table) \<and>
   mset (filter (\<lambda>k. col_name k \<noteq> ''polymorphic_ctype_id'') (t_columns example_old_content_table)) =
   mset (filter (\<lambda>k. col_name k \<noteq> ''leaf_content_type_id'') (frozen_columns core_0002_frozen_contentmodel)) \<and>
   (\<exists>s'. run_ops True core_0002_forwards example_old_content_schema = Inr s' \<and>
       frozen_matches core_0002_frozen_contentmodel (s' ''core_contentmodel'') \<and>
       frozen_matches core_0002_frozen_polymorphiccontentmodel (s' ''core_polymorphiccontentmodel''))"
proof -
  have h: "''polymorphic_ctype_id'' \<in> set (col_names example_old_content_table)"
    "''leaf_content_type_id'' \<notin> set (col_names example_old_content_table)"
    "mset (filter (\<lambda>k. col_name k \<noteq> ''polymorphic_ctype_id'') (t_columns example_old_content_table)) =
     mset (filter (\<lambda>k. col_name k \<noteq> ''leaf_content_type_id'') (frozen_columns core_0002_frozen_contentmodel))"
    by (simp_all add: example_old_content_table_def col_names_def frozen_columns_def
                      core_0002_frozen_contentmodel_def db_column_name_def)
  show ?thesis
    using core_0002_matches_frozen [of example_old_content_schema example_old_content_table True] h
    by (simp add: example_old_content_schema_def)
qed

end
