(* ===== verification/Admin.thy ===== *)
theory Admin
  imports Tagging
begin

text \<open>
  The admin configuration of the three applications (\<open>core/admin.py\<close>,
  \<open>tagging/admin.py\<close>, \<open>mailer/admin.py\<close>): each \<open>ModelAdmin\<close> subclass as a
  record of its \<open>list_display\<close>, \<open>list_filter\<close> and \<open>search_fields\<close>, the
  registrations of \<open>admin.site.register\<close>, and \<open>SiteListAdminMixin.site_list\<close>.
  What the configuration does is Django 1.6's changelist search
  (\<open>ModelAdmin.get_search_results\<close>): \<open>construct_search\<close> turns each search field
  into a lookup (\<open>^\<close> \<open>istartswith\<close>, \<open>=\<close> \<open>iexact\<close>, \<open>@\<close> \<open>search\<close>,
  otherwise \<open>icontains\<close>; the full-text \<open>search\<close> of MySQL, which no search
  field of the repository uses, matches nothing here); for each word of the search term (\<open>str.split()\<close>) the
  query set is filtered by the disjunction of the lookups, and building a filter
  resolves each lookup against the model's fields: an unknown field is a
  \<open>FieldError\<close>, a lookup on a foreign key other than \<open>exact\<close>, \<open>in\<close>,
  \<open>isnull\<close> and the comparisons a \<open>TypeError\<close> (\<open>Related Field got invalid
  lookup\<close>).  Objects are rows of field values, a foreign key's value the related row.
\<close>

subsection \<open>Admin classes\<close>

record model_admin =
  list_display :: "string list"
  list_filter :: "string list"
  search_fields :: "string list"

definition default_admin :: model_admin where
  "default_admin = \<lparr>list_display = [''__str__''], list_filter = [], search_fields = []\<rparr>"

definition content_model_admin :: model_admin where
  "content_model_admin =
     \<lparr>list_display = [''title'', ''state'', ''slug'', ''created_at'', ''publish_at'', ''site_list''],
      list_filter = [''title'', ''state'', ''created_at'', ''publish_at''],
      search_fields = [''title'']\<rparr>"

definition banner_set_admin :: model_admin where
  "banner_set_admin = default_admin\<lparr>list_display := [''slug'', ''site_list'']\<rparr>"

definition gallery_admin :: model_admin where
  "gallery_admin = default_admin\<lparr>list_display := [''slug'', ''site_list'']\<rparr>"

definition version_admin :: model_admin where
  "version_admin = default_admin\<lparr>list_display := [''content_type'', ''object_id'', ''series'', ''number'', ''state'']\<rparr>"

definition tag_admin :: model_admin where
  "tag_admin =
     \<lparr>list_display = [''title'', ''description'', ''site''],
      list_filter = [''title'', ''site''],
      search_fields = [''title'', ''site'']\<rparr>"

definition outbound_email_admin :: model_admin where
  "outbound_email_admin =
     \<lparr>list_display = [''user'', ''to_addresses'', ''bcc_addresses'', ''sent_timestamp'', ''subject'', ''site''],
      list_filter = [''user'', ''to_addresses'', ''bcc_addresses'', ''sent_timestamp'', ''subject'', ''site''],
      search_fields = [''user__email'', ''to_addresses'', ''bcc_addresses'', ''subject'', ''site'']\<rparr>"

text \<open>\<open>admin.site.register(model, admin_class)\<close> of the three applications, in order.\<close>

definition core_registry :: "(string \<times> model_admin) list" where
  "core_registry =
     [(''ContentModel'', content_model_admin), (''ContentBlock'', content_model_admin),
      (''DefaultImage'', default_admin), (''ImageBanner'', default_admin), (''HTMLBanner'', default_admin),
      (''ImageBannerSet'', banner_set_admin), (''HTMLBannerSet'', banner_set_admin),
      (''ContentBlockSet'', banner_set_admin), (''GalleryImage'', default_admin),
      (''Gallery'', gallery_admin), (''VersionSeries'', default_admin), (''Version'', version_admin)]"

definition tagging_registry :: "(string \<times> model_admin) list" where
  "tagging_registry = [(''Tag'', tag_admin), (''ContentObjectTag'', default_admin)]"

definition mailer_registry :: "(string \<times> model_admin) list" where
  "mailer_registry = [(''OutboundEmail'', outbound_email_admin)]"

text \<open>\<open>', '.join(site.domain for site in model.sites.all())\<close>, the sites in the
  order the query set returns them.\<close>

fun py_join_str :: "string \<Rightarrow> string list \<Rightarrow> string" where
  "py_join_str sep [] = []"
| "py_join_str sep [w] = w"
| "py_join_str sep (w # ws) = w @ sep @ py_join_str sep ws"

definition site_list :: "string list \<Rightarrow> string" where
  "site_list domains = py_join_str '', '' domains"

subsection \<open>Model fields read by a search\<close>

datatype adm_field = TextLike | Related string

datatype adm_value = AStr string | ANull | ARef "(string \<times> adm_value) list"

type_synonym adm_row = "(string \<times> adm_value) list"

text \<open>The text and relation fields of the models the admin pages search
  (\<open>SlugModel\<close> and \<open>Tag\<close>, \<open>OutboundEmail\<close>, \<open>ContentModel\<close>); the fields of
  \<open>Site\<close> and of the user model come from Django and from the project's user
  application.\<close>

definition slug_model_meta :: "(string \<times> adm_field) list" where
  "slug_model_meta = [(''title'', TextLike), (''slug'', TextLike)]"

definition tag_meta :: "(string \<times> adm_field) list" where
  "tag_meta = slug_model_meta @ [(''description'', TextLike), (''site'', Related ''Site'')]"

definition outbound_email_meta :: "(string \<times> adm_field) list" where
  "outbound_email_meta =
     [(''user'', Related ''User''), (''to_addresses'', TextLike), (''bcc_addresses'', TextLike),
      (''subject'', TextLike), (''message'', TextLike), (''site'', Related ''Site'')]"

definition audit_model_meta :: "(string \<times> adm_field) list" where
  "audit_model_meta = [(''created_by'', Related ''User''), (''modified_by'', Related ''User'')]"

definition image_model_meta :: "(string \<times> adm_field) list" where
  "image_model_meta = [(''image_name'', TextLike)]"

definition seo_model_meta :: "(string \<times> adm_field) list" where
  "seo_model_meta = [(''meta_description'', TextLike), (''meta_keywords'', TextLike)]"

text \<open>\<open>BaseContentModel(ImageModel, StateModel, SlugModel, AuditModel, SEOModel)\<close>
  and \<open>ContentModel\<close>; \<open>StateModel\<close> has no text or relation field.\<close>

definition base_content_meta :: "(string \<times> adm_field) list" where
  "base_content_meta =
     image_model_meta @ slug_model_meta @ audit_model_meta @ seo_model_meta @
     [(''plain_content'', TextLike), (''rich_content'', TextLike), (''sites'', Related ''Site'')]"

definition content_model_meta :: "(string \<times> adm_field) list" where
  "content_model_meta = base_content_meta @ [(''leaf_content_type'', Related ''ContentType'')]"

definition admin_meta :: "string \<Rightarrow> (string \<times> adm_field) list" where
  "admin_meta m =
     (if m = ''Tag'' then tag_meta
      else if m = ''OutboundEmail'' then outbound_email_meta
      else if m = ''ContentModel'' then content_model_meta
      else if m = ''Site'' then [(''domain'', TextLike), (''name'', TextLike)]
      else if m = ''User'' then [(''email'', TextLike), (''username'', TextLike)]
      else [])"

subsection \<open>Django's changelist search\<close>

text \<open>\<open>str.split()\<close>: the maximal runs of non-whitespace characters.\<close>

fun words_acc :: "string \<Rightarrow> string \<Rightarrow> string list" where
  "words_acc acc [] = (if acc = [] then [] else [rev acc])"
| "words_acc acc (c # cs) =
     (if is_py_space c then (if acc = [] then words_acc [] cs else rev acc # words_acc [] cs)
      else words_acc (c # acc) cs)"

definition py_words :: "string \<Rightarrow> string list" where
  "py_words s = words_acc [] s"

text \<open>\<open>field_name.split(LOOKUP_SEP)\<close> with \<open>LOOKUP_SEP = '__'\<close>.\<close>

fun lookup_parts_acc :: "string \<Rightarrow> string \<Rightarrow> string list" where
  "lookup_parts_acc acc [] = [rev acc]"
| "lookup_parts_acc acc (CHR ''_'' # CHR ''_'' # cs) = rev acc # lookup_parts_acc [] cs"
| "lookup_parts_acc acc (c # cs) = lookup_parts_acc (c # acc) cs"

definition construct_search :: "string \<Rightarrow> string \<times> string list" where
  "construct_search f =
     (case f of
        CHR ''^'' # g \<Rightarrow> (''istartswith'', lookup_parts_acc [] g)
      | CHR ''='' # g \<Rightarrow> (''iexact'', lookup_parts_acc [] g)
      | CHR ''@'' # g \<Rightarrow> (''search'', lookup_parts_acc [] g)
      | _ \<Rightarrow> (''icontains'', lookup_parts_acc [] f))"

definition related_lookup :: "string \<Rightarrow> bool" where
  "related_lookup lk \<longleftrightarrow> lk \<in> set [''exact'', ''gt'', ''lt'', ''gte'', ''lte'', ''in'', ''isnull'']"

fun resolve_lookup :: "(string \<Rightarrow> (string \<times> adm_field) list) \<Rightarrow> string \<Rightarrow> string \<Rightarrow> string list \<Rightarrow> py_error + unit" where
  "resolve_lookup meta m lk [] = Inl FieldError"
| "resolve_lookup meta m lk [f] =
     (case map_of (meta m) f of
        None \<Rightarrow> Inl FieldError
      | Some TextLike \<Rightarrow> Inr ()
      | Some (Related m') \<Rightarrow> if related_lookup lk then Inr () else Inl TypeError)"
| "resolve_lookup meta m lk (f # g # fs) =
     (case map_of (meta m) f of
        Some (Related m') \<Rightarrow> resolve_lookup meta m' lk (g # fs)
      | _ \<Rightarrow> Inl FieldError)"

fun path_value :: "adm_value \<Rightarrow> string list \<Rightarrow> adm_value" where
  "path_value v [] = v"
| "path_value (ARef r) (f # fs) = path_value (case map_of r f of None \<Rightarrow> ANull | Some v \<Rightarrow> v) fs"
| "path_value _ (f # fs) = ANull"

definition lookup_matches :: "string \<Rightarrow> string \<Rightarrow> adm_value \<Rightarrow> bool" where
  "lookup_matches lk wd v =
     (case v of
        AStr s \<Rightarrow>
          (if lk = ''icontains'' then icontains s wd
           else if lk = ''istartswith'' then prefix (map ascii_lower wd) (map ascii_lower s)
           else if lk = ''iexact'' then map ascii_lower s = map ascii_lower wd
           else False)
      | _ \<Rightarrow> False)"

text \<open>The first lookup that fails to resolve raises when the filter is built.\<close>

fun first_error :: "(py_error + unit) list \<Rightarrow> py_error option" where
  "first_error [] = None"
| "first_error (Inl e # rs) = Some e"
| "first_error (Inr u # rs) = first_error rs"

definition get_search_results ::
  "(string \<Rightarrow> (string \<times> adm_field) list) \<Rightarrow> string \<Rightarrow> model_admin \<Rightarrow> string \<Rightarrow> adm_row list \<Rightarrow> py_error + adm_row list" where
  "get_search_results meta m adm search_term rows =
     (if search_fields adm = [] \<or> search_term = [] \<or> py_words search_term = [] then Inr rows
      else
        let lookups = map construct_search (search_fields adm)
        in case first_error (map (\<lambda>(lk, path). resolve_lookup meta m lk path) lookups) of
             Some e \<Rightarrow> Inl e
           | None \<Rightarrow>
               Inr (filter (\<lambda>r. list_all (\<lambda>wd. list_ex (\<lambda>(lk, path). lookup_matches lk wd (path_value (ARef r) path))
                                                         lookups) (py_words search_term)) rows))"

subsection \<open>Words of a search term\<close>

lemma words_acc_nil_iff: "words_acc acc s = [] \<longleftrightarrow> acc = [] \<and> list_all is_py_space s"
  by (induction acc s rule: words_acc.induct) auto

lemma py_words_nil_iff: "py_words s = [] \<longleftrightarrow> list_all is_py_space s"
  by (simp add: py_words_def words_acc_nil_iff)

lemma py_words_Nil [simp]: "py_words [] = []"
  by (simp add: py_words_def)

subsection \<open>Searching the admin pages\<close>

text \<open>
  C20. Every search of the \<open>Tag\<close> and \<open>OutboundEmail\<close> admin pages with a search
  term that is not blank raises \<open>TypeError\<close>: both \<open>search_fields\<close> name the
  foreign key \<open>site\<close>, and \<open>site__icontains\<close> is not a lookup of a relation.
\<close>

theorem admin_search_related_field_raises:
  assumes "py_words q \<noteq> []"
  shows "get_search_results admin_meta ''Tag'' tag_admin q rows = Inl TypeError \<and>
         get_search_results admin_meta ''OutboundEmail'' outbound_email_admin q rows' = Inl TypeError"
proof -
  have "q \<noteq> []" using assms by auto
  then show ?thesis
    using assms
    by (simp add: get_search_results_def tag_admin_def outbound_email_admin_def construct_search_def
                  admin_meta_def tag_meta_def slug_model_meta_def outbound_email_meta_def related_lookup_def)
qed

text \<open>A lookup on a field of the searched row itself.\<close>

lemma lookup_matches_field:
  "lookup_matches ''icontains'' wd (path_value (ARef r) [f]) =
   (case map_of r f of Some (AStr s) \<Rightarrow> icontains s wd | _ \<Rightarrow> False)"
  by (simp add: lookup_matches_def split: option.split adm_value.split)

text \<open>
  The \<open>ContentModel\<close> and \<open>ContentBlock\<close> admin pages search the title: the
  result keeps, in order, the rows whose title contains every word of the search term
  case-insensitively, and a blank term keeps every row.
\<close>

theorem content_model_admin_search:
  "get_search_results admin_meta ''ContentModel'' content_model_admin q rows =
   Inr (filter (\<lambda>r. list_all (\<lambda>wd. case map_of r ''title'' of Some (AStr s) \<Rightarrow> icontains s wd | _ \<Rightarrow> False)
                              (py_words q)) rows)"
proof (cases "py_words q = []")
  case True
  then show ?thesis by (simp add: get_search_results_def)
next
  case False
  then have "q \<noteq> []" by auto
  with False show ?thesis
    by (simp add: get_search_results_def content_model_admin_def construct_search_def admin_meta_def
                  content_model_meta_def base_content_meta_def image_model_meta_def slug_model_meta_def
                  audit_model_meta_def seo_model_meta_def lookup_matches_field del: path_value.simps)
qed

subsection \<open>Witnesses\<close>

theorem admin_search_related_field_raises_witness:
  "py_words ''news'' \<noteq> [] \<and>
   get_search_results admin_meta ''Tag'' tag_admin ''news'' [] = Inl TypeError \<and>
   get_search_results admin_meta ''OutboundEmail'' outbound_email_admin ''news'' [] = Inl TypeError"
  using admin_search_related_field_raises [of "''news''" "[]" "[]"] by (simp add: py_words_def is_py_space_def)

end
