(* ===== verification/Urls.thy ===== *)
theory Urls
  imports Prelude
begin

text \<open>
  URL routing of the tagging application (\<open>tagging/urls.py\<close>), the only URL
  configuration of the repository, and the URL \<open>BaseTagAbstractModel\<close> builds for
  a tagged object (\<open>get_content_object_url\<close> in \<open>tagging/models.py\<close>).  Each
  pattern is a regular expression \<open>^literal$\<close> with no group, represented by its
  literal; \<open>root\<close> is the path under which the project includes the
  configuration.  Django's \<open>reverse(name, args)\<close> takes the patterns of that name
  whose number of groups is the number of arguments and raises \<open>NoReverseMatch\<close>
  when there is none; \<open>resolve(path)\<close> gives the view of the first pattern that
  matches and raises \<open>Http404\<close> (\<open>Resolver404\<close>) otherwise.
\<close>

datatype tagging_view = RetrieveTagsView | UpdateTagsView

record url_pattern =
  up_literal :: string
  up_groups :: nat
  up_view :: tagging_view
  up_name :: string

definition tagging_urlpatterns :: "url_pattern list" where
  "tagging_urlpatterns =
     [\<lparr>up_literal = ''retrieve-tags/'', up_groups = 0, up_view = RetrieveTagsView, up_name = ''retrieve_tags''\<rparr>,
      \<lparr>up_literal = ''update-tags/'', up_groups = 0, up_view = UpdateTagsView, up_name = ''update_tags''\<rparr>]"

definition url_reverse :: "string \<Rightarrow> url_pattern list \<Rightarrow> string \<Rightarrow> string list \<Rightarrow> py_error + string" where
  "url_reverse root pats name args =
     (case find (\<lambda>p. up_name p = name \<and> up_groups p = length args) pats of
        None \<Rightarrow> Inl NoReverseMatch
      | Some p \<Rightarrow> Inr (root @ up_literal p))"

definition url_resolve :: "string \<Rightarrow> url_pattern list \<Rightarrow> string \<Rightarrow> py_error + tagging_view" where
  "url_resolve root pats path =
     (if take (length root) path = root then
        (case find (\<lambda>p. drop (length root) path = up_literal p) pats of
           None \<Rightarrow> Inl Http404
         | Some p \<Rightarrow> Inr (up_view p))
      else Inl Http404)"

definition get_content_object_url :: "string \<Rightarrow> url_pattern list \<Rightarrow> int \<Rightarrow> int \<Rightarrow> py_error + string" where
  "get_content_object_url root pats content_type_id obj_pk =
     url_reverse root pats ''tags-url-redirect'' [py_str_int content_type_id, py_str_int obj_pk]"

text \<open>
  Reversing each named pattern of \<open>tagging/urls.py\<close>, under any include root,
  gives a path that resolves back to the pattern's view.
\<close>

lemma tagging_urls_roundtrip:
  "list_all (\<lambda>p. (case url_reverse root tagging_urlpatterns (up_name p) [] of
                      Inl e \<Rightarrow> Inl e
                    | Inr path \<Rightarrow> url_resolve root tagging_urlpatterns path) = Inr (up_view p))
            tagging_urlpatterns"
  by (simp add: tagging_urlpatterns_def url_reverse_def url_resolve_def)

text \<open>
  \<open>get_content_object_url\<close> reverses the name \<open>tags-url-redirect\<close>, which
  \<open>tagging/urls.py\<close> does not define: resolved against these patterns alone, the
  method raises \<open>NoReverseMatch\<close> for every tagged object.  Whether it works in a
  deployment depends on the project's \<open>ROOT_URLCONF\<close>, which is not part of the
  repository.
\<close>

lemma get_content_object_url_no_route:
  "get_content_object_url root tagging_urlpatterns ct pk = Inl NoReverseMatch"
  by (simp add: get_content_object_url_def url_reverse_def tagging_urlpatterns_def)

end
