(* ===== verification/Spec2Isabelle.thy ===== *)
theory Spec2Isabelle
  imports Managers Paginator Templates Views Widgets Tagging Mailer ContentModels Scheduler UuidField Migrations Admin Urls
begin

text \<open>
  \<^bold>\<open>A verification model of tunobase-core.\<close>

  The repository is a content layer for Django sites.  Its centre is the versioning of
  content (\<open>src/tunobase/core/models.py\<close>, \<open>managers.py\<close>, \<open>query.py\<close>):
  content rows carry a publication state; a \<open>VersionSeries\<close> groups the
  \<open>Version\<close> rows of one logical item; manager operations create versions and move
  them between \<open>UNPUBLISHED\<close>, \<open>STAGED\<close>, \<open>PUBLISHED\<close> and \<open>DELETED\<close>,
  mirroring each state onto the content row; the query layer decides which rows a
  visitor sees.  Around it sit the view mixins that guard requests
  (\<open>mixins.py\<close>), the helpers of \<open>utils.py\<close> and \<open>throttling.py\<close>, and the
  template layer (\<open>nodes.py\<close>, \<open>templatetags/core_tags.py\<close>,
  \<open>templatetags/core_widgets.py\<close>), which reads content through the query layer,
  the generic views of \<open>views.py\<close> and the date widget of \<open>widgets.py\<close>.  Two
  applications build on the core: tagging (\<open>src/tunobase/tagging\<close>: tags, their
  attachment to objects, the JSON views that read and replace them) and the mailer
  (\<open>src/tunobase/mailer\<close>: sending mail and tracking what was sent).  A Celery task
  (\<open>core/tasks.py\<close>) runs the scheduled publication; \<open>core/fields.py\<close> defines a
  UUID column.

  \<^bold>\<open>Theories, in import order.\<close>
  \<^item> \<open>Prelude\<close>: the Python and Django exceptions (\<open>py_error\<close>); the exception
    monad \<open>('s, 'a) exc\<close> with its rewrite rules \<open>exc_simps\<close> (the database state
    reached before an exception is kept: no modelled operation runs in a transaction);
    Django's \<open>QuerySet.get\<close> (\<open>objects_get\<close>) and \<open>Model.save\<close>
    (\<open>save_row\<close>); Python's list indexing (\<open>py_nth\<close>), \<open>str.split\<close> and
    \<open>join\<close> on one character (\<open>py_split\<close>, \<open>py_join\<close>, with the round trip
    \<open>py_join_split\<close>), \<open>int(s)\<close> (\<open>py_int\<close>) and \<open>str\<close> of an integer
    (\<open>py_str_int\<close>, read back by \<open>py_int\<close>: \<open>py_int_str\<close>).  Strings are
    lists of 8-bit characters: \<open>py_int\<close> accepts the ASCII digits only, while
    Python's \<open>int()\<close> of a unicode string also accepts other decimal digits.
  \<^item> \<open>Models\<close> (\<open>core/models.py\<close>): the \<open>state\<close> enumeration (from
    \<open>tunobase.core.constants\<close>, which is not among the sources and is modelled from
    the spec), content rows (the fields of \<open>StateModel\<close>, the site fields and
    \<open>SlugModel.slug\<close>), \<open>VersionSeries\<close>, \<open>Version\<close>, the database record
    \<open>db\<close>, \<open>StateModel.save\<close> (\<open>state_save\<close>, \<open>content_save\<close>),
    \<open>mark_deleted\<close>, the generic foreign key \<open>content_object\<close>; the invariants
    \<open>wf_db\<close> (unique keys, resolving series keys, fresh counters) and
    \<open>series_inv\<close> (at most one published and one staged version per series); the
    sample database \<open>example_db\<close> the witnesses run on.
  \<^item> \<open>Query\<close> (\<open>core/query.py\<close>): \<open>for_current_site\<close>, \<open>permitted\<close>,
    \<open>get_console_queryset\<close>, \<open>get_list\<close> with its three tiers and the
    first-per-series loop \<open>bottom_loop\<close>.  Results are lists in table order; the
    ORM's \<open>Meta.ordering\<close> is not modelled and the theorems are about membership.
  \<^item> \<open>Managers\<close> (\<open>core/managers.py\<close>): \<open>get_series\<close>, \<open>add_series\<close>,
    \<open>add_version\<close>, \<open>add_to_series\<close>, \<open>stage_version\<close> and
    \<open>publish_version\<close> (one body, \<open>promote_version\<close>), \<open>unpublish_version\<close>,
    \<open>delete_version\<close>, \<open>version_list\<close>, \<open>CoreStateManager.publish_objects\<close>
    (\<open>core_publish_objects\<close>) and the scheduled \<open>VersionManager.publish_objects\<close>
    (\<open>publish_objects\<close>, its loop \<open>po_loop\<close>, which reads \<open>obj.series\<close> as
    the version's series key: the \<open>DoesNotExist\<close> of a version whose series row is
    gone is not modelled, \<open>wf_db\<close> excluding such versions).  The operations form the step
    relation \<open>mgr_step\<close>; \<open>reachable\<close> is its closure from the empty database;
    \<open>spec_promote\<close> is the spec's stage/publish transition.
  \<^item> \<open>Scheduler\<close> (\<open>core/tasks.py\<close>): the periodic task
    \<open>publish_objects_task\<close> and the relation \<open>pub_rel\<close> (a content row unchanged
    or published) that describes what one run of \<open>po_loop\<close> does to the content
    table; the theorems about \<open>VersionManager.publish_objects\<close>.
  \<^item> \<open>Slugs\<close> (\<open>SlugModel\<close> of \<open>core/models.py\<close>): Django's \<open>slugify\<close>
    (\<open>collapse_dashes\<close> is its last regular-expression substitution, a
    \<open>function\<close> with a \<open>length\<close> measure), \<open>SlugModel.save\<close>
    (\<open>slug_model_save\<close>, \<open>unidecode\<close> a parameter) and the slug shape
    \<open>slug_ok\<close>.  The NFKD step of \<open>slugify\<close> is modelled as dropping the
    non-ASCII characters, which is exact on the ASCII output of \<open>unidecode\<close>.
  \<^item> \<open>UuidField\<close> (\<open>core/fields.py\<close>): \<open>UUIDField.__init__\<close> and
    \<open>pre_save\<close>, with the uuid's 128-bit integer as a parameter and its two text forms.
  \<^item> \<open>Mixins\<close> (\<open>core/mixins.py\<close>): each access mixin as a guard from a request
    to an error, a login redirect or \<open>Proceed\<close> (the next \<open>dispatch\<close>), over a
    model of Django's users, \<open>has_perm\<close> and \<open>login_required\<close>;
    \<open>FilterMixin.get_queryset_filters\<close>.
  \<^item> \<open>Paginator\<close>: \<open>AjaxMorePaginationMixin.dispatch\<close> over the parts of Django's
    \<open>Paginator\<close> and \<open>Page\<close> it calls.
  \<^item> \<open>Utils\<close> (\<open>core/utils.py\<close>, \<open>core/throttling.py\<close>):
    \<open>get_choice_value\<close>, \<open>get_client_ip\<close>, the \<open>*_or_404\<close> lookups over
    \<open>Query\<close>, \<open>create_crumb\<close>, and the session throttle (with
    \<open>USE_TZ = True\<close>; otherwise comparing the aware timestamp with the naive
    \<open>timezone.now()\<close> raises \<open>TypeError\<close>, which is not modelled).
  \<^item> \<open>Templates\<close> (\<open>core/nodes.py\<close>, \<open>core_tags.py\<close>, \<open>core_widgets.py\<close>):
    the breadcrumb and query-string nodes and the tags that build them (the
    \<open>while\<close> loop of \<open>smart_query_string\<close> as \<open>while_option\<close>: \<open>sqs_while\<close>),
    \<open>gallery_surrounding_image_pks\<close>, \<open>letterify\<close>, and the slug widgets over
    \<open>Query\<close>.
  \<^item> \<open>Views\<close> (\<open>core/views.py\<close>): \<open>MarkDeleteView.delete\<close>,
    \<open>ContentBlockUpdate.post\<close> behind \<open>AdminRequiredMixin\<close>, and
    \<open>ListWithDetailView.get\<close>, as computations over the database of \<open>Models\<close>.
  \<^item> \<open>Widgets\<close> (\<open>core/widgets.py\<close>): \<open>DateSelectorWidget\<close> and the part of
    Python's \<open>datetime\<close> it calls: date validation (\<open>make_date\<close>), proleptic
    Gregorian ordinals (\<open>to_ordinal\<close>) and CPython's year-of-ordinal computation
    (\<open>ord_year\<close>), which \<open>now - timedelta(days=k)\<close> uses.
  \<^item> \<open>ContentModels\<close> (\<open>core/models.py\<close>, \<open>DefaultImageQuerySet\<close> of
    \<open>query.py\<close>): \<open>ContentModel\<close> and \<open>DefaultImage\<close> as record extensions of
    the content row (class inheritance), \<open>ImageModel.save\<close> with the default image
    drawn by \<open>get_random\<close> (the random index a parameter) from
    \<open>permitted_rows\<close> and the dated image name (\<open>strftime_ymd\<close>),
    \<open>ContentModel.save\<close> along Python's method resolution order
    (\<open>content_model_save\<close>), the saves \<open>ImageBanner\<close> and \<open>GalleryImage\<close>
    inherit in their two resolution orders (\<open>image_banner_save\<close>,
    \<open>gallery_image_save\<close>), \<open>as_leaf_class\<close> and \<open>GalleryImage.gallery\<close>.
  \<^item> \<open>Tagging\<close> (\<open>tagging/\<close>): the \<open>Tag\<close> (with the slug \<open>SlugModel.save\<close>
    computes) and \<open>ContentObjectTag\<close> tables, the \<open>ContentObjectTagManager\<close>
    queries, \<open>TagUpdateForm.save\<close> as a deletion phase and an insertion phase
    over a backend record \<open>tag_backend\<close> (on PostgreSQL a title or slug over
    \<open>varchar(255)\<close> raises \<open>DataError\<close> in \<open>get_or_create\<close>, and
    \<open>bulk_create\<close> refuses an unknown content type or a negative or out-of-range key:
    \<open>tag_fits\<close>, \<open>cot_key_error\<close>), the two views and the two inclusion tags; the
    invariant \<open>tag_inv\<close>, the abstraction \<open>object_tags\<close> (the tag titles of each
    object) and \<open>run_save_phases\<close>, which runs the phases of several requests in a
    given interleaving.
  \<^item> \<open>Mailer\<close> (\<open>mailer/\<close>): \<open>send_mail\<close> and every helper it calls, the
    \<open>OutboundEmail\<close> table and the \<open>test_email\<close> command; the mail connection is an
    outbox, the template engine a parameter.
  \<^item> \<open>Migrations\<close> (\<open>tagging/migrations/0001\<close>, \<open>0002\<close>,
    \<open>core/migrations/0002\<close>): each \<open>forwards\<close> and \<open>backwards\<close> as the list of
    South \<open>db\<close> calls it makes (\<open>schema_op\<close>), run by \<open>run_ops\<close> over a
    schema mapping table names to columns, rows and unique constraints.  The effect of
    each call (\<open>south_step\<close>, \<open>tbl_add_column\<close>, \<open>tbl_delete_column\<close>,
    \<open>tbl_alter_column\<close>) is South's generic backend: a foreign key \<open>f\<close> is the
    column \<open>f_id\<close>, new columns are filled with the default or \<open>NULL\<close>, and whether
    shortening a column checks the stored lengths is the parameter \<open>strict\<close>
    (PostgreSQL yes, SQLite no).  A migration is one transaction, so an error is the
    result alone and the schema is unchanged.  The frozen \<open>models\<close> entries of the app's own tables
    (\<open>tagging_0001_frozen_tag\<close>, \<open>core_0002_frozen_contentmodel\<close>, ...) are
    field lists, compared as multisets of columns with the tables \<open>run_ops\<close> builds.
  \<^item> \<open>Admin\<close> (\<open>core/admin.py\<close>, \<open>tagging/admin.py\<close>, \<open>mailer/admin.py\<close>):
    each \<open>ModelAdmin\<close> class as a record of its \<open>list_display\<close>,
    \<open>list_filter\<close> and \<open>search_fields\<close>, the registrations, and \<open>site_list\<close>;
    the text and relation fields the models declare (\<open>slug_model_meta\<close>,
    \<open>tag_meta\<close>, ...); and Django 1.6's changelist search
    (\<open>get_search_results\<close>), which resolves every lookup against those fields and
    filters the rows word by word.
  \<^item> \<open>Urls\<close> (\<open>tagging/urls.py\<close>, the repository's only URL configuration):
    its two patterns (\<open>tagging_urlpatterns\<close>), Django's \<open>reverse\<close> and
    \<open>resolve\<close> over literal patterns, and
    \<open>BaseTagAbstractModel.get_content_object_url\<close>; the host project's
    \<open>ROOT_URLCONF\<close> is outside the repository.
  \<^bold>\<open>What is proved.\<close>
  \<^item> Versioning: the series invariant holds in every reachable state
    (\<open>reachable_series_inv\<close>), each operation keeping it whether it returns or raises
    half-way; stage and publish refine the spec's transition on the version table and
    mirror the state onto the content row (\<open>promote_version_refines\<close>); an object
    with no version, or several, makes every state operation raise and change nothing.
    The periodic task is idempotent, as the spec says, even after a run that raised
    half-way (\<open>publish_objects_task_idempotent\<close>), but on every database with two
    due versions in a series without a published one it publishes both
    (\<open>publish_objects_breaks_series_inv\<close>).
    \<open>get_list\<close> takes at most one version per series, never a deleted row, covers
    every live series whose live versions have live content rows (a published version
    whose row was marked deleted hides its whole series) and prefers published over
    staged over unpublished;
    \<open>permitted\<close> is characterised exactly.
  \<^item> Content models: after \<open>ContentModel.save\<close>, \<open>as_leaf_class\<close> finds the
    row just written; without \<open>Version\<close> rows for \<open>DefaultImage\<close> no default
    image is ever assigned; the date in an image name reads back.
    \<open>SlugModel.save\<close> keeps a set slug, otherwise stores a well-formed one, and a
    second save changes nothing (\<open>slug_model_save_slug\<close>).  \<open>UUIDField.pre_save\<close> stores a
    value that fits its default column width and reads back as the uuid.
  \<^item> Access control: for every guard, the exact condition under which it lets a request
    through; an anonymous user makes \<open>AdminRequiredMixin\<close> raise; a view with
    \<open>PermissionOrCreatorRequiredMixin\<close> checks \<open>GET\<close> and \<open>HEAD\<close> and
    serves every other method unchecked.
  \<^item> Pagination: pages partition the object list; a page's objects are exactly those
    between its start and end index; the AJAX answer for a valid page, and the only
    errors with a positive page size.
  \<^item> Utilities and templates: the throttle locks out exactly when enough attempts lie in
    the window (and what it does with a missing key or zero allowed attempts); choice
    lookup round trip; the client IP is the first forwarded entry; the \<open>_or_404\<close>
    lookups and widgets return only visible rows; the query string rendered by
    \<open>smart_query_string\<close> parses back to the updated parameters exactly when no key
    or value holds \<open>&\<close> or \<open>=\<close> (nothing is URL-encoded), and its argument loop
    terminates with the pairs \<open>chunk2\<close> computes; the error cases of the tags.
  \<^item> Views: \<open>MarkDeleteView\<close> hides the object from every listing;
    \<open>ContentBlockUpdate\<close> writes the row back as read, the posted content being
    assigned to an attribute that is not a field.
  \<^item> Date widget: \<open>ord_year\<close> (CPython's computation) is exact for every positive ordinal and inverts
    \<open>to_ordinal\<close> on the year; the year choices for the default settings, with the
    1 January glitch of leap years; posting a displayed date reads it back; only a
    missing field makes the parse raise.
  \<^item> Tagging: a valid \<open>UpdateTags\<close> request refines the spec's bulk replacement of
    one object's tag set when the backend accepts the tags
    (\<open>update_tags_post_refines\<close>); every request keeps the invariant; a request that
    fails after its form was validated leaves the object with no tags
    (\<open>update_tags_post_error_drops_tags\<close>); two concurrent requests whose deletions both precede their insertions
    leave the union of their tags; the tag counts are all 1; \<open>RetrieveTags\<close>
    answers each matching title once.
  \<^item> Mailer: disabled mail does nothing; a text-only mail is sent and then fails with
    \<open>IntegrityError\<close>; otherwise one message and one tracking row that agree, except
    that the row's BCC omits the settings' extra BCC list; the row's recipients read back.
  \<^item> Migrations: every successful sequence of schema operations keeps every table
    well formed (\<open>run_ops_preserves_wf\<close>); \<open>tagging 0001\<close> and
    \<open>tagging 0002\<close> are undone by their \<open>backwards\<close> while the titles fit 32
    characters, and reverting \<open>0002\<close> with a longer title raises \<open>DataError\<close>
    on a strict backend only; \<open>core 0002\<close> leaves every existing content row with
    a \<open>NULL\<close> leaf content type, which \<open>as_leaf_class\<close> cannot follow.  Each migration builds exactly the tables of its frozen
    models (\<open>tagging_migrations_match_frozen\<close>, \<open>core_0002_matches_frozen\<close>),
    while the frozen \<open>ContentBlock\<close> lacks two columns \<open>models.py\<close> declares.
  \<^item> Admin: every search of the \<open>Tag\<close> and \<open>OutboundEmail\<close> pages raises
    \<open>TypeError\<close> (\<open>admin_search_related_field_raises\<close>); the content pages'
    search keeps exactly the rows whose title contains every word.
  \<^item> URLs: reversing each pattern resolves back to its view; against
    \<open>tagging/urls.py\<close> alone \<open>get_content_object_url\<close> raises
    \<open>NoReverseMatch\<close>, the name it reverses being defined nowhere in the repository.
  \<^item> Across components (this theory): after \<open>core 0002\<close> every existing content
    row reads back without a leaf content type, so \<open>as_leaf_class\<close> raises on it
    (\<open>core_0002_rows_lose_leaf_class\<close>, with \<open>fk_value\<close>, Django's reading of
    a foreign-key column).
  The findings (the scheduled publication breaking the invariant, the unguarded
  non-\<open>GET\<close> methods, the unbound \<open>qs\<close>, the gallery wrap-around and others)
  are theorems of the component theories.

  \<^bold>\<open>Bounds, loops and modelling choices.\<close>  Every \<open>for\<close> loop of the code runs
  over a finite list and is a structurally recursive function (\<open>bottom_loop\<close>,
  \<open>po_loop\<close>, \<open>any_perm_loop\<close>, \<open>filters_loop\<close>, \<open>choice_loop\<close>,
  \<open>sqs_loop\<close>, \<open>surrounding_loop\<close>, \<open>tag_count_loop\<close>,
  \<open>tag_save_loop\<close>), so no fuel is needed.  The one \<open>while\<close> loop
  (\<open>smart_query_string\<close>) is kept as \<open>while_option\<close>, whose result is
  \<open>None\<close> when it does not stop, and is proved to return (\<open>sqs_while\<close>); the
  regular-expression scan of \<open>slugify\<close> is a \<open>function\<close> with a termination
  proof; \<open>ord_year\<close> computes the year of an
  ordinal in closed form, as CPython does, and is proved against the defining bounds
  rather than run as a search.  Python integers are
  \<open>int\<close> (page numbers, page sizes, throttle counts, \<open>letterify\<close>), database
  keys and content types \<open>nat\<close>, timestamps whole seconds.  Template variables are
  resolved by a function given as an argument; the slug widgets take the slug string
  they are given; random choices (\<open>random.choice\<close>, \<open>uuid.uuid1\<close>) and the
  clock are parameters; Python 2's unspecified dict order is replaced by
  insertion order, which only the order of the pairs in the string rendered by
  \<open>smart_query_string\<close> depends on.

  \<^bold>\<open>Not modelled.\<close>  The framework itself (ORM internals, the admin's HTML pages, the URL
  resolver beyond literal patterns, template rendering, HTTP responses), the frozen \<open>models\<close>
  entries of other apps' tables (read only through South's \<open>orm\<close> argument, which
  no migration uses), column attributes other than kind, length, \<open>null\<close> and
  default, indexes, \<open>setup.py\<close>, \<open>class_name\<close> (reflection) and the pagination widgets (context
  copies); every \<open>__unicode__\<close> and the display fields of the banner and
  content-block models (their only behaviour is the inherited saves, modelled); photologue's \<open>ImageModel.save\<close> (EXIF date and image
  cache, no field of the model) and \<open>unidecode\<close>'s transliteration table (a
  parameter); \<open>ensure_unicode\<close> and \<open>not_null_str\<close> (Python 2 text-type
  conversions, the identity on the strings of the model); in the tagging application the
  \<open>ContentObjectTag.save\<close>, reached only from the admin, whose \<open>site is None\<close>
  branch the model's non-null site column cannot express; the
  HTML rendering of the date widget's selects; Django's template engine as used by the
  mailer; the \<open>SlugModel.save\<close> step of \<open>content_save\<close> for the generic content
  rows of \<open>Models\<close>, which hold no title (it is modelled for \<open>ContentModel\<close>).
\<close>

section \<open>Properties across components\<close>

text \<open>Django's \<open>ForeignKey\<close> descriptor reads the \<open>_id\<close> column of a row:
  \<open>NULL\<close> is \<open>None\<close>, an integer the related object's key.\<close>

definition fk_value :: "sql_value \<Rightarrow> nat option" where
  "fk_value v = (case v of SqlInt i \<Rightarrow> Some (nat i) | _ \<Rightarrow> None)"

lemma migrated_row_leaf:
  assumes "table_wf t" and "''leaf_content_type_id'' \<notin> set (col_names t)" and "r \<in> set (t_rows t)"
  shows "row_value (filter (\<lambda>(k, v). k \<noteq> ''polymorphic_ctype_id'') r @ [(''leaf_content_type_id'', SqlNull)])
           ''leaf_content_type_id'' = SqlNull"
proof -
  have "map fst r = col_names t" using assms(1,3) by (auto simp: table_wf_def list_all_iff)
  then have "''leaf_content_type_id'' \<notin> set (map fst (filter (\<lambda>(k, v). k \<noteq> ''polymorphic_ctype_id'') r))"
    using assms(2) by (simp add: map_fst_filter_key)
  then show ?thesis by (rule row_value_snoc_new)
qed

text \<open>
  C17. Migrations and content models: after \<open>core 0002\<close> runs on a well-formed
  content table, every existing row reads back with no leaf content type, so
  \<open>ContentModel.as_leaf_class\<close> raises \<open>AttributeError\<close> on each of them, and
  leaves the database as it was, until the row is saved again.
\<close>

theorem core_0002_rows_lose_leaf_class:
  assumes "s ''core_polymorphiccontentmodel'' = None" and "s ''core_polymorphiccontentmodel_sites'' = None"
    and "s ''core_contentmodel'' = Some t" and "table_wf t"
    and "''polymorphic_ctype_id'' \<in> set (col_names t)"
    and "''leaf_content_type_id'' \<notin> set (col_names t)"
  shows "\<exists>s' t'. run_ops strict core_0002_forwards s = Inr s' \<and> s' ''core_contentmodel'' = Some t' \<and>
           length (t_rows t') = length (t_rows t) \<and>
           list_all (\<lambda>r. \<forall>c d. leaf_content_type c = fk_value (row_value r ''leaf_content_type_id'')
                               \<longrightarrow> as_leaf_class c d = (Inl AttributeError, d)) (t_rows t')"
proof -
  obtain s' t' where run: "run_ops strict core_0002_forwards s = Inr s'" "s' ''core_contentmodel'' = Some t'"
    and rows: "t_rows t' = map (\<lambda>r. filter (\<lambda>(k, v). k \<noteq> ''polymorphic_ctype_id'') r @
                                        [(''leaf_content_type_id'', SqlNull)]) (t_rows t)"
    using core_0002_forwards_rows [OF assms(1-3,5-6), of strict] by blast
  have "list_all (\<lambda>r. fk_value (row_value r ''leaf_content_type_id'') = None) (t_rows t')"
    using migrated_row_leaf [OF assms(4,6)] by (simp add: rows list_all_iff fk_value_def)
  then have "list_all (\<lambda>r. \<forall>c d. leaf_content_type c = fk_value (row_value r ''leaf_content_type_id'')
                               \<longrightarrow> as_leaf_class c d = (Inl AttributeError, d)) (t_rows t')"
    by (auto simp: list_all_iff as_leaf_class_def)
  with run rows show ?thesis by auto
qed

theorem core_0002_rows_lose_leaf_class_witness:
  "example_content_schema ''core_polymorphiccontentmodel'' = None \<and>
   example_content_schema ''core_polymorphiccontentmodel_sites'' = None \<and>
   example_content_schema ''core_contentmodel'' = Some example_content_table \<and> table_wf example_content_table \<and>
   ''polymorphic_ctype_id'' \<in> set (col_names example_content_table) \<and>
   ''leaf_content_type_id'' \<notin> set (col_names example_content_table) \<and>
   (\<exists>s' t'. run_ops True core_0002_forwards example_content_schema = Inr s' \<and> s' ''core_contentmodel'' = Some t' \<and>
      length (t_rows t') = 1 \<and>
      list_all (\<lambda>r. \<forall>c d. leaf_content_type c = fk_value (row_value r ''leaf_content_type_id'')
                          \<longrightarrow> as_leaf_class c d = (Inl AttributeError, d)) (t_rows t'))"
proof -
  have h: "table_wf example_content_table" "''polymorphic_ctype_id'' \<in> set (col_names example_content_table)"
    "''leaf_content_type_id'' \<notin> set (col_names example_content_table)"
    by (simp_all add: example_content_table_def table_wf_def col_names_def)
  show ?thesis
    using core_0002_rows_lose_leaf_class [of example_content_schema example_content_table True] h
    by (simp add: example_content_schema_def example_content_table_def)
qed

end
